(* ===== verification/Zoeax_Prelude.thy ===== *)
theory Zoeax_Prelude
  imports Main "HOL-Library.Word"
begin

text \<open>
  Shared ground of the development: the outcome of a Rust function (a value, an
  error returned with \<open>Err\<close>, a panic, or a loop that never returns), the two
  sequencing operators for it (pure, and threading a state), the arithmetic of
  machine integers under the dev profile of cargo (an overflow panics), and the
  generic facts on words that the component theories share.
\<close>

unbundle bit_operations_syntax

named_theorems run_simps "unfolding of the sequencing operators"
named_theorems ck_simps "results of the checked integer operations"

section \<open>Machine integers\<close>

type_synonym u8 = "8 word"
type_synonym u16 = "16 word"
type_synonym u32 = "32 word"
type_synonym u64 = "64 word"
type_synonym usize = "64 word"

section \<open>Outcomes\<close>

text \<open>
  The reasons for which the Rust runtime stops the kernel. The panic handler of
  \<^verbatim>\<open>kernel/src/main.rs\<close> prints the message and loops forever, so a panic never
  comes back to its caller.
\<close>

datatype panic =
    ArithOverflow
  | AssertFailed
  | IndexOutOfBounds
  | UnwrapFailed
  | Unimplemented
  | ExplicitPanic

text \<open>
  \<open>Ok\<close> and \<open>Err\<close> are the two values of a Rust \<open>Result\<close>; \<open>Panic\<close> is a
  panic and \<open>Hang\<close> a loop that does not end.
\<close>

datatype ('a, 'e) run = Ok 'a | Err 'e | Panic panic | Hang

type_synonym ('s, 'a, 'e) prog = "'s \<Rightarrow> ('a, 'e) run \<times> 's"

fun bind_run :: "('a, 'e) run \<Rightarrow> ('a \<Rightarrow> ('b, 'e) run) \<Rightarrow> ('b, 'e) run" where
  "bind_run (Ok x) f = f x"
| "bind_run (Err e) f = Err e"
| "bind_run (Panic p) f = Panic p"
| "bind_run Hang f = Hang"

definition bind_st :: "('s, 'a, 'e) prog \<Rightarrow> ('a \<Rightarrow> ('s, 'b, 'e) prog) \<Rightarrow> ('s, 'b, 'e) prog" where
  "bind_st m f s =
     (case m s of
        (Ok x, t) \<Rightarrow> f x t
      | (Err e, t) \<Rightarrow> (Err e, t)
      | (Panic p, t) \<Rightarrow> (Panic p, t)
      | (Hang, t) \<Rightarrow> (Hang, t))"

definition pure_st :: "'a \<Rightarrow> ('s, 'a, 'e) prog" where
  "pure_st x s = (Ok x, s)"

definition lift_st :: "('a, 'e) run \<Rightarrow> ('s, 'a, 'e) prog" where
  "lift_st r s = (r, s)"

definition gets_st :: "('s \<Rightarrow> 'a) \<Rightarrow> ('s, 'a, 'e) prog" where
  "gets_st f s = (Ok (f s), s)"

definition modify_st :: "('s \<Rightarrow> 's) \<Rightarrow> ('s, unit, 'e) prog" where
  "modify_st f s = (Ok (), f s)"

text \<open>\<open>cond.then_some(()).ok_or(e)?\<close> and \<open>assert!(cond)\<close>.\<close>

definition ensure :: "bool \<Rightarrow> 'e \<Rightarrow> (unit, 'e) run" where
  "ensure b e = (if b then Ok () else Err e)"

definition assert_run :: "bool \<Rightarrow> (unit, 'e) run" where
  "assert_run b = (if b then Ok () else Panic AssertFailed)"

text \<open>\<open>opt.ok_or(e)\<close> and \<open>opt.unwrap()\<close>.\<close>

definition ok_or :: "'a option \<Rightarrow> 'e \<Rightarrow> ('a, 'e) run" where
  "ok_or x e = (case x of None \<Rightarrow> Err e | Some v \<Rightarrow> Ok v)"

definition unwrap_run :: "('a, 'f) run \<Rightarrow> ('a, 'e) run" where
  "unwrap_run r = (case r of Ok x \<Rightarrow> Ok x | Err _ \<Rightarrow> Panic UnwrapFailed | Panic p \<Rightarrow> Panic p | Hang \<Rightarrow> Hang)"

definition map_err :: "('e \<Rightarrow> 'f) \<Rightarrow> ('a, 'e) run \<Rightarrow> ('a, 'f) run" where
  "map_err f r = (case r of Ok x \<Rightarrow> Ok x | Err e \<Rightarrow> Err (f e) | Panic p \<Rightarrow> Panic p | Hang \<Rightarrow> Hang)"

text \<open>\<open>r.ok()\<close>.\<close>

definition run_ok :: "('a, 'e) run \<Rightarrow> 'a option" where
  "run_ok r = (case r of Ok x \<Rightarrow> Some x | _ \<Rightarrow> None)"

definition is_panic :: "('a, 'e) run \<Rightarrow> bool" where
  "is_panic r \<longleftrightarrow> (case r of Panic _ \<Rightarrow> True | _ \<Rightarrow> False)"

lemma bind_run_eq_Ok [simp]:
  "bind_run r f = Ok y \<longleftrightarrow> (\<exists>x. r = Ok x \<and> f x = Ok y)"
  by (cases r) auto

lemma bind_run_eq_Err:
  "bind_run r f = Err e \<longleftrightarrow> r = Err e \<or> (\<exists>x. r = Ok x \<and> f x = Err e)"
  by (cases r) auto

lemma bind_run_assoc:
  "bind_run (bind_run r f) g = bind_run r (\<lambda>x. bind_run (f x) g)"
  by (cases r) auto

lemma bind_st_simps [simp, run_simps]:
  "m s = (Ok x, t) \<Longrightarrow> bind_st m f s = f x t"
  "m s = (Err e, t) \<Longrightarrow> bind_st m f s = (Err e, t)"
  "m s = (Panic p, t) \<Longrightarrow> bind_st m f s = (Panic p, t)"
  "m s = (Hang, t) \<Longrightarrow> bind_st m f s = (Hang, t)"
  by (simp_all add: bind_st_def)

lemma bind_st_eq_Ok:
  "bind_st m f s = (Ok y, u) \<longleftrightarrow> (\<exists>x t. m s = (Ok x, t) \<and> f x t = (Ok y, u))"
  by (cases "m s"; cases "fst (m s)") (auto simp: bind_st_def)

lemma bind_st_eq_Err:
  "bind_st m f s = (Err e, u) \<longleftrightarrow>
     m s = (Err e, u) \<or> (\<exists>x t. m s = (Ok x, t) \<and> f x t = (Err e, u))"
  by (cases "m s"; cases "fst (m s)") (auto simp: bind_st_def)

lemma prog_basics [simp, run_simps]:
  "pure_st x s = (Ok x, s)"
  "lift_st r s = (r, s)"
  "gets_st g s = (Ok (g s), s)"
  "modify_st h s = (Ok (), h s)"
  by (simp_all add: pure_st_def lift_st_def gets_st_def modify_st_def)

lemma ensure_simps [simp, run_simps]:
  "ensure True e = Ok ()"
  "ensure False e = Err e"
  "(ensure b e = Ok u) = b"
  "(ensure b e = Err e') = (\<not> b \<and> e' = e)"
  by (auto simp: ensure_def)

lemma assert_run_simps [simp, run_simps]:
  "assert_run True = Ok ()"
  "assert_run False = Panic AssertFailed"
  "(assert_run b = Ok u) = b"
  by (auto simp: assert_run_def)

lemma ok_or_simps [simp, run_simps]:
  "ok_or None e = Err e"
  "ok_or (Some v) e = Ok v"
  "(ok_or x e = Ok v) = (x = Some v)"
  by (auto simp: ok_or_def split: option.splits)

lemma unwrap_run_simps [simp, run_simps]:
  "unwrap_run (Ok x) = Ok x"
  "unwrap_run (Err e) = Panic UnwrapFailed"
  "unwrap_run (Panic p) = Panic p"
  "unwrap_run Hang = Hang"
  "(unwrap_run r = Ok v) = (r = Ok v)"
  by (auto simp: unwrap_run_def split: run.splits)

lemma map_err_simps [simp, run_simps]:
  "map_err f (Ok x) = Ok x"
  "map_err f (Err e) = Err (f e)"
  "map_err f (Panic p) = Panic p"
  "map_err f Hang = Hang"
  "(map_err f r = Ok v) = (r = Ok v)"
  by (auto simp: map_err_def split: run.splits)

lemma run_ok_simps [simp, run_simps]:
  "run_ok (Ok x) = Some x"
  "run_ok (Err e) = None"
  "(run_ok r = Some v) = (r = Ok v)"
  by (auto simp: run_ok_def split: run.splits)

section \<open>Integer operations under the dev profile\<close>

text \<open>
  The kernel is built with \<^verbatim>\<open>cargo build\<close> (the default of the Makefile): the dev
  profile, where \<open>+\<close>, \<open>-\<close>, \<open>*\<close>, \<open><<\<close>, \<open>>>\<close> and \<open>pow\<close> panic on
  overflow. A shift panics when its amount is not smaller than the width.
\<close>

definition add_ck :: "'l::len word \<Rightarrow> 'l word \<Rightarrow> ('l word, 'e) run" where
  "add_ck a b = (if unat a + unat b < 2 ^ LENGTH('l) then Ok (a + b) else Panic ArithOverflow)"

definition sub_ck :: "'l::len word \<Rightarrow> 'l word \<Rightarrow> ('l word, 'e) run" where
  "sub_ck a b = (if b \<le> a then Ok (a - b) else Panic ArithOverflow)"

definition mul_ck :: "'l::len word \<Rightarrow> 'l word \<Rightarrow> ('l word, 'e) run" where
  "mul_ck a b = (if unat a * unat b < 2 ^ LENGTH('l) then Ok (a * b) else Panic ArithOverflow)"

definition shl_ck :: "'l::len word \<Rightarrow> nat \<Rightarrow> ('l word, 'e) run" where
  "shl_ck a n = (if n < LENGTH('l) then Ok (push_bit n a) else Panic ArithOverflow)"

definition shr_ck :: "'l::len word \<Rightarrow> nat \<Rightarrow> ('l word, 'e) run" where
  "shr_ck a n = (if n < LENGTH('l) then Ok (drop_bit n a) else Panic ArithOverflow)"

text \<open>\<open>2_usize.pow(n)\<close>.\<close>

definition pow2_ck :: "nat \<Rightarrow> (usize, 'e) run" where
  "pow2_ck n = (if n < 64 then Ok (2 ^ n) else Panic ArithOverflow)"

definition checked_sub :: "'l::len word \<Rightarrow> 'l word \<Rightarrow> 'l word option" where
  "checked_sub a b = (if b \<le> a then Some (a - b) else None)"

definition saturating_sub :: "'l::len word \<Rightarrow> 'l word \<Rightarrow> 'l word" where
  "saturating_sub a b = (if b \<le> a then a - b else 0)"

lemma add_ck_Ok [ck_simps]:
  "add_ck a b = Ok (c::'l::len word) \<longleftrightarrow> unat c = unat a + unat b"
proof
  assume "add_ck a b = Ok c"
  then show "unat c = unat a + unat b"
    by (auto simp: add_ck_def unat_word_ariths split: if_splits)
next
  assume c: "unat c = unat a + unat b"
  then have "unat a + unat b < 2 ^ LENGTH('l)"
    by (metis unsigned_less)
  moreover have "a + b = c"
    using c calculation by (metis of_nat_add of_nat_unat ucast_id)
  ultimately show "add_ck a b = Ok c"
    by (simp add: add_ck_def)
qed

lemma sub_ck_Ok [ck_simps]:
  "sub_ck a b = Ok (c::'l::len word) \<longleftrightarrow> unat a = unat b + unat c"
proof
  assume "sub_ck a b = Ok c"
  then have "b \<le> a" "c = a - b" by (auto simp: sub_ck_def split: if_splits)
  then show "unat a = unat b + unat c"
    by (simp add: unat_sub word_le_nat_alt)
next
  assume c: "unat a = unat b + unat c"
  then have "b \<le> a" by (simp add: word_le_nat_alt)
  moreover have "a - b = c"
    using c by (metis add_diff_cancel_left' of_nat_add of_nat_unat ucast_id)
  ultimately show "sub_ck a b = Ok c" by (simp add: sub_ck_def)
qed

lemma add_ck_fits: "unat a + unat b < 2 ^ LENGTH('l) \<Longrightarrow> add_ck a (b::'l::len word) = Ok (a + b)"
  by (simp add: add_ck_def)

lemma sub_ck_fits: "b \<le> a \<Longrightarrow> sub_ck a (b::'l::len word) = Ok (a - b)"
  by (simp add: sub_ck_def)

lemma mul_ck_Ok [ck_simps]:
  "mul_ck a b = Ok (c::'l::len word) \<longleftrightarrow> unat c = unat a * unat b"
proof
  assume "mul_ck a b = Ok c"
  then show "unat c = unat a * unat b"
    by (auto simp: mul_ck_def unat_word_ariths split: if_splits)
next
  assume c: "unat c = unat a * unat b"
  then have "unat a * unat b < 2 ^ LENGTH('l)"
    by (metis unsigned_less)
  moreover have "a * b = c"
    using c by (metis of_nat_mult of_nat_unat ucast_id)
  ultimately show "mul_ck a b = Ok c"
    by (simp add: mul_ck_def)
qed

section \<open>Facts on words\<close>

lemma unat_pow2: "n < LENGTH('l) \<Longrightarrow> unat ((2::'l::len word) ^ n) = 2 ^ n"
  by transfer (simp add: take_bit_of_exp nat_power_eq)

lemma unat_pow2_usize [simp]: "k < 64 \<Longrightarrow> unat ((2::usize) ^ k) = 2 ^ k"
  by (simp add: unat_pow2)

lemma or_disjoint_unat:
  "a AND b = 0 \<Longrightarrow> unat (a OR b) = unat a + unat b" for a :: "'l::len word"
  by (metis disjunctive_add_eq_or unsigned_0 unsigned_and_eq unsigned_or_eq)

lemma and_mask_unat: "unat (w AND mask k) = unat w mod 2 ^ k" for w :: "'l::len word"
  by (simp flip: take_bit_eq_mask take_bit_eq_mod add: unsigned_take_bit_eq)

lemma and_not_mask_unat:
  "unat (w AND NOT (mask k)) = unat w - unat w mod 2 ^ k" for w :: "'l::len word"
proof -
  have "(w AND NOT (mask k)) AND (w AND mask k) = 0"
    by (rule bit_word_eqI) (auto simp: bit_simps)
  moreover have "(w AND NOT (mask k)) OR (w AND mask k) = w"
    by (rule bit_word_eqI) (auto simp: bit_simps)
  ultimately have "unat w = unat (w AND NOT (mask k)) + unat (w AND mask k)"
    using or_disjoint_unat by metis
  then show ?thesis by (simp add: and_mask_unat)
qed

lemma unat_less_exp: "unat (w::'l::len word) < 2 ^ LENGTH('l)"
  by (rule unsigned_less)

lemma pow2_minus_1_mask: "(2::'l::len word) ^ k - 1 = mask k"
  by (simp add: mask_eq_exp_minus_1)

end
