(* ===== verification/Interfaces.thy ===== *)
theory Interfaces
  imports Zoeax_Prelude
begin

text \<open>
  The contracts between the components, as locales. Each is interpreted on the
  definitions of the component that provides it, and the lemmas proved here
  once are used through those interpretations:
  \<^item> \<open>codec\<close> and \<open>strict_codec\<close>: a packed or numbered representation and its
    reader (enum discriminants of the system call ABI, the packed address of a
    capability, the pointers of the management database, page table entries);
  \<^item> \<open>fifo_queue\<close>: the intrusive list of \<^verbatim>\<open>kernel/src/list.rs\<close> as its users
    (run queue, endpoint queue, notification queue) see it;
  \<^item> \<open>region_alloc\<close>: an allocator that hands out consecutive regions of memory
    (the boot time page allocator, the generator of untyped capabilities).
\<close>

section \<open>Representations\<close>

locale codec =
  fixes enc :: "'a \<Rightarrow> 'w"
    and dec :: "'w \<Rightarrow> 'a option"
    and valid :: "'a \<Rightarrow> bool"
  assumes dec_enc: "valid a \<Longrightarrow> dec (enc a) = Some a"
begin

lemma enc_inj_on: "inj_on enc {a. valid a}"
  by (rule inj_onI) (metis dec_enc mem_Collect_eq option.inject)

lemma enc_eq_iff: "valid a \<Longrightarrow> valid b \<Longrightarrow> enc a = enc b \<longleftrightarrow> a = b"
  using enc_inj_on by (auto simp: inj_on_def)

end

text \<open>A strict reader accepts nothing but the representations of valid values.\<close>

locale strict_codec = codec +
  assumes dec_Some: "dec w = Some a \<Longrightarrow> valid a \<and> enc a = w"
begin

lemma dec_Some_iff: "dec w = Some a \<longleftrightarrow> valid a \<and> enc a = w"
  using dec_enc dec_Some by blast

lemma dec_None_iff: "dec w = None \<longleftrightarrow> w \<notin> enc ` {a. valid a}"
  by (cases "dec w") (auto simp: dec_enc dest: dec_Some)

end

section \<open>FIFO queues of linked items\<close>

text \<open>
  \<open>rep h q xs\<close>: in the item memory \<open>h\<close> the queue header \<open>q\<close> holds the items
  \<open>xs\<close>, first out first. \<open>loose h a\<close>: item \<open>a\<close> may be linked in (its own link
  is empty). Popping leaves the memory as it is.
\<close>

locale fifo_queue =
  fixes rep :: "'h \<Rightarrow> 'q \<Rightarrow> 'a list \<Rightarrow> bool"
    and loose :: "'h \<Rightarrow> 'a \<Rightarrow> bool"
    and new :: 'q
    and push :: "'h \<Rightarrow> 'q \<Rightarrow> 'a \<Rightarrow> 'h \<times> 'q"
    and pop :: "'h \<Rightarrow> 'q \<Rightarrow> 'a option \<times> 'q"
    and is_empty :: "'q \<Rightarrow> bool"
  assumes rep_new: "rep h new []"
    and rep_push: "rep h q xs \<Longrightarrow> loose h a \<Longrightarrow> a \<notin> set xs \<Longrightarrow>
          rep (fst (push h q a)) (snd (push h q a)) (xs @ [a])"
    and loose_push: "rep h q xs \<Longrightarrow> b \<notin> set xs \<Longrightarrow> loose (fst (push h q a)) b = loose h b"
    and pop_empty: "rep h q [] \<Longrightarrow> pop h q = (None, new)"
    and pop_item: "rep h q (x # xs) \<Longrightarrow> fst (pop h q) = Some x"
    and rep_pop: "rep h q (x # xs) \<Longrightarrow> rep h (snd (pop h q)) xs"
    and rep_is_empty: "rep h q xs \<Longrightarrow> is_empty q \<longleftrightarrow> xs = []"
    and loose_single: "rep h q [x] \<Longrightarrow> loose h x"
begin

primrec push_all :: "'h \<Rightarrow> 'q \<Rightarrow> 'a list \<Rightarrow> 'h \<times> 'q" where
  "push_all h q [] = (h, q)"
| "push_all h q (a # as) = push_all (fst (push h q a)) (snd (push h q a)) as"

primrec pop_all :: "nat \<Rightarrow> 'h \<Rightarrow> 'q \<Rightarrow> 'a list" where
  "pop_all 0 h q = []"
| "pop_all (Suc n) h q =
     (case fst (pop h q) of None \<Rightarrow> [] | Some a \<Rightarrow> a # pop_all n h (snd (pop h q)))"

lemma rep_push_all:
  "rep h q xs \<Longrightarrow> distinct as \<Longrightarrow> set as \<inter> set xs = {} \<Longrightarrow> \<forall>a \<in> set as. loose h a \<Longrightarrow>
   rep (fst (push_all h q as)) (snd (push_all h q as)) (xs @ as)"
proof (induction as arbitrary: h q xs)
  case Nil
  then show ?case by simp
next
  case (Cons a as)
  let ?h = "fst (push h q a)" and ?q = "snd (push h q a)"
  have "rep ?h ?q (xs @ [a])"
    using Cons.prems by (intro rep_push) auto
  moreover have "\<forall>b \<in> set as. loose ?h b"
    using Cons.prems loose_push by fastforce
  ultimately have "rep (fst (push_all ?h ?q as)) (snd (push_all ?h ?q as)) ((xs @ [a]) @ as)"
    using Cons.prems by (intro Cons.IH) auto
  then show ?case by simp
qed

lemma pop_all_rep: "rep h q xs \<Longrightarrow> pop_all (length xs) h q = xs"
  by (induction xs arbitrary: q) (auto simp: pop_item dest: rep_pop)

text \<open>Items come out in the order in which they went in.\<close>

lemma fifo_order:
  assumes "distinct as" and "\<forall>a \<in> set as. loose h a"
  shows "pop_all (length as) (fst (push_all h new as)) (snd (push_all h new as)) = as"
proof -
  have "rep (fst (push_all h new as)) (snd (push_all h new as)) as"
    using rep_push_all [OF rep_new, of as h] assms by simp
  then show ?thesis by (rule pop_all_rep)
qed

end

section \<open>Consecutive regions\<close>

text \<open>
  One step of the allocator either hands out a region or stops. \<open>low\<close> and \<open>high\<close>
  are the bounds of what is left. A region starts at \<open>low\<close>, and the rest starts
  where it ends.
\<close>

locale region_alloc =
  fixes step :: "'i \<Rightarrow> 's \<Rightarrow> ((nat \<times> nat) \<times> 's) option"
    and low :: "'s \<Rightarrow> nat"
    and high :: "'s \<Rightarrow> nat"
    and ok :: "'s \<Rightarrow> bool"
  assumes step_start: "ok s \<Longrightarrow> step i s = Some ((a, n), t) \<Longrightarrow> a = low s"
    and step_low: "ok s \<Longrightarrow> step i s = Some ((a, n), t) \<Longrightarrow> low t = low s + n"
    and step_high: "ok s \<Longrightarrow> step i s = Some ((a, n), t) \<Longrightarrow> high t = high s"
    and step_ok: "ok s \<Longrightarrow> step i s = Some ((a, n), t) \<Longrightarrow> ok t"
    and ok_le: "ok s \<Longrightarrow> low s \<le> high s"
begin

text \<open>The regions handed out by a sequence of requests, up to the first refusal.\<close>

primrec regions :: "'i list \<Rightarrow> 's \<Rightarrow> (nat \<times> nat) list" where
  "regions [] s = []"
| "regions (i # is) s = (case step i s of None \<Rightarrow> [] | Some (r, t) \<Rightarrow> r # regions is t)"

lemma regions_within:
  "ok s \<Longrightarrow> (a, n) \<in> set (regions is s) \<Longrightarrow> low s \<le> a \<and> a + n \<le> high s"
proof (induction "is" arbitrary: s)
  case Nil
  then show ?case by simp
next
  case (Cons i "is")
  then obtain b m t where st: "step i s = Some ((b, m), t)"
    by (cases "step i s") auto
  note facts = step_start [OF Cons.prems(1) st] step_low [OF Cons.prems(1) st]
    step_high [OF Cons.prems(1) st] step_ok [OF Cons.prems(1) st]
  then have "low t \<le> high t" using ok_le by blast
  with Cons facts st show ?case
    by fastforce
qed

text \<open>The regions are pairwise disjoint, in increasing order.\<close>

lemma regions_sorted:
  "ok s \<Longrightarrow> sorted_wrt (\<lambda>(a, n) (b, m). a + n \<le> b) (regions is s)"
proof (induction "is" arbitrary: s)
  case Nil
  then show ?case by simp
next
  case (Cons i "is")
  show ?case
  proof (cases "step i s")
    case None
    then show ?thesis by simp
  next
    case (Some x)
    then obtain b m t where st: "step i s = Some ((b, m), t)"
      by (metis prod.collapse)
    note facts = step_start [OF Cons.prems st] step_low [OF Cons.prems st] step_ok [OF Cons.prems st]
    have "sorted_wrt (\<lambda>(a, n) (b, m). a + n \<le> b) (regions is t)"
      using Cons.IH facts(3) by blast
    moreover have "b + m \<le> a" if "(a, n) \<in> set (regions is t)" for a n
      using regions_within [OF facts(3) that] facts by simp
    ultimately show ?thesis using st by auto
  qed
qed

end

end
