(* ===== verification/Shared_Registers.thy ===== *)
theory Shared_Registers
  imports Zoeax_Prelude
begin

text \<open>
  The register file that the kernel saves and restores for a thread
  (\<^verbatim>\<open>shared/src/registers.rs\<close>), and the part of an IPC buffer through which a
  user program hands a whole register file to the kernel
  (\<^verbatim>\<open>shared/src/types.rs\<close>). The structure is \<open>repr(C)\<close>: its fields lie in
  memory in the order of their declaration, one machine word each.
\<close>

section \<open>Registers\<close>

datatype Register =
    Ra | Sp | Gp | Tp | T0 | T1 | T2 | S0 | S1
  | A0 | A1 | A2 | A3 | A4 | A5 | A6 | A7 | S2
  | S3 | S4 | S5 | S6 | S7 | S8 | S9 | S10 | S11
  | T3 | T4 | T5 | T6 | SCause | SStatus | SEpc

record Registers =
  rg_ra :: usize
  rg_sp :: usize
  rg_gp :: usize
  rg_tp :: usize
  rg_t0 :: usize
  rg_t1 :: usize
  rg_t2 :: usize
  rg_t3 :: usize
  rg_t4 :: usize
  rg_t5 :: usize
  rg_t6 :: usize
  rg_a0 :: usize
  rg_a1 :: usize
  rg_a2 :: usize
  rg_a3 :: usize
  rg_a4 :: usize
  rg_a5 :: usize
  rg_a6 :: usize
  rg_a7 :: usize
  rg_s0 :: usize
  rg_s1 :: usize
  rg_s2 :: usize
  rg_s3 :: usize
  rg_s4 :: usize
  rg_s5 :: usize
  rg_s6 :: usize
  rg_s7 :: usize
  rg_s8 :: usize
  rg_s9 :: usize
  rg_s10 :: usize
  rg_s11 :: usize
  rg_scause :: usize
  rg_sstatus :: usize
  rg_sepc :: usize

definition null_registers :: Registers where
  "null_registers =
     \<lparr>rg_ra = 0, rg_sp = 0, rg_gp = 0, rg_tp = 0, rg_t0 = 0,
      rg_t1 = 0, rg_t2 = 0, rg_t3 = 0, rg_t4 = 0, rg_t5 = 0,
      rg_t6 = 0, rg_a0 = 0, rg_a1 = 0, rg_a2 = 0, rg_a3 = 0,
      rg_a4 = 0, rg_a5 = 0, rg_a6 = 0, rg_a7 = 0, rg_s0 = 0,
      rg_s1 = 0, rg_s2 = 0, rg_s3 = 0, rg_s4 = 0, rg_s5 = 0,
      rg_s6 = 0, rg_s7 = 0, rg_s8 = 0, rg_s9 = 0, rg_s10 = 0,
      rg_s11 = 0, rg_scause = 0, rg_sstatus = 0, rg_sepc = 0\<rparr>"

text \<open>\<open>registers[r]\<close> as a value and as the target of an assignment.\<close>

fun reg_index :: "Registers \<Rightarrow> Register \<Rightarrow> usize" where
  "reg_index r Ra = rg_ra r"
| "reg_index r Sp = rg_sp r"
| "reg_index r Gp = rg_gp r"
| "reg_index r Tp = rg_tp r"
| "reg_index r T0 = rg_t0 r"
| "reg_index r T1 = rg_t1 r"
| "reg_index r T2 = rg_t2 r"
| "reg_index r T3 = rg_t3 r"
| "reg_index r T4 = rg_t4 r"
| "reg_index r T5 = rg_t5 r"
| "reg_index r T6 = rg_t6 r"
| "reg_index r A0 = rg_a0 r"
| "reg_index r A1 = rg_a1 r"
| "reg_index r A2 = rg_a2 r"
| "reg_index r A3 = rg_a3 r"
| "reg_index r A4 = rg_a4 r"
| "reg_index r A5 = rg_a5 r"
| "reg_index r A6 = rg_a6 r"
| "reg_index r A7 = rg_a7 r"
| "reg_index r S0 = rg_s0 r"
| "reg_index r S1 = rg_s1 r"
| "reg_index r S2 = rg_s2 r"
| "reg_index r S3 = rg_s3 r"
| "reg_index r S4 = rg_s4 r"
| "reg_index r S5 = rg_s5 r"
| "reg_index r S6 = rg_s6 r"
| "reg_index r S7 = rg_s7 r"
| "reg_index r S8 = rg_s8 r"
| "reg_index r S9 = rg_s9 r"
| "reg_index r S10 = rg_s10 r"
| "reg_index r S11 = rg_s11 r"
| "reg_index r SCause = rg_scause r"
| "reg_index r SStatus = rg_sstatus r"
| "reg_index r SEpc = rg_sepc r"

fun reg_index_mut :: "Registers \<Rightarrow> Register \<Rightarrow> usize \<Rightarrow> Registers" where
  "reg_index_mut r Ra v = r\<lparr>rg_ra := v\<rparr>"
| "reg_index_mut r Sp v = r\<lparr>rg_sp := v\<rparr>"
| "reg_index_mut r Gp v = r\<lparr>rg_gp := v\<rparr>"
| "reg_index_mut r Tp v = r\<lparr>rg_tp := v\<rparr>"
| "reg_index_mut r T0 v = r\<lparr>rg_t0 := v\<rparr>"
| "reg_index_mut r T1 v = r\<lparr>rg_t1 := v\<rparr>"
| "reg_index_mut r T2 v = r\<lparr>rg_t2 := v\<rparr>"
| "reg_index_mut r T3 v = r\<lparr>rg_t3 := v\<rparr>"
| "reg_index_mut r T4 v = r\<lparr>rg_t4 := v\<rparr>"
| "reg_index_mut r T5 v = r\<lparr>rg_t5 := v\<rparr>"
| "reg_index_mut r T6 v = r\<lparr>rg_t6 := v\<rparr>"
| "reg_index_mut r A0 v = r\<lparr>rg_a0 := v\<rparr>"
| "reg_index_mut r A1 v = r\<lparr>rg_a1 := v\<rparr>"
| "reg_index_mut r A2 v = r\<lparr>rg_a2 := v\<rparr>"
| "reg_index_mut r A3 v = r\<lparr>rg_a3 := v\<rparr>"
| "reg_index_mut r A4 v = r\<lparr>rg_a4 := v\<rparr>"
| "reg_index_mut r A5 v = r\<lparr>rg_a5 := v\<rparr>"
| "reg_index_mut r A6 v = r\<lparr>rg_a6 := v\<rparr>"
| "reg_index_mut r A7 v = r\<lparr>rg_a7 := v\<rparr>"
| "reg_index_mut r S0 v = r\<lparr>rg_s0 := v\<rparr>"
| "reg_index_mut r S1 v = r\<lparr>rg_s1 := v\<rparr>"
| "reg_index_mut r S2 v = r\<lparr>rg_s2 := v\<rparr>"
| "reg_index_mut r S3 v = r\<lparr>rg_s3 := v\<rparr>"
| "reg_index_mut r S4 v = r\<lparr>rg_s4 := v\<rparr>"
| "reg_index_mut r S5 v = r\<lparr>rg_s5 := v\<rparr>"
| "reg_index_mut r S6 v = r\<lparr>rg_s6 := v\<rparr>"
| "reg_index_mut r S7 v = r\<lparr>rg_s7 := v\<rparr>"
| "reg_index_mut r S8 v = r\<lparr>rg_s8 := v\<rparr>"
| "reg_index_mut r S9 v = r\<lparr>rg_s9 := v\<rparr>"
| "reg_index_mut r S10 v = r\<lparr>rg_s10 := v\<rparr>"
| "reg_index_mut r S11 v = r\<lparr>rg_s11 := v\<rparr>"
| "reg_index_mut r SCause v = r\<lparr>rg_scause := v\<rparr>"
| "reg_index_mut r SStatus v = r\<lparr>rg_sstatus := v\<rparr>"
| "reg_index_mut r SEpc v = r\<lparr>rg_sepc := v\<rparr>"

text \<open>Writing one register is read back, and touches no other register.\<close>

lemma reg_index_same [simp]: "reg_index (reg_index_mut r i v) i = v"
  by (cases i) simp_all

lemma reg_index_other [simp]: "i \<noteq> j \<Longrightarrow> reg_index (reg_index_mut r i v) j = reg_index r j"
  by (cases i; cases j) simp_all

section \<open>The register file in memory\<close>

definition words_of_registers :: "Registers \<Rightarrow> usize list" where
  "words_of_registers r =
     [rg_ra r, rg_sp r, rg_gp r, rg_tp r, rg_t0 r, rg_t1 r,
      rg_t2 r, rg_t3 r, rg_t4 r, rg_t5 r, rg_t6 r, rg_a0 r,
      rg_a1 r, rg_a2 r, rg_a3 r, rg_a4 r, rg_a5 r, rg_a6 r,
      rg_a7 r, rg_s0 r, rg_s1 r, rg_s2 r, rg_s3 r, rg_s4 r,
      rg_s5 r, rg_s6 r, rg_s7 r, rg_s8 r, rg_s9 r, rg_s10 r,
      rg_s11 r, rg_scause r, rg_sstatus r, rg_sepc r]"

definition registers_of_words :: "usize list \<Rightarrow> Registers" where
  "registers_of_words ws =
     \<lparr>rg_ra = ws ! 0, rg_sp = ws ! 1, rg_gp = ws ! 2, rg_tp = ws ! 3, rg_t0 = ws ! 4,
      rg_t1 = ws ! 5, rg_t2 = ws ! 6, rg_t3 = ws ! 7, rg_t4 = ws ! 8, rg_t5 = ws ! 9,
      rg_t6 = ws ! 10, rg_a0 = ws ! 11, rg_a1 = ws ! 12, rg_a2 = ws ! 13, rg_a3 = ws ! 14,
      rg_a4 = ws ! 15, rg_a5 = ws ! 16, rg_a6 = ws ! 17, rg_a7 = ws ! 18, rg_s0 = ws ! 19,
      rg_s1 = ws ! 20, rg_s2 = ws ! 21, rg_s3 = ws ! 22, rg_s4 = ws ! 23, rg_s5 = ws ! 24,
      rg_s6 = ws ! 25, rg_s7 = ws ! 26, rg_s8 = ws ! 27, rg_s9 = ws ! 28, rg_s10 = ws ! 29,
      rg_s11 = ws ! 30, rg_scause = ws ! 31, rg_sstatus = ws ! 32, rg_sepc = ws ! 33\<rparr>"

lemma length_words_of_registers [simp]: "length (words_of_registers r) = 34"
  by (simp add: words_of_registers_def)

lemma registers_of_words_of_registers [simp]:
  "registers_of_words (words_of_registers r @ ws) = r"
  by (simp add: registers_of_words_def words_of_registers_def)

end
