(* ===== verification/Shared_Types.thy ===== *)
theory Shared_Types
  imports Interfaces Shared_Registers
begin

text \<open>
  The \<^verbatim>\<open>shared\<close> crate, which the kernel and the user library both link: the
  numbering of capability types, error kinds, invocation labels and system
  calls, the alignment helpers, and the IPC buffer. An enum discriminant is a
  function from the constructor to its number, and each \<open>TryFrom\<close> is the chain
  of comparisons of the source.
\<close>

section \<open>Error kinds (err_kind.rs)\<close>

datatype ErrKind =
    NoMemory
  | PteNotFound
  | OutOfMemory
  | InvalidUserAddress
  | UnknownCapType
  | UnexpectedCapType
  | CanNotNewFromDeviceMemory
  | NoEnoughSlot
  | NotEmptySlot
  | SlotIsEmpty
  | VaddressAlreadyMapped
  | PageTableAlreadyMapped
  | PageTableNotMappedYet
  | PageAlreadyMapped
  | PageNotMappedYet
  | UnknownInvocation
  | CanNotDerivable
  | InvalidOperation
  | CapNotFound
  | NotAligned
  | UnknownSysCall
  | NotRootPageTable

fun err_kind_u8 :: "ErrKind \<Rightarrow> u8" where
  "err_kind_u8 NoMemory = 1"
| "err_kind_u8 PteNotFound = 2"
| "err_kind_u8 OutOfMemory = 3"
| "err_kind_u8 InvalidUserAddress = 4"
| "err_kind_u8 UnknownCapType = 5"
| "err_kind_u8 UnexpectedCapType = 6"
| "err_kind_u8 CanNotNewFromDeviceMemory = 7"
| "err_kind_u8 NoEnoughSlot = 8"
| "err_kind_u8 NotEmptySlot = 9"
| "err_kind_u8 SlotIsEmpty = 10"
| "err_kind_u8 VaddressAlreadyMapped = 11"
| "err_kind_u8 PageTableAlreadyMapped = 12"
| "err_kind_u8 PageTableNotMappedYet = 13"
| "err_kind_u8 PageAlreadyMapped = 14"
| "err_kind_u8 PageNotMappedYet = 15"
| "err_kind_u8 UnknownInvocation = 16"
| "err_kind_u8 CanNotDerivable = 17"
| "err_kind_u8 InvalidOperation = 18"
| "err_kind_u8 CapNotFound = 19"
| "err_kind_u8 NotAligned = 20"
| "err_kind_u8 UnknownSysCall = 21"
| "err_kind_u8 NotRootPageTable = 22"

definition err_kind_usize :: "ErrKind \<Rightarrow> usize" where
  "err_kind_usize k = ucast (err_kind_u8 k)"

definition err_kind_try_from :: "usize \<Rightarrow> (ErrKind, unit) run" where
  "err_kind_try_from v =
     (if v = err_kind_usize NoMemory then Ok NoMemory
      else if v = err_kind_usize PteNotFound then Ok PteNotFound
      else if v = err_kind_usize OutOfMemory then Ok OutOfMemory
      else if v = err_kind_usize InvalidUserAddress then Ok InvalidUserAddress
      else if v = err_kind_usize UnknownCapType then Ok UnknownCapType
      else if v = err_kind_usize UnexpectedCapType then Ok UnexpectedCapType
      else if v = err_kind_usize CanNotNewFromDeviceMemory then Ok CanNotNewFromDeviceMemory
      else if v = err_kind_usize NoEnoughSlot then Ok NoEnoughSlot
      else if v = err_kind_usize NotEmptySlot then Ok NotEmptySlot
      else if v = err_kind_usize SlotIsEmpty then Ok SlotIsEmpty
      else if v = err_kind_usize VaddressAlreadyMapped then Ok VaddressAlreadyMapped
      else if v = err_kind_usize PageAlreadyMapped then Ok PageAlreadyMapped
      else if v = err_kind_usize PageNotMappedYet then Ok PageNotMappedYet
      else if v = err_kind_usize PageTableAlreadyMapped then Ok PageTableAlreadyMapped
      else if v = err_kind_usize PageTableNotMappedYet then Ok PageTableNotMappedYet
      else if v = err_kind_usize UnknownInvocation then Ok UnknownInvocation
      else if v = err_kind_usize CanNotDerivable then Ok CanNotDerivable
      else if v = err_kind_usize InvalidOperation then Ok InvalidOperation
      else if v = err_kind_usize CapNotFound then Ok CapNotFound
      else if v = err_kind_usize NotAligned then Ok NotAligned
      else Err ())"

text \<open>An error of the kernel: \<open>kerr!(kind)\<close> and \<open>kerr!(kind, value)\<close>.\<close>

record KernelError =
  e_kind :: ErrKind
  e_val :: u16

definition kerr :: "ErrKind \<Rightarrow> KernelError" where
  "kerr k = \<lparr>e_kind = k, e_val = 0\<rparr>"

definition kerr_val :: "ErrKind \<Rightarrow> u16 \<Rightarrow> KernelError" where
  "kerr_val k v = \<lparr>e_kind = k, e_val = v\<rparr>"

type_synonym 'a kres = "('a, KernelError) run"

section \<open>Capability types (cap_type.rs)\<close>

datatype CapabilityType =
    Untyped | Tcb | EndPoint | CNode | Notification | PageTable | Page

fun cap_type_u8 :: "CapabilityType \<Rightarrow> u8" where
  "cap_type_u8 Untyped = 1"
| "cap_type_u8 Tcb = 3"
| "cap_type_u8 EndPoint = 5"
| "cap_type_u8 CNode = 7"
| "cap_type_u8 Notification = 9"
| "cap_type_u8 PageTable = 2"
| "cap_type_u8 Page = 4"

definition cap_type_try_from :: "u8 \<Rightarrow> (CapabilityType, ErrKind) run" where
  "cap_type_try_from v =
     (if v = cap_type_u8 Untyped then Ok Untyped
      else if v = cap_type_u8 Tcb then Ok Tcb
      else if v = cap_type_u8 EndPoint then Ok EndPoint
      else if v = cap_type_u8 CNode then Ok CNode
      else if v = cap_type_u8 Notification then Ok Notification
      else if v = cap_type_u8 Page then Ok Page
      else if v = cap_type_u8 PageTable then Ok PageTable
      else Err UnknownCapType)"

section \<open>Invocation labels and system call numbers (inv_labels.rs, syscall_no.rs)\<close>

datatype InvLabel =
    PutChar
  | CNodeTraverse
  | UntypedRetype
  | TcbConfigure
  | TcbWriteReg
  | TcbResume
  | TcbSetIpcBuffer
  | NotifyWait
  | NotifySend
  | CNodeCopy
  | CNodeMint
  | CNodeMove
  | PageMap
  | PageUnMap
  | PageTableMap
  | PageTableUnMap
  | PageTableMakeRoot
  | EpSend
  | EpRecv

fun inv_label_usize :: "InvLabel \<Rightarrow> usize" where
  "inv_label_usize PutChar = 0"
| "inv_label_usize CNodeTraverse = 1"
| "inv_label_usize UntypedRetype = 2"
| "inv_label_usize TcbConfigure = 3"
| "inv_label_usize TcbWriteReg = 4"
| "inv_label_usize TcbResume = 5"
| "inv_label_usize TcbSetIpcBuffer = 6"
| "inv_label_usize NotifyWait = 7"
| "inv_label_usize NotifySend = 8"
| "inv_label_usize CNodeCopy = 9"
| "inv_label_usize CNodeMint = 10"
| "inv_label_usize CNodeMove = 11"
| "inv_label_usize PageMap = 12"
| "inv_label_usize PageUnMap = 13"
| "inv_label_usize PageTableMap = 14"
| "inv_label_usize PageTableUnMap = 15"
| "inv_label_usize PageTableMakeRoot = 16"
| "inv_label_usize EpSend = 17"
| "inv_label_usize EpRecv = 18"

definition inv_label_try_from :: "usize \<Rightarrow> (InvLabel, ErrKind) run" where
  "inv_label_try_from v =
     (if v = inv_label_usize PutChar then Ok PutChar
      else if v = inv_label_usize CNodeTraverse then Ok CNodeTraverse
      else if v = inv_label_usize UntypedRetype then Ok UntypedRetype
      else if v = inv_label_usize TcbConfigure then Ok TcbConfigure
      else if v = inv_label_usize TcbWriteReg then Ok TcbWriteReg
      else if v = inv_label_usize TcbResume then Ok TcbResume
      else if v = inv_label_usize TcbSetIpcBuffer then Ok TcbSetIpcBuffer
      else if v = inv_label_usize NotifyWait then Ok NotifyWait
      else if v = inv_label_usize NotifySend then Ok NotifySend
      else if v = inv_label_usize CNodeCopy then Ok CNodeCopy
      else if v = inv_label_usize CNodeMint then Ok CNodeMint
      else if v = inv_label_usize CNodeMove then Ok CNodeMove
      else if v = inv_label_usize PageMap then Ok PageMap
      else if v = inv_label_usize PageUnMap then Ok PageUnMap
      else if v = inv_label_usize PageTableMap then Ok PageTableMap
      else if v = inv_label_usize PageTableUnMap then Ok PageTableUnMap
      else if v = inv_label_usize PageTableMakeRoot then Ok PageTableMakeRoot
      else if v = inv_label_usize EpSend then Ok EpSend
      else if v = inv_label_usize EpRecv then Ok EpRecv
      else Err UnknownInvocation)"

datatype SysCallNo = Print | Call | Send | Recv

fun syscall_no_usize :: "SysCallNo \<Rightarrow> usize" where
  "syscall_no_usize Print = 0"
| "syscall_no_usize Call = 1"
| "syscall_no_usize Send = 2"
| "syscall_no_usize Recv = 3"

section \<open>Alignment (lib.rs)\<close>

definition PAGE_SIZE :: usize where
  "PAGE_SIZE = 4096"

text \<open>\<open>usize::is_multiple_of\<close>: of zero, only zero is a multiple.\<close>

definition is_aligned :: "usize \<Rightarrow> usize \<Rightarrow> bool" where
  "is_aligned v a \<longleftrightarrow> (if a = 0 then v = 0 else v mod a = 0)"

definition align_up :: "usize \<Rightarrow> usize \<Rightarrow> (usize, 'e) run" where
  "align_up v a =
     bind_run (add_ck v a) (\<lambda>x.
     bind_run (sub_ck x 1) (\<lambda>y.
     bind_run (sub_ck a 1) (\<lambda>m.
     Ok (y AND NOT m))))"

definition align_down :: "usize \<Rightarrow> usize \<Rightarrow> (usize, 'e) run" where
  "align_down v a = bind_run (sub_ck a 1) (\<lambda>m. Ok (v AND NOT m))"

section \<open>IPC buffer and boot information (types.rs)\<close>

definition MESSAGE_LEN :: nat where
  "MESSAGE_LEN = 128"

record IPCBuffer =
  buf_tag :: usize
  buf_message :: "usize list"
  buf_user_data :: usize

text \<open>
  \<open>write_as\<close> and \<open>read_as\<close> reinterpret the message words as a value of the
  given type; the kernel and the library do this for a register file only. The
  message is an array of \<open>MESSAGE_LEN\<close> words of eight bytes.
\<close>

definition registers_size :: nat where
  "registers_size = 34 * 8"

definition write_as :: "IPCBuffer \<Rightarrow> Registers \<Rightarrow> (IPCBuffer, ErrKind) run" where
  "write_as b r =
     bind_run (ensure (registers_size \<le> 8 * length (buf_message b)) InvalidOperation) (\<lambda>_.
     Ok (b\<lparr>buf_message := words_of_registers r @ drop 34 (buf_message b)\<rparr>))"

definition read_as :: "IPCBuffer \<Rightarrow> (Registers, ErrKind) run" where
  "read_as b =
     bind_run (ensure (registers_size \<le> 8 * length (buf_message b)) InvalidOperation) (\<lambda>_.
     Ok (registers_of_words (buf_message b)))"

record UntypedInfo =
  ui_bits :: usize
  ui_idx :: usize
  ui_is_device :: bool

record BootInfo =
  bi_ipc_buffer_addr :: usize
  bi_root_cnode_idx :: usize
  bi_root_vspace_idx :: usize
  bi_untyped_num :: usize
  bi_first_empty_idx :: usize
  bi_msg :: "u8 list"
  bi_untyped_infos :: "UntypedInfo list"

definition default_untyped_info :: UntypedInfo where
  "default_untyped_info = \<lparr>ui_bits = 0, ui_idx = 0, ui_is_device = False\<rparr>"

definition default_boot_info :: BootInfo where
  "default_boot_info =
     \<lparr>bi_ipc_buffer_addr = 0, bi_root_cnode_idx = 0, bi_root_vspace_idx = 0,
      bi_untyped_num = 0, bi_first_empty_idx = 0, bi_msg = replicate 32 0,
      bi_untyped_infos = replicate 32 default_untyped_info\<rparr>"

section \<open>The numberings are codecs\<close>

lemma err_kind_usize_simps [simp]:
  "err_kind_usize NoMemory = 1"
  "err_kind_usize PteNotFound = 2"
  "err_kind_usize OutOfMemory = 3"
  "err_kind_usize InvalidUserAddress = 4"
  "err_kind_usize UnknownCapType = 5"
  "err_kind_usize UnexpectedCapType = 6"
  "err_kind_usize CanNotNewFromDeviceMemory = 7"
  "err_kind_usize NoEnoughSlot = 8"
  "err_kind_usize NotEmptySlot = 9"
  "err_kind_usize SlotIsEmpty = 10"
  "err_kind_usize VaddressAlreadyMapped = 11"
  "err_kind_usize PageTableAlreadyMapped = 12"
  "err_kind_usize PageTableNotMappedYet = 13"
  "err_kind_usize PageAlreadyMapped = 14"
  "err_kind_usize PageNotMappedYet = 15"
  "err_kind_usize UnknownInvocation = 16"
  "err_kind_usize CanNotDerivable = 17"
  "err_kind_usize InvalidOperation = 18"
  "err_kind_usize CapNotFound = 19"
  "err_kind_usize NotAligned = 20"
  "err_kind_usize UnknownSysCall = 21"
  "err_kind_usize NotRootPageTable = 22"
  by (simp_all add: err_kind_usize_def)

interpretation cap_type: strict_codec cap_type_u8 "\<lambda>w. run_ok (cap_type_try_from w)" "\<lambda>_. True"
proof unfold_locales
  fix a
  show "run_ok (cap_type_try_from (cap_type_u8 a)) = Some a"
    by (cases a) (simp_all add: cap_type_try_from_def)
next
  fix w a
  assume "run_ok (cap_type_try_from w) = Some a"
  then show "True \<and> cap_type_u8 a = w"
    by (auto simp: cap_type_try_from_def split: if_splits)
qed

interpretation inv_label: strict_codec inv_label_usize "\<lambda>w. run_ok (inv_label_try_from w)" "\<lambda>_. True"
proof unfold_locales
  fix a
  show "run_ok (inv_label_try_from (inv_label_usize a)) = Some a"
    by (cases a) (simp_all add: inv_label_try_from_def)
next
  fix w a
  assume "run_ok (inv_label_try_from w) = Some a"
  then show "True \<and> inv_label_usize a = w"
    by (auto simp: inv_label_try_from_def split: if_splits)
qed

text \<open>
  Two error kinds have a number but no branch in \<open>try_from\<close>, so the decoder is
  the inverse of the numbering on the others only.
\<close>

definition err_kind_decodable :: "ErrKind \<Rightarrow> bool" where
  "err_kind_decodable k \<longleftrightarrow> k \<noteq> UnknownSysCall \<and> k \<noteq> NotRootPageTable"

interpretation err_kind: strict_codec err_kind_usize "\<lambda>w. run_ok (err_kind_try_from w)" err_kind_decodable
proof unfold_locales
  fix a
  assume "err_kind_decodable a"
  then show "run_ok (err_kind_try_from (err_kind_usize a)) = Some a"
    by (cases a) (simp_all add: err_kind_try_from_def err_kind_decodable_def)
next
  fix w a
  assume "run_ok (err_kind_try_from w) = Some a"
  then show "err_kind_decodable a \<and> err_kind_usize a = w"
    by (auto simp: err_kind_try_from_def err_kind_decodable_def split: if_splits)
qed

lemma err_kind_usize_nonzero: "err_kind_usize k \<noteq> 0"
  by (cases k) simp_all

section \<open>Alignment is exact\<close>

lemma align_up_eq:
  assumes "k < 64"
  shows "align_up v (2 ^ k) =
     (if unat v + 2 ^ k < 2 ^ 64 then Ok ((v + 2 ^ k - 1) AND NOT (mask k)) else Panic ArithOverflow)"
proof (cases "unat v + 2 ^ k < 2 ^ 64")
  case True
  have s: "unat (v + 2 ^ k) = unat v + 2 ^ k"
    using assms True by (simp add: unat_word_ariths)
  have "1 \<le> v + 2 ^ k" using s by (simp add: word_le_nat_alt Suc_le_eq)
  moreover have "1 \<le> (2::usize) ^ k" using assms by (simp add: word_le_nat_alt)
  ultimately show ?thesis
    using assms True by (simp add: align_up_def add_ck_fits sub_ck_fits pow2_minus_1_mask)
next
  case False
  then show ?thesis using assms by (simp add: align_up_def add_ck_def)
qed

text \<open>The result is the least multiple of the alignment that is not below the argument.\<close>

lemma align_up_Ok:
  assumes "k < 64" and "align_up v (2 ^ k) = Ok r"
  shows "2 ^ k dvd unat r" and "unat v \<le> unat r" and "unat r < unat v + 2 ^ k"
proof -
  define n where "n = unat v + 2 ^ k - 1"
  have fits: "unat v + 2 ^ k < 2 ^ 64" and r: "r = (v + 2 ^ k - 1) AND NOT (mask k)"
    using assms by (auto simp: align_up_eq split: if_splits)
  have "unat (v + 2 ^ k) = unat v + 2 ^ k"
    using assms fits by (simp add: unat_word_ariths)
  then have "unat (v + 2 ^ k - 1) = n"
    unfolding n_def by (subst unat_minus_one) auto
  then have u: "unat r = n - n mod 2 ^ k" by (simp add: r and_not_mask_unat)
  then show "2 ^ k dvd unat r" by (simp add: dvd_minus_mod)
  have "n mod 2 ^ k < 2 ^ k" and "n mod 2 ^ k \<le> n" by simp_all
  moreover have "n + 1 = unat v + 2 ^ k" by (simp add: n_def)
  ultimately show "unat v \<le> unat r" and "unat r < unat v + 2 ^ k" using u by linarith+
qed

lemma align_down_Ok:
  assumes "k < 64" and "align_down v (2 ^ k) = Ok r"
  shows "2 ^ k dvd unat r" and "unat r \<le> unat v" and "unat v < unat r + 2 ^ k"
proof -
  have r: "r = v AND NOT (mask k)"
    using assms by (auto simp: align_down_def sub_ck_def pow2_minus_1_mask split: if_splits)
  then have u: "unat r = unat v - unat v mod 2 ^ k" by (simp add: and_not_mask_unat)
  then show "2 ^ k dvd unat r" by (simp add: dvd_minus_mod)
  have "unat v mod 2 ^ k < 2 ^ k" and "unat v mod 2 ^ k \<le> unat v" by simp_all
  then show "unat r \<le> unat v" and "unat v < unat r + 2 ^ k" using u by linarith+
qed

lemma align_up_aligned:
  assumes "k < 64" and "2 ^ k dvd unat v" and "unat v + 2 ^ k < 2 ^ 64"
  shows "align_up v (2 ^ k) = (Ok v :: (usize, 'e) run)"
proof -
  obtain r where r: "align_up v (2 ^ k) = (Ok r :: (usize, 'e) run)" using assms by (simp add: align_up_eq)
  note f = align_up_Ok [OF assms(1) r]
  from f(1) assms(2) have "2 ^ k dvd unat r - unat v" by (rule dvd_diff_nat)
  moreover have "unat r - unat v < 2 ^ k" using f by simp
  ultimately have "unat r = unat v" using f(2)
    by (metis dvd_imp_le le_antisym diff_is_0_eq linorder_not_less not_gr_zero)
  then show ?thesis using r by (simp add: word_unat_eq_iff)
qed

section \<open>The IPC buffer carries a register file\<close>

lemma write_read_as:
  "34 \<le> length (buf_message b) \<Longrightarrow> \<exists>b'. write_as b r = Ok b' \<and> read_as b' = Ok r"
  by (simp add: write_as_def read_as_def registers_size_def ensure_def)
end
