(* ===== verification/Address.thy ===== *)
theory Address
  imports Shared_Types
begin

text \<open>
  Addresses (\<^verbatim>\<open>kernel/src/address.rs\<close>). The phantom type parameter that tells
  physical, user virtual and kernel virtual addresses apart has no run time
  content; the model names the three uses by type synonyms and keeps every
  conversion explicit. All RAM is mapped at \<open>KERNEL_V_ADDR_PFX\<close>, so the kernel
  reaches physical address \<open>p\<close> at \<open>p OR KERNEL_V_ADDR_PFX\<close>.
\<close>

type_synonym PhysAddr = usize
type_synonym VirtAddr = usize
type_synonym KernelVAddress = usize

definition KERNEL_V_ADDR_PFX :: usize where
  "KERNEL_V_ADDR_PFX = 0xffff800000000000"

definition addr_add :: "usize \<Rightarrow> usize \<Rightarrow> (usize, 'e) run" where
  "addr_add a v = add_ck a v"

definition addr_sub :: "usize \<Rightarrow> usize \<Rightarrow> (usize, 'e) run" where
  "addr_sub a b = sub_ck a b"

definition addr_bit_and :: "usize \<Rightarrow> usize \<Rightarrow> usize" where
  "addr_bit_and a v = a AND v"

definition phys_to_kva :: "PhysAddr \<Rightarrow> KernelVAddress" where
  "phys_to_kva p = p OR KERNEL_V_ADDR_PFX"

definition kva_to_phys :: "KernelVAddress \<Rightarrow> PhysAddr" where
  "kva_to_phys v = v AND NOT KERNEL_V_ADDR_PFX"

text \<open>\<open>get_vpn\<close> is called with the indices 0 to 3 of the four table levels.\<close>

definition get_vpn :: "VirtAddr \<Rightarrow> nat \<Rightarrow> usize" where
  "get_vpn a idx = drop_bit (12 + idx * 9) a AND 0x1ff"

lemma KERNEL_V_ADDR_PFX_alt: "KERNEL_V_ADDR_PFX = NOT (mask 47)"
  by (simp add: KERNEL_V_ADDR_PFX_def mask_eq_exp_minus_1)

lemma kva_to_phys_mask: "kva_to_phys v = take_bit 47 v"
  by (simp add: kva_to_phys_def KERNEL_V_ADDR_PFX_alt take_bit_eq_mask)

lemma get_vpn_take_bit: "get_vpn a i = take_bit 9 (drop_bit (12 + i * 9) a)"
proof -
  have "(0x1ff::usize) = mask 9" by (simp add: mask_eq_exp_minus_1)
  then show ?thesis by (simp add: get_vpn_def take_bit_eq_mask)
qed

lemma get_vpn_less: "unat (get_vpn a i) < 512"
proof -
  have "unat (get_vpn a i) = unat (drop_bit (12 + i * 9) a) mod 2 ^ 9"
    unfolding get_vpn_take_bit take_bit_eq_mask by (rule and_mask_unat)
  then show ?thesis by simp
qed

text \<open>
  The physical view of a kernel virtual address is exact in both directions: on
  physical addresses below 2^47, and on kernel virtual addresses that carry the
  prefix.
\<close>

lemma kva_to_phys_to_kva: "kva_to_phys (phys_to_kva p) = take_bit 47 p"
  unfolding kva_to_phys_mask phys_to_kva_def KERNEL_V_ADDR_PFX_alt
  by (rule bit_word_eqI) (auto simp: bit_simps)

lemma phys_below_take_bit: "unat p < 2 ^ 47 \<Longrightarrow> take_bit 47 (p::usize) = p"
  by (simp add: word_unat_eq_iff unsigned_take_bit_eq take_bit_nat_eq_self)

lemma phys_kva_id [simp]: "unat p < 2 ^ 47 \<Longrightarrow> kva_to_phys (phys_to_kva p) = p"
  by (simp add: kva_to_phys_to_kva phys_below_take_bit)

lemma kva_phys_id: "v AND KERNEL_V_ADDR_PFX = KERNEL_V_ADDR_PFX \<Longrightarrow> phys_to_kva (kva_to_phys v) = v"
  unfolding phys_to_kva_def kva_to_phys_def
  by (metis or.commute bit.disj_conj_distrib2 bit.disj_cancel_left or.right_neutral bit.conj_one_right word_ao_absorbs(2) word_bw_comms(1))

lemma unat_phys_to_kva: "unat p < 2 ^ 47 \<Longrightarrow> unat (phys_to_kva p) = unat p + unat KERNEL_V_ADDR_PFX"
proof -
  assume "unat p < 2 ^ 47"
  then have "take_bit 47 p = p" by (rule phys_below_take_bit)
  then have "p AND KERNEL_V_ADDR_PFX = 0"
    unfolding KERNEL_V_ADDR_PFX_alt by (metis bit.conj_cancel_right bit.conj_zero_right take_bit_eq_mask word_bw_assocs(1))
  then show ?thesis by (simp add: phys_to_kva_def or_disjoint_unat)
qed

interpretation kva_codec: codec phys_to_kva "\<lambda>v. Some (kva_to_phys v)" "\<lambda>p. unat p < 2 ^ 47"
  by unfold_locales simp

text \<open>Two user addresses with the same four table indices lie in the same page.\<close>

lemma get_vpn_page:
  assumes "\<And>i. i < 4 \<Longrightarrow> get_vpn a i = get_vpn b i"
  shows "drop_bit 12 (take_bit 48 a) = drop_bit 12 (take_bit 48 b)"
proof (rule bit_word_eqI)
  fix n
  have eq: "bit (take_bit 9 (drop_bit (12 + i * 9) a)) m = bit (take_bit 9 (drop_bit (12 + i * 9) b)) m"
    if "i < 4" for i m
    using assms [OF that] by (simp add: get_vpn_take_bit)
  show "bit (drop_bit 12 (take_bit 48 a)) n = bit (drop_bit 12 (take_bit 48 b)) n"
  proof (cases "n < 36")
    case True
    then have "n div 9 < 4" by simp
    then have "bit (take_bit 9 (drop_bit (12 + (n div 9) * 9) a)) (n mod 9)
             = bit (take_bit 9 (drop_bit (12 + (n div 9) * 9) b)) (n mod 9)"
      by (rule eq)
    then show ?thesis
      using True by (simp add: bit_simps ac_simps)
  next
    case False
    then show ?thesis by (simp add: bit_simps)
  qed
qed

end
