(* ===== verification/Cap_Data.thy ===== *)
theory Cap_Data
  imports Address
begin

text \<open>
  Capabilities (\<^verbatim>\<open>kernel/src/capability.rs\<close> and the bit fields that
  \<^verbatim>\<open>kernel/src/capability/*.rs\<close> keep in \<open>cap_dep_val\<close>). A capability is two
  machine words: type, rights and the 48 bit address of its object, and a word
  whose meaning depends on the type. The Rust type parameter of
  \<open>CapabilityData<K>\<close> is a phantom; the trait \<open>Capability\<close> that selects
  behaviour by \<open>K\<close> is a function of the capability type here.
\<close>

section \<open>Capability data (capability.rs)\<close>

record CapabilityData =
  cap_type :: u8
  cap_right :: u8
  address_top :: u16
  address_bottom :: u32
  cap_dep_val :: u64

definition cap_try_from_u8 :: "u8 \<Rightarrow> CapabilityType kres" where
  "cap_try_from_u8 v = map_err (\<lambda>_. kerr UnknownCapType) (cap_type_try_from v)"

definition get_cap_type :: "CapabilityData \<Rightarrow> CapabilityType kres" where
  "get_cap_type c = cap_try_from_u8 (cap_type c)"

definition cap_replicate :: "CapabilityData \<Rightarrow> CapabilityData" where
  "cap_replicate c =
     \<lparr>cap_type = cap_type c, cap_right = cap_right c, address_top = address_top c,
      address_bottom = address_bottom c, cap_dep_val = cap_dep_val c\<rparr>"

definition set_cap_dep_val :: "CapabilityData \<Rightarrow> usize \<Rightarrow> CapabilityData" where
  "set_cap_dep_val c v = c\<lparr>cap_dep_val := v\<rparr>"

text \<open>
  \<open>try_ref_as::<K>\<close> and \<open>try_ref_mut_as::<K>\<close> return the same capability at the
  type \<open>K\<close>, after a check of the type byte.
\<close>

definition try_ref_as :: "CapabilityType \<Rightarrow> CapabilityData \<Rightarrow> CapabilityData kres" where
  "try_ref_as k c =
     bind_run (get_cap_type c) (\<lambda>t.
     bind_run (ensure (k = t) (kerr UnexpectedCapType)) (\<lambda>_.
     Ok c))"

definition get_address :: "CapabilityData \<Rightarrow> PhysAddr" where
  "get_address c = push_bit 32 (ucast (address_top c)) OR ucast (address_bottom c)"

definition set_address :: "CapabilityData \<Rightarrow> PhysAddr \<Rightarrow> CapabilityData" where
  "set_address c a =
     c\<lparr>address_top := ucast (drop_bit 32 a AND 0xffff),
       address_bottom := ucast (a AND 0xffffffff)\<rparr>"

definition cap_new :: "CapabilityType \<Rightarrow> PhysAddr \<Rightarrow> u64 \<Rightarrow> CapabilityData" where
  "cap_new k a d =
     set_address \<lparr>cap_type = cap_type_u8 k, cap_right = 0, address_top = 0,
       address_bottom = 0, cap_dep_val = d\<rparr> a"

text \<open>\<open>usize::ilog2\<close>, the index of the highest set bit; it panics on zero.\<close>

fun ilog2_nat :: "nat \<Rightarrow> nat" where
  "ilog2_nat n = (if n \<le> 1 then 0 else Suc (ilog2_nat (n div 2)))"

declare ilog2_nat.simps [simp del]

definition ilog2 :: "usize \<Rightarrow> (nat, 'e) run" where
  "ilog2 w = (if w = 0 then Panic ArithOverflow else Ok (ilog2_nat (unat w)))"

text \<open>The methods of the trait \<open>Capability\<close>, by capability type.\<close>

fun create_cap_dep_val :: "CapabilityType \<Rightarrow> KernelVAddress \<Rightarrow> usize \<Rightarrow> (usize, 'e) run" where
  "create_cap_dep_val Untyped addr user_size =
     bind_run (ilog2 user_size) (\<lambda>lg.
     Ok (push_bit 16 (kva_to_phys addr) OR push_bit 6 0 OR of_nat lg))"
| "create_cap_dep_val CNode addr user_size = Ok user_size"
| "create_cap_dep_val _ addr user_size = Ok 0"

definition can_be_retyped_from_device_memory :: "CapabilityType \<Rightarrow> bool" where
  "can_be_retyped_from_device_memory k \<longleftrightarrow> k = Untyped"

definition cap_init :: "CapabilityType \<Rightarrow> KernelVAddress \<Rightarrow> usize \<Rightarrow> (CapabilityData, 'e) run" where
  "cap_init k addr user_size =
     bind_run (create_cap_dep_val k addr user_size) (\<lambda>d.
     Ok (cap_new k (kva_to_phys addr) d))"

section \<open>Fields of an untyped capability (capability/untyped.rs)\<close>

definition get_free_index :: "CapabilityData \<Rightarrow> KernelVAddress" where
  "get_free_index c = phys_to_kva (drop_bit 16 (cap_dep_val c))"

definition is_device :: "CapabilityData \<Rightarrow> bool" where
  "is_device c \<longleftrightarrow> drop_bit 6 (cap_dep_val c) AND 1 = 1"

definition block_size :: "CapabilityData \<Rightarrow> usize" where
  "block_size c = 2 ^ unat (cap_dep_val c AND 0x3f)"

definition mark_is_device :: "CapabilityData \<Rightarrow> CapabilityData" where
  "mark_is_device c = c\<lparr>cap_dep_val := cap_dep_val c AND 0x3f\<rparr>"

definition get_free_bytes :: "CapabilityData \<Rightarrow> (usize, 'e) run" where
  "get_free_bytes c =
     bind_run (addr_add (phys_to_kva (get_address c)) (block_size c)) (\<lambda>end_address.
     addr_sub end_address (get_free_index c))"

section \<open>Fields of page and page table capabilities (capability/page_table.rs)\<close>

definition cap_set_mapped :: "CapabilityData \<Rightarrow> VirtAddr \<Rightarrow> CapabilityData" where
  "cap_set_mapped c v =
     c\<lparr>cap_dep_val := cap_dep_val c OR (push_bit 48 1 OR (v AND 0xffffffffffff))\<rparr>"

definition cap_is_mapped :: "CapabilityData \<Rightarrow> bool" where
  "cap_is_mapped c \<longleftrightarrow> drop_bit 48 (cap_dep_val c) AND 1 = 1"

definition cap_is_root :: "CapabilityData \<Rightarrow> bool" where
  "cap_is_root c \<longleftrightarrow> drop_bit 49 (cap_dep_val c) AND 1 = 1"

definition cap_set_root :: "CapabilityData \<Rightarrow> CapabilityData" where
  "cap_set_root c = c\<lparr>cap_dep_val := cap_dep_val c OR push_bit 49 1\<rparr>"

definition cap_set_unmapped :: "CapabilityData \<Rightarrow> CapabilityData" where
  "cap_set_unmapped c = c\<lparr>cap_dep_val := 0\<rparr>"

definition get_mapped_address :: "CapabilityData \<Rightarrow> VirtAddr" where
  "get_mapped_address c = cap_dep_val c AND NOT (push_bit 48 0xffff)"

section \<open>Fields of CNode, endpoint and notification capabilities\<close>

definition radix :: "CapabilityData \<Rightarrow> u32" where
  "radix c = ucast (cap_dep_val c)"

definition get_badge :: "CapabilityData \<Rightarrow> u64" where
  "get_badge c = cap_dep_val c"

section \<open>Deriving a capability (object/cnode.rs and the derive methods)\<close>

text \<open>
  A thread or untyped capability keeps the default of the trait, which refuses. A
  copy of an endpoint or notification capability loses its badge, a copy of a
  page capability its mapping, and CNode and page table capabilities are copied
  whole.
\<close>

fun derive_as :: "CapabilityType \<Rightarrow> CapabilityData \<Rightarrow> CapabilityData kres" where
  "derive_as Tcb c = Err (kerr CanNotDerivable)"
| "derive_as Untyped c = Err (kerr CanNotDerivable)"
| "derive_as CNode c = Ok c"
| "derive_as Notification c = Ok ((cap_replicate c)\<lparr>cap_dep_val := 0\<rparr>)"
| "derive_as EndPoint c = Ok ((cap_replicate c)\<lparr>cap_dep_val := 0\<rparr>)"
| "derive_as Page c =
     bind_run (ensure (cap_is_mapped c) (kerr PageTableNotMappedYet)) (\<lambda>_.
     Ok ((cap_replicate c)\<lparr>cap_dep_val := 0\<rparr>))"
| "derive_as PageTable c = Ok (cap_replicate c)"

definition derive :: "CapabilityData \<Rightarrow> CapabilityData kres" where
  "derive c = bind_run (get_cap_type c) (\<lambda>k. derive_as k c)"

section \<open>Facts\<close>

lemma cap_replicate_id [simp]: "cap_replicate c = c"
  by (simp add: cap_replicate_def)

lemma get_cap_type_Ok: "get_cap_type c = Ok k \<longleftrightarrow> cap_type c = cap_type_u8 k"
  using cap_type.dec_Some_iff [of "cap_type c" k]
  by (auto simp: get_cap_type_def cap_try_from_u8_def)

lemma try_ref_as_Ok: "try_ref_as k c = Ok c' \<longleftrightarrow> c' = c \<and> cap_type c = cap_type_u8 k"
  by (auto simp: try_ref_as_def get_cap_type_Ok)

lemma cap_type_u8_nonzero: "cap_type_u8 k \<noteq> 0"
  by (cases k) simp_all

lemma set_address_fields [simp]:
  "cap_type (set_address c a) = cap_type c"
  "cap_right (set_address c a) = cap_right c"
  "cap_dep_val (set_address c a) = cap_dep_val c"
  by (simp_all add: set_address_def)

lemma cap_new_fields [simp]:
  "cap_type (cap_new k a d) = cap_type_u8 k"
  "cap_dep_val (cap_new k a d) = d"
  by (simp_all add: cap_new_def)

text \<open>The address of the object is kept in 48 bits.\<close>

lemma get_set_address: "get_address (set_address c a) = take_bit 48 a"
proof -
  have m: "(0xffff::usize) = mask 16" "(0xffffffff::usize) = mask 32"
    by (simp_all add: mask_eq_exp_minus_1)
  have top: "address_top (set_address c a) = ucast (take_bit 16 (drop_bit 32 a))"
    and bot: "address_bottom (set_address c a) = ucast (take_bit 32 a)"
    by (simp_all add: set_address_def m take_bit_eq_mask)
  show ?thesis
    unfolding get_address_def top bot
    by (rule bit_word_eqI) (auto simp: bit_simps)
qed

lemma get_set_address_id: "unat a < 2 ^ 48 \<Longrightarrow> get_address (set_address c a) = a"
  by (simp add: get_set_address word_unat_eq_iff unsigned_take_bit_eq take_bit_nat_eq_self)

lemma get_address_new: "unat a < 2 ^ 48 \<Longrightarrow> get_address (cap_new k a d) = a"
  by (simp add: cap_new_def get_set_address_id)

lemma get_address_update [simp]:
  "get_address (c\<lparr>cap_dep_val := d\<rparr>) = get_address c"
  by (simp add: get_address_def)

interpretation cap_addr: codec "set_address c" "\<lambda>c. Some (get_address c)" "\<lambda>a. unat a < 2 ^ 48" for c
  by unfold_locales (simp add: get_set_address_id)

lemma get_address_less: "unat (get_address c) < 2 ^ 48"
proof -
  have "take_bit 48 (get_address c) = get_address c"
    unfolding get_address_def
    by (rule bit_word_eqI) (auto simp: bit_simps dest: bit_imp_le_length)
  then show ?thesis
    by (metis take_bit_nat_less_exp unsigned_take_bit_eq)
qed

lemma ilog2_nat_bounds: "0 < n \<Longrightarrow> 2 ^ ilog2_nat n \<le> n \<and> n < 2 ^ Suc (ilog2_nat n)"
proof (induction n rule: ilog2_nat.induct)
  case (1 n)
  show ?case
  proof (cases "n \<le> 1")
    case True
    with "1.prems" show ?thesis by (simp add: ilog2_nat.simps)
  next
    case False
    define p :: nat where "p = 2 ^ ilog2_nat (n div 2)"
    have "p \<le> n div 2 \<and> n div 2 < 2 * p"
      using "1.IH" False by (simp add: p_def)
    then have "2 * p \<le> n \<and> n < 2 * (2 * p)" by auto
    with False show ?thesis by (simp add: ilog2_nat.simps [of n] p_def)
  qed
qed

lemma ilog2_nat_exp [simp]: "ilog2_nat (2 ^ k) = k"
proof -
  have "2 ^ ilog2_nat (2 ^ k) \<le> (2::nat) ^ k" "(2::nat) ^ k < 2 ^ Suc (ilog2_nat (2 ^ k))"
    using ilog2_nat_bounds [of "2 ^ k"] by simp_all
  then have "ilog2_nat (2 ^ k) \<le> k" and "k < Suc (ilog2_nat (2 ^ k))"
    by (simp, metis one_less_numeral_iff power_less_imp_less_exp semiring_norm(76))
  then show ?thesis by simp
qed

lemma ilog2_nat_less: "unat (w::usize) \<noteq> 0 \<Longrightarrow> ilog2_nat (unat w) < 64"
proof -
  assume "unat w \<noteq> 0"
  then have "2 ^ ilog2_nat (unat w) \<le> unat w" using ilog2_nat_bounds by blast
  also have "unat w < 2 ^ 64" using unat_less_exp [of w] by simp
  finally show ?thesis by (rule power_less_imp_less_exp [rotated]) simp
qed

text \<open>
  The untyped word packs the free index, the device bit and the size: reading the
  fields back gives what was packed.
\<close>

lemma untyped_dep_val_fields:
  assumes "create_cap_dep_val Untyped addr sz = Ok d"
  shows "unat (d AND 0x3f) = ilog2_nat (unat sz)"
    and "drop_bit 6 d AND 1 = 0"
    and "drop_bit 16 d = kva_to_phys addr"
proof -
  define lg where "lg = ilog2_nat (unat sz)"
  have nz: "unat sz \<noteq> 0" and d: "d = push_bit 16 (kva_to_phys addr) OR of_nat lg"
    using assms by (auto simp: ilog2_def lg_def unsigned_eq_0_iff split: if_splits)
  have lt: "lg < 64" unfolding lg_def using nz by (rule ilog2_nat_less)
  have m: "(0x3f::usize) = mask 6" by (simp add: mask_eq_exp_minus_1)
  have "take_bit 6 lg = lg" using lt by (simp add: take_bit_nat_eq_self)
  then have bitlg: "n < 6" if "bit lg n" for n
    using that by (metis bit_take_bit_iff)
  have "d AND mask 6 = of_nat lg"
    unfolding d by (intro bit_word_eqI) (auto simp: bit_simps dest: bitlg)
  then show "unat (d AND 0x3f) = ilog2_nat (unat sz)"
    using lt by (simp add: m unat_of_nat lg_def)
  show "drop_bit 6 d AND 1 = 0"
    unfolding d by (rule bit_word_eqI) (auto simp: bit_simps dest: bitlg)
  show "drop_bit 16 d = kva_to_phys addr"
    unfolding d kva_to_phys_mask by (rule bit_word_eqI) (auto simp: bit_simps dest: bitlg)
qed

lemma block_size_unat: "unat (block_size c) = 2 ^ unat (cap_dep_val c AND 0x3f)"
proof -
  have "unat (cap_dep_val c AND 0x3f) \<le> unat (0x3f::usize)"
    using word_and_le1 [of "cap_dep_val c" "0x3f"] by (simp add: word_le_nat_alt)
  then have "unat (cap_dep_val c AND 0x3f) < 64" by simp
  then show ?thesis by (simp add: block_size_def unat_pow2)
qed

end
