(* ===== verification/Linked_List.thy ===== *)
theory Linked_List
  imports Interfaces
begin

text \<open>
  The intrusive singly linked list of \<^verbatim>\<open>kernel/src/list.rs\<close>. An item lives at an
  address and holds its own link; a list header holds the addresses of its first
  and last item. The memory of items is a function from addresses to items, so
  two lists and the code that holds a reference to an item all see the same
  link. This is the queue of the scheduler, of an endpoint and of a notification.
\<close>

section \<open>Items and headers\<close>

record 'a ListItem =
  item_value :: 'a
  item_next :: "usize option"

record LinkedList =
  ll_head :: "usize option"
  ll_last :: "usize option"

type_synonym 'a items = "usize \<Rightarrow> 'a ListItem"

definition ListItem_new :: "'a \<Rightarrow> 'a ListItem" where
  "ListItem_new v = \<lparr>item_value = v, item_next = None\<rparr>"

definition next_is_none :: "'a ListItem \<Rightarrow> bool" where
  "next_is_none i \<longleftrightarrow> item_next i = None"

definition ll_new :: LinkedList where
  "ll_new = \<lparr>ll_head = None, ll_last = None\<rparr>"

definition ll_push :: "'a items \<Rightarrow> LinkedList \<Rightarrow> usize \<Rightarrow> 'a items \<times> LinkedList" where
  "ll_push h l p =
     (case ll_last l of
        Some prev_last \<Rightarrow>
          (h(prev_last := (h prev_last)\<lparr>item_next := Some p\<rparr>), l\<lparr>ll_last := Some p\<rparr>)
      | None \<Rightarrow> (h, l\<lparr>ll_last := Some p, ll_head := Some p\<rparr>))"

definition ll_is_empty :: "LinkedList \<Rightarrow> bool" where
  "ll_is_empty l \<longleftrightarrow> ll_head l = None"

definition ll_pop :: "'a items \<Rightarrow> LinkedList \<Rightarrow> usize option \<times> LinkedList" where
  "ll_pop h l =
     (let result = ll_head l;
          next = (case result of None \<Rightarrow> None | Some ptr \<Rightarrow> item_next (h ptr));
          l' = (if next = None then l\<lparr>ll_last := None\<rparr> else l)
      in (result, l'\<lparr>ll_head := next\<rparr>))"

section \<open>The sequence a header stands for\<close>

fun linked :: "'a items \<Rightarrow> usize option \<Rightarrow> usize list \<Rightarrow> bool" where
  "linked h p [] \<longleftrightarrow> p = None"
| "linked h p (x # xs) \<longleftrightarrow> p = Some x \<and> linked h (item_next (h x)) xs"

definition list_rep :: "'a items \<Rightarrow> LinkedList \<Rightarrow> usize list \<Rightarrow> bool" where
  "list_rep h l xs \<longleftrightarrow>
     linked h (ll_head l) xs \<and> distinct xs \<and> ll_last l = (if xs = [] then None else Some (last xs))"

definition loose :: "'a items \<Rightarrow> usize \<Rightarrow> bool" where
  "loose h a \<longleftrightarrow> next_is_none (h a)"

lemma linked_cong: "(\<And>x. x \<in> set xs \<Longrightarrow> item_next (h x) = item_next (g x)) \<Longrightarrow> linked h p xs = linked g p xs"
  by (induction xs arbitrary: p) auto

lemma linked_snoc:
  assumes "linked h p (xs @ [y])" and "distinct (xs @ [y])"
    and "a \<notin> set (xs @ [y])" and "item_next (h a) = None"
  shows "linked (h(y := (h y)\<lparr>item_next := Some a\<rparr>)) p (xs @ [y, a])"
  using assms by (induction xs arbitrary: p) auto

lemma linked_unique: "linked h p xs \<Longrightarrow> linked h p ys \<Longrightarrow> xs = ys"
proof (induction xs arbitrary: p ys)
  case Nil
  then show ?case by (cases ys) auto
next
  case (Cons x xs)
  then show ?case by (cases ys) auto
qed

text \<open>The header determines the sequence.\<close>

lemma list_rep_unique: "list_rep h l xs \<Longrightarrow> list_rep h l ys \<Longrightarrow> xs = ys"
  by (auto simp: list_rep_def dest: linked_unique)

lemma list_rep_cong:
  "(\<And>x. x \<in> set xs \<Longrightarrow> item_next (h x) = item_next (g x)) \<Longrightarrow> list_rep h l xs = list_rep g l xs"
  by (auto simp: list_rep_def linked_cong [of xs h g])

lemma list_rep_ll_new [simp]: "list_rep h ll_new []"
  by (simp add: list_rep_def ll_new_def)

lemma list_rep_Nil: "list_rep h l [] \<longleftrightarrow> l = ll_new"
  by (auto simp: list_rep_def ll_new_def)

lemma list_rep_push:
  assumes "list_rep h l xs" and "loose h a" and "a \<notin> set xs"
  shows "list_rep (fst (ll_push h l a)) (snd (ll_push h l a)) (xs @ [a])"
proof (cases xs rule: rev_cases)
  case Nil
  with assms show ?thesis
    by (auto simp: list_rep_def ll_push_def loose_def next_is_none_def)
next
  case (snoc ys y)
  with assms have last: "ll_last l = Some y" and "linked h (ll_head l) (ys @ [y])"
    and "distinct (ys @ [y])" and "a \<notin> set (ys @ [y])" and "item_next (h a) = None"
    by (auto simp: list_rep_def loose_def next_is_none_def)
  then have "linked (h(y := (h y)\<lparr>item_next := Some a\<rparr>)) (ll_head l) (ys @ [y, a])"
    by (intro linked_snoc)
  then show ?thesis
    using last snoc assms by (auto simp: list_rep_def ll_push_def)
qed

lemma list_rep_pop:
  assumes "list_rep h l (x # xs)"
  shows "fst (ll_pop h l) = Some x" and "list_rep h (snd (ll_pop h l)) xs"
  using assms by (auto simp: list_rep_def ll_pop_def Let_def) (cases xs; auto)+

lemma list_rep_pop_empty: "list_rep h l [] \<Longrightarrow> ll_pop h l = (None, ll_new)"
  by (auto simp: list_rep_Nil ll_pop_def ll_new_def)

lemma list_rep_is_empty: "list_rep h l xs \<Longrightarrow> ll_is_empty l \<longleftrightarrow> xs = []"
  by (cases xs) (auto simp: list_rep_def ll_is_empty_def)

lemma loose_ll_push:
  "list_rep h l xs \<Longrightarrow> b \<notin> set xs \<Longrightarrow> loose (fst (ll_push h l a)) b = loose h b"
  by (cases xs rule: rev_cases) (auto simp: list_rep_def ll_push_def loose_def next_is_none_def)

lemma list_rep_single_loose: "list_rep h l [x] \<Longrightarrow> loose h x"
  by (simp add: list_rep_def loose_def next_is_none_def)

lemma ll_push_value [simp]: "item_value (fst (ll_push h l a) b) = item_value (h b)"
  by (simp add: ll_push_def split: option.splits)

interpretation ll: fifo_queue list_rep loose ll_new ll_push ll_pop ll_is_empty
  by unfold_locales
    (auto intro: list_rep_push list_rep_pop list_rep_single_loose
      simp: loose_ll_push list_rep_pop_empty list_rep_is_empty)

section \<open>What a pop leaves behind\<close>

text \<open>
  \<open>pop\<close> does not clear the link of the item it returns. The item that was first
  of a list of two or more therefore still points into the list.
\<close>

lemma popped_item_not_loose:
  assumes "list_rep h l (x # y # ys)"
  shows "item_next (h x) = Some y" and "\<not> loose h x"
  using assms by (auto simp: list_rep_def loose_def next_is_none_def)

end
