(* ===== verification/Kernel_State.thy ===== *)
theory Kernel_State
  imports Cap_Data Linked_List
begin

text \<open>
  The state of the kernel. The Rust code reaches every kernel object through a
  raw address, so the state is a memory: one function from addresses to contents
  for each kind of object (thread control blocks, capability slots, page table
  entries, endpoints, notifications, IPC buffers, bytes of user pages). Objects
  of different kinds never overlap in this model. The statics of
  \<^verbatim>\<open>scheduler.rs\<close> and the control registers the code writes are fields of the
  same record. Addresses are kernel virtual addresses.
\<close>

section \<open>Kernel objects\<close>

text \<open>
  \<open>ManagementDB([usize; 2])\<close>: word 0 holds the previous and word 1 the next
  entry of the derivation list, each as an address in the upper 48 bits.
\<close>

record ManagementDB =
  mdb_prev :: usize
  mdb_next :: usize

record CNodeEntry =
  ent_cap :: CapabilityData
  ent_mdb :: ManagementDB

type_synonym CSlot = "CNodeEntry option"

datatype ThreadState = Inactive | Runnable | Blocked | Idle

record ThreadInfo =
  status :: ThreadState
  time_slice :: usize
  root_cnode :: CSlot
  vspace :: CSlot
  registers :: Registers
  ipc_buffer :: CSlot
  badge :: usize
  tid :: usize

type_synonym ThreadControlBlock = "ThreadInfo ListItem"

datatype EndpointState = EpStSend | EpStRecv | EpStIdel

record Endpoint =
  ep_state :: EndpointState
  ep_queue :: LinkedList

record Notification =
  notify_bit :: u64
  wait_queue :: LinkedList
  bit_is_set :: bool

section \<open>The linked image\<close>

text \<open>
  What the compiler and the linker choose and the code relies on: sizes of the
  objects with the default \<open>get_object_size\<close>, addresses of the statics, of
  functions and of section symbols, and the stack addresses of the three local
  variables whose address the code stores in the derivation list: \<open>new_slot\<close> in
  \<open>handle_invocation\<close>, \<open>entry\<close> in \<open>CNode::insert_cap\<close>, and \<open>new_entry\<close> in
  the thread setters.
\<close>

record Image =
  img_size_of :: "CapabilityType \<Rightarrow> usize"
  img_idle_thread :: usize
  img_vm_root :: usize
  img_lv2table :: usize
  img_text :: usize
  img_data_end :: usize
  img_stack_top :: usize
  img_idle_fn :: usize
  img_cpu_var :: usize
  img_trap_entry :: usize
  img_new_slot :: usize
  img_entry :: usize
  img_new_entry :: usize

section \<open>The state\<close>

record kstate =
  ks_tcb :: "ThreadInfo items"
  ks_cap :: "usize \<Rightarrow> CapabilityData option"
  ks_mdb :: "usize \<Rightarrow> ManagementDB"
  ks_pte :: "usize \<Rightarrow> usize"
  ks_ep :: "usize \<Rightarrow> Endpoint"
  ks_ntfn :: "usize \<Rightarrow> Notification"
  ks_buf :: "usize \<Rightarrow> IPCBuffer"
  ks_byte :: "usize \<Rightarrow> u8"
  ks_runqueue :: LinkedList
  ks_requested :: bool
  ks_current :: usize
  ks_cur_reg_base :: usize
  ks_sptop :: usize
  ks_satp :: usize
  ks_console :: "u8 list"
  ks_mtimecmp :: usize
  ks_tcbidx :: usize

type_synonym 'a kprog = "(kstate, 'a, KernelError) prog"

definition empty_mdb :: ManagementDB where
  "empty_mdb = \<lparr>mdb_prev = 0, mdb_next = 0\<rparr>"

text \<open>
  A slot of a CNode is an \<open>Option<CNodeEntry>\<close> of the same size as the entry:
  \<open>None\<close> is a zero type byte, so the derivation words of a slot exist whether or
  not the slot holds a capability.
\<close>

definition slot_at :: "kstate \<Rightarrow> usize \<Rightarrow> CSlot" where
  "slot_at s a = (case ks_cap s a of None \<Rightarrow> None | Some c \<Rightarrow> Some \<lparr>ent_cap = c, ent_mdb = ks_mdb s a\<rparr>)"

definition write_entry :: "usize \<Rightarrow> CNodeEntry \<Rightarrow> kstate \<Rightarrow> kstate" where
  "write_entry a e s =
     s\<lparr>ks_cap := (ks_cap s)(a := Some (ent_cap e)), ks_mdb := (ks_mdb s)(a := ent_mdb e)\<rparr>"

definition write_none :: "usize \<Rightarrow> kstate \<Rightarrow> kstate" where
  "write_none a s = s\<lparr>ks_cap := (ks_cap s)(a := None)\<rparr>"

definition write_cap :: "usize \<Rightarrow> CapabilityData \<Rightarrow> kstate \<Rightarrow> kstate" where
  "write_cap a c s = s\<lparr>ks_cap := (ks_cap s)(a := Some c)\<rparr>"

definition new_with_rawcap :: "CapabilityData \<Rightarrow> CNodeEntry" where
  "new_with_rawcap c = \<lparr>ent_cap = c, ent_mdb = empty_mdb\<rparr>"

definition thread :: "kstate \<Rightarrow> usize \<Rightarrow> ThreadInfo" where
  "thread s t = item_value (ks_tcb s t)"

definition update_thread :: "usize \<Rightarrow> (ThreadInfo \<Rightarrow> ThreadInfo) \<Rightarrow> kstate \<Rightarrow> kstate" where
  "update_thread t f s =
     s\<lparr>ks_tcb := (ks_tcb s)(t := (ks_tcb s t)\<lparr>item_value := f (thread s t)\<rparr>)\<rparr>"

definition update_registers :: "usize \<Rightarrow> (Registers \<Rightarrow> Registers) \<Rightarrow> kstate \<Rightarrow> kstate" where
  "update_registers t f = update_thread t (\<lambda>i. i\<lparr>registers := f (registers i)\<rparr>)"

lemma thread_update_same [simp]: "thread (update_thread t f s) t = f (thread s t)"
  by (simp add: thread_def update_thread_def)

lemma thread_update_other [simp]: "u \<noteq> t \<Longrightarrow> thread (update_thread t f s) u = thread s u"
  by (simp add: thread_def update_thread_def)

lemma thread_update: "thread (update_thread t f s) u = (if u = t then f (thread s t) else thread s u)"
  by simp

lemma item_next_update_thread [simp]:
  "item_next (ks_tcb (update_thread t f s) u) = item_next (ks_tcb s u)"
  by (simp add: update_thread_def)

lemma loose_update_thread [simp]: "loose (ks_tcb (update_thread t f s)) u = loose (ks_tcb s) u"
  by (simp add: loose_def next_is_none_def)

lemma list_rep_update_thread [simp]:
  "list_rep (ks_tcb (update_thread t f s)) l xs = list_rep (ks_tcb s) l xs"
  by (rule list_rep_cong) simp

lemma update_thread_frame [simp]:
  "ks_cap (update_thread t f s) = ks_cap s"
  "ks_mdb (update_thread t f s) = ks_mdb s"
  "ks_pte (update_thread t f s) = ks_pte s"
  "ks_ep (update_thread t f s) = ks_ep s"
  "ks_ntfn (update_thread t f s) = ks_ntfn s"
  "ks_buf (update_thread t f s) = ks_buf s"
  "ks_byte (update_thread t f s) = ks_byte s"
  "ks_runqueue (update_thread t f s) = ks_runqueue s"
  "ks_requested (update_thread t f s) = ks_requested s"
  "ks_current (update_thread t f s) = ks_current s"
  "ks_cur_reg_base (update_thread t f s) = ks_cur_reg_base s"
  "ks_satp (update_thread t f s) = ks_satp s"
  "ks_console (update_thread t f s) = ks_console s"
  by (simp_all add: update_thread_def)

lemma slot_at_write_entry [simp]:
  "slot_at (write_entry a e s) b = (if b = a then Some e else slot_at s b)"
  by (simp add: slot_at_def write_entry_def split: option.splits)

end
