(* ===== verification/Mdb.thy ===== *)
theory Mdb
  imports Kernel_State
begin

text \<open>
  The management database (\<^verbatim>\<open>kernel/src/object/cnode.rs\<close>): every capability
  entry is a node of a doubly linked list that records from which entry it was
  derived. The links are addresses packed into the upper 48 bits of a word;
  reading one back sets the kernel prefix again. An entry is named by its
  address, so the operations below take the addresses of the entries and update
  the memory of links.
\<close>

section \<open>Links\<close>

definition mdb_word :: "kstate \<Rightarrow> usize \<Rightarrow> bool \<Rightarrow> usize" where
  "mdb_word s a is_next = (if is_next then mdb_next (ks_mdb s a) else mdb_prev (ks_mdb s a))"

definition get_node :: "kstate \<Rightarrow> usize \<Rightarrow> bool \<Rightarrow> usize option" where
  "get_node s a is_next =
     (let address = drop_bit 16 (mdb_word s a is_next)
      in if address = 0 then None else Some (phys_to_kva address))"

definition set_node1 :: "usize \<Rightarrow> bool \<Rightarrow> usize \<Rightarrow> kstate \<Rightarrow> kstate" where
  "set_node1 a is_next node s =
     (let w = mdb_word s a is_next;
          w1 = w AND 0xffff;
          w2 = w1 OR push_bit 16 node;
          m = ks_mdb s a
      in s\<lparr>ks_mdb := (ks_mdb s)(a := (if is_next then m\<lparr>mdb_next := w2\<rparr> else m\<lparr>mdb_prev := w2\<rparr>))\<rparr>)"

definition set_node :: "usize \<Rightarrow> usize \<Rightarrow> bool \<Rightarrow> kstate \<Rightarrow> kstate" where
  "set_node a node is_next s = set_node1 node (\<not> is_next) a (set_node1 a is_next node s)"

definition get_next :: "kstate \<Rightarrow> usize \<Rightarrow> usize option" where
  "get_next s a = get_node s a True"

definition get_prev :: "kstate \<Rightarrow> usize \<Rightarrow> usize option" where
  "get_prev s a = get_node s a False"

definition set_next :: "usize \<Rightarrow> usize \<Rightarrow> kstate \<Rightarrow> kstate" where
  "set_next a node s = set_node a node True s"

definition set_prev :: "usize \<Rightarrow> usize \<Rightarrow> kstate \<Rightarrow> kstate" where
  "set_prev a node s = set_node a node False s"

section \<open>Inserting and replacing an entry\<close>

definition mdb_insert :: "usize \<Rightarrow> usize \<Rightarrow> kstate \<Rightarrow> kstate" where
  "mdb_insert self parent s =
     (let s1 = (case get_next s parent of
                  Some prev_next \<Rightarrow> set_next self prev_next s
                | None \<Rightarrow> s)
      in set_next parent self s1)"

definition mdb_replace :: "usize \<Rightarrow> usize \<Rightarrow> kstate \<Rightarrow> kstate" where
  "mdb_replace self src s =
     (let s1 = (case get_next s src of
                  Some src_next \<Rightarrow> set_next self src_next (set_prev src_next self s)
                | None \<Rightarrow> s)
      in case get_prev s1 src of
           Some src_prev \<Rightarrow> set_prev self src_prev (set_next src_prev self s1)
         | None \<Rightarrow> s1)"

text \<open>
  \<open>CNode::insert_cap\<close> builds the entry in a local variable at address \<open>local\<close>,
  links it behind \<open>parent\<close>, and then moves it to slot \<open>index\<close> of the node.
\<close>

definition insert_cap :: "Image \<Rightarrow> usize \<Rightarrow> usize \<Rightarrow> CapabilityData \<Rightarrow> nat \<Rightarrow> kstate \<Rightarrow> kstate" where
  "insert_cap im root parent c index s =
     (let local = img_entry im;
          s1 = write_entry local (new_with_rawcap c) s;
          s2 = (case get_next s1 parent of
                  Some prev_next \<Rightarrow> set_next local prev_next s1
                | None \<Rightarrow> s1);
          s3 = set_next parent local s2
      in case slot_at s3 local of
           Some e \<Rightarrow> write_entry (root + of_nat (32 * index)) e s3
         | None \<Rightarrow> s3)"

section \<open>Links are read back\<close>

definition kernel_addr :: "usize \<Rightarrow> bool" where
  "kernel_addr a \<longleftrightarrow> a AND KERNEL_V_ADDR_PFX = KERNEL_V_ADDR_PFX"

lemma kernel_addr_bits: "kernel_addr a \<longleftrightarrow> (\<forall>n. 47 \<le> n \<and> n < 64 \<longrightarrow> bit a n)"
proof
  assume "kernel_addr a"
  then have *: "\<And>n. bit (a AND NOT (mask 47)) n = bit (NOT (mask 47) :: usize) n"
    by (simp add: kernel_addr_def KERNEL_V_ADDR_PFX_alt)
  show "\<forall>n. 47 \<le> n \<and> n < 64 \<longrightarrow> bit a n"
  proof (intro allI impI)
    fix n :: nat
    assume "47 \<le> n \<and> n < 64"
    then show "bit a n" using * [of n] by (auto simp: bit_simps)
  qed
next
  assume "\<forall>n. 47 \<le> n \<and> n < 64 \<longrightarrow> bit a n"
  then show "kernel_addr a"
    unfolding kernel_addr_def KERNEL_V_ADDR_PFX_alt
    by (intro bit_word_eqI) (auto simp: bit_simps)
qed

definition pack_link :: "usize \<Rightarrow> usize \<Rightarrow> usize" where
  "pack_link w node = (w AND 0xffff) OR push_bit 16 node"

definition read_link :: "usize \<Rightarrow> usize option" where
  "read_link w = (if drop_bit 16 w = 0 then None else Some (phys_to_kva (drop_bit 16 w)))"

lemma drop_bit_pack_link: "drop_bit 16 (pack_link w node) = take_bit 48 node"
proof -
  have m: "(0xffff::usize) = mask 16" by (simp add: mask_eq_exp_minus_1)
  show ?thesis
    unfolding pack_link_def m by (rule bit_word_eqI) (auto simp: bit_simps)
qed

lemma read_pack_link:
  assumes "kernel_addr node"
  shows "read_link (pack_link w node) = Some node"
proof -
  have b: "\<And>n. 47 \<le> n \<Longrightarrow> n < 64 \<Longrightarrow> bit node n"
    using assms by (simp add: kernel_addr_bits)
  have "bit (take_bit 48 node) 47" using b [of 47] by (simp add: bit_simps)
  then have "take_bit 48 node \<noteq> 0" by auto
  moreover have "phys_to_kva (take_bit 48 node) = node"
    unfolding phys_to_kva_def KERNEL_V_ADDR_PFX_alt
    by (rule bit_word_eqI) (auto simp: bit_simps b)
  ultimately show ?thesis by (simp add: read_link_def drop_bit_pack_link)
qed

interpretation mdb_link: codec "pack_link w" read_link kernel_addr for w
  by unfold_locales (rule read_pack_link)

lemma get_node_read: "get_node s a d = read_link (mdb_word s a d)"
  by (simp add: get_node_def read_link_def Let_def)

lemma mdb_word_set_node1 [simp]:
  "mdb_word (set_node1 a d node s) b e =
     (if b = a \<and> e = d then pack_link (mdb_word s a d) node else mdb_word s b e)"
  by (auto simp: set_node1_def mdb_word_def pack_link_def Let_def)

lemma get_node_set_node1 [simp]:
  "kernel_addr node \<Longrightarrow>
   get_node (set_node1 a d node s) b e = (if b = a \<and> e = d then Some node else get_node s b e)"
  by (auto simp: get_node_read read_pack_link)

lemma get_node_set_node [simp]:
  "kernel_addr a \<Longrightarrow> kernel_addr node \<Longrightarrow>
   get_node (set_node a node d s) b e =
     (if b = node \<and> e = (\<not> d) then Some a
      else if b = a \<and> e = d then Some node else get_node s b e)"
  by (simp add: set_node_def)

text \<open>
  The nodes \<open>a\<close> and \<open>b\<close> are neighbours: each names the other.
\<close>

definition mdb_neighbours :: "kstate \<Rightarrow> usize \<Rightarrow> usize \<Rightarrow> bool" where
  "mdb_neighbours s a b \<longleftrightarrow> get_next s a = Some b \<and> get_prev s b = Some a"

lemma kernel_addr_phys_to_kva [simp]: "kernel_addr (phys_to_kva p)"
  unfolding kernel_addr_def phys_to_kva_def by (simp add: word_ao_absorbs)

lemma get_node_kernel_addr: "get_node s a d = Some n \<Longrightarrow> kernel_addr n"
  by (auto simp: get_node_def Let_def split: if_splits)

lemmas mdb_defs = mdb_neighbours_def get_next_def get_prev_def set_next_def set_prev_def

text \<open>
  Inserting a node behind \<open>parent\<close> splices it between \<open>parent\<close> and its former
  successor, and no other link changes.
\<close>

lemma mdb_insert_splices:
  assumes "kernel_addr self" and "kernel_addr parent" and "self \<noteq> parent"
  shows "mdb_neighbours (mdb_insert self parent s) parent self"
    and "get_next s parent = Some n \<Longrightarrow> n \<noteq> self \<Longrightarrow> n \<noteq> parent \<Longrightarrow>
         mdb_neighbours (mdb_insert self parent s) self n"
    and "get_next s parent = None \<Longrightarrow> get_next (mdb_insert self parent s) self = get_next s self"
  using assms
  by (auto simp: mdb_insert_def mdb_defs Let_def dest: get_node_kernel_addr split: option.splits)

lemma mdb_insert_frame:
  assumes "kernel_addr self" and "kernel_addr parent"
    and "b \<noteq> self" and "b \<noteq> parent" and "get_next s parent \<noteq> Some b"
  shows "get_node (mdb_insert self parent s) b e = get_node s b e"
proof (cases "get_next s parent")
  case None
  with assms show ?thesis by (simp add: mdb_insert_def mdb_defs)
next
  case (Some n)
  then have "kernel_addr n" by (simp add: mdb_defs get_node_kernel_addr)
  with Some assms show ?thesis by (simp add: mdb_insert_def mdb_defs)
qed

text \<open>
  Replacing \<open>src\<close> by \<open>self\<close> gives \<open>self\<close> both neighbours of \<open>src\<close>.
\<close>

lemma mdb_replace_splices:
  assumes "kernel_addr self" and "self \<noteq> src"
    and "get_next s src = Some n" and "get_prev s src = Some p"
    and "n \<noteq> self" "n \<noteq> src" "p \<noteq> self" "p \<noteq> src" "n \<noteq> p"
  shows "mdb_neighbours (mdb_replace self src s) p self"
    and "mdb_neighbours (mdb_replace self src s) self n"
proof -
  have k: "kernel_addr n" "kernel_addr p"
    using assms by (auto simp: mdb_defs dest: get_node_kernel_addr)
  show "mdb_neighbours (mdb_replace self src s) p self"
    and "mdb_neighbours (mdb_replace self src s) self n"
    using assms k by (simp_all add: mdb_replace_def mdb_defs Let_def)
qed

lemma set_node1_frame [simp]:
  "ks_cap (set_node1 a d n s) = ks_cap s"
  "ks_tcb (set_node1 a d n s) = ks_tcb s"
  "ks_pte (set_node1 a d n s) = ks_pte s"
  "ks_runqueue (set_node1 a d n s) = ks_runqueue s"
  "ks_current (set_node1 a d n s) = ks_current s"
  "ks_requested (set_node1 a d n s) = ks_requested s"
  "ks_cur_reg_base (set_node1 a d n s) = ks_cur_reg_base s"
  by (simp_all add: set_node1_def Let_def)

lemma set_node_frame [simp]:
  "ks_cap (set_node a n d s) = ks_cap s"
  "ks_tcb (set_node a n d s) = ks_tcb s"
  "ks_pte (set_node a n d s) = ks_pte s"
  "ks_runqueue (set_node a n d s) = ks_runqueue s"
  "ks_current (set_node a n d s) = ks_current s"
  "ks_requested (set_node a n d s) = ks_requested s"
  "ks_cur_reg_base (set_node a n d s) = ks_cur_reg_base s"
  by (simp_all add: set_node_def)

lemma mdb_insert_cap_mem [simp]: "ks_cap (mdb_insert self parent s) = ks_cap s"
  by (simp add: mdb_insert_def set_next_def Let_def split: option.splits)

lemma mdb_replace_cap_mem [simp]: "ks_cap (mdb_replace self src s) = ks_cap s"
  by (simp add: mdb_replace_def set_next_def set_prev_def Let_def split: option.splits)

end
