(* ===== verification/Page_Table.thy ===== *)
theory Page_Table
  imports Mdb
begin

text \<open>
  Page tables and pages: the Sv48 structures of
  \<^verbatim>\<open>kernel/src/object/page_table.rs\<close> and the capability operations of
  \<^verbatim>\<open>kernel/src/capability/page_table.rs\<close>. A table is named by its kernel virtual
  address; its entry \<open>i\<close> is the word at that address plus \<open>8 * i\<close>. The fence
  instructions have no counterpart, since the model has no translation cache.
\<close>

section \<open>Entries\<close>

definition SATP_SV48 :: usize where "SATP_SV48 = push_bit 60 9"
definition PAGE_V :: usize where "PAGE_V = 1"
definition PAGE_R :: usize where "PAGE_R = 2"
definition PAGE_W :: usize where "PAGE_W = 4"
definition PAGE_X :: usize where "PAGE_X = 8"
definition PAGE_U :: usize where "PAGE_U = 16"

definition KERNEL_CODE_PFX :: usize where
  "KERNEL_CODE_PFX = 0xffffffff00000000"

definition get_user_flags :: "usize \<Rightarrow> usize" where
  "get_user_flags flags =
     ((if flags AND 1 = 1 then PAGE_X else 0)
      OR (if flags AND 2 = 2 then PAGE_W else 0)
      OR (if flags AND 4 = 4 then PAGE_R else 0))"

definition pte_is_valid :: "usize \<Rightarrow> bool" where
  "pte_is_valid w \<longleftrightarrow> w AND PAGE_V \<noteq> 0"

definition pte_get_address :: "usize \<Rightarrow> PhysAddr" where
  "pte_get_address w = push_bit 2 w AND NOT 0xfff"

definition pte_write :: "PhysAddr \<Rightarrow> usize \<Rightarrow> usize" where
  "pte_write a flags = push_bit 10 (drop_bit 12 a) OR flags"

definition pte_as_page_table :: "usize \<Rightarrow> KernelVAddress" where
  "pte_as_page_table w = phys_to_kva (pte_get_address w)"

definition pte_slot :: "usize \<Rightarrow> VirtAddr \<Rightarrow> nat \<Rightarrow> usize" where
  "pte_slot table v level = table + 8 * get_vpn v level"

definition set_pte :: "usize \<Rightarrow> usize \<Rightarrow> kstate \<Rightarrow> kstate" where
  "set_pte p w s = s\<lparr>ks_pte := (ks_pte s)(p := w)\<rparr>"

section \<open>Walking and mapping\<close>

text \<open>
  \<open>walk\<close> returns the level and the address of the entry where it stops: the first
  invalid entry on the way down, or the entry of the last level.
\<close>

fun walk_from :: "kstate \<Rightarrow> usize \<Rightarrow> VirtAddr \<Rightarrow> nat \<Rightarrow> nat \<times> usize" where
  "walk_from s table v 0 = (0, pte_slot table v 0)"
| "walk_from s table v (Suc l) =
     (let p = pte_slot table v (Suc l)
      in if \<not> pte_is_valid (ks_pte s p) then (Suc l, p)
         else walk_from s (pte_as_page_table (ks_pte s p)) v l)"

definition walk :: "kstate \<Rightarrow> usize \<Rightarrow> VirtAddr \<Rightarrow> nat \<times> usize" where
  "walk s table v = walk_from s table v 3"

definition page_table_map :: "usize \<Rightarrow> usize \<Rightarrow> VirtAddr \<Rightarrow> nat kprog" where
  "page_table_map self parent v s =
     (let (level, entry) = walk s parent v
      in if level = 0 then (Err (kerr VaddressAlreadyMapped), s)
         else (Ok (level - 1), set_pte entry (pte_write (kva_to_phys self) PAGE_V) s))"

definition page_map :: "usize \<Rightarrow> usize \<Rightarrow> VirtAddr \<Rightarrow> usize \<Rightarrow> unit kprog" where
  "page_map self parent v flags s =
     (let (level, entry) = walk s parent v
      in if level \<noteq> 0 then (Err (kerr_val PageTableNotMappedYet (of_nat level)), s)
         else if pte_is_valid (ks_pte s entry) then (Err (kerr VaddressAlreadyMapped), s)
         else (Ok (), set_pte entry (pte_write (kva_to_phys self) (flags OR PAGE_V)) s))"

definition page_unmap :: "usize \<Rightarrow> usize \<Rightarrow> VirtAddr \<Rightarrow> unit kprog" where
  "page_unmap self parent v s =
     (let (level, entry) = walk s parent v
      in if level \<noteq> 0 then (Err (kerr_val PageTableNotMappedYet (of_nat level)), s)
         else if \<not> pte_is_valid (ks_pte s entry) then (Err (kerr PageNotMappedYet), s)
         else if self \<noteq> phys_to_kva (pte_get_address (ks_pte s entry))
         then (Err (kerr InvalidOperation), s)
         else (Ok (), set_pte entry 0 s))"

text \<open>\<open>ptr::copy\<close> of the 4096 bytes of the kernel root table over the table at \<open>self\<close>.\<close>

definition copy_global_mapping :: "Image \<Rightarrow> usize \<Rightarrow> kstate \<Rightarrow> kstate" where
  "copy_global_mapping im self s =
     s\<lparr>ks_pte := (\<lambda>a. if a - self < PAGE_SIZE then ks_pte s (img_vm_root im + (a - self))
                      else ks_pte s a)\<rparr>"

definition zero_page_table :: "usize \<Rightarrow> kstate \<Rightarrow> kstate" where
  "zero_page_table self s =
     s\<lparr>ks_pte := (\<lambda>a. if a - self < PAGE_SIZE then 0 else ks_pte s a)\<rparr>"

definition page_table_activate :: "usize \<Rightarrow> kstate \<Rightarrow> kstate" where
  "page_table_activate self s = s\<lparr>ks_satp := SATP_SV48 OR drop_bit 12 (kva_to_phys self)\<rparr>"

definition activate_kernel_table :: "Image \<Rightarrow> kstate \<Rightarrow> kstate" where
  "activate_kernel_table im s =
     s\<lparr>ks_satp := SATP_SV48 OR drop_bit 12 (img_vm_root im AND NOT KERNEL_CODE_PFX)\<rparr>"

section \<open>Capability operations\<close>

text \<open>
  The operations take the capability by value and return the updated capability;
  their caller stores it back into its slot.
\<close>

definition get_pagetable :: "CapabilityData \<Rightarrow> KernelVAddress" where
  "get_pagetable c = phys_to_kva (get_address c)"

definition page_table_cap_map :: "CapabilityData \<Rightarrow> CapabilityData \<Rightarrow> VirtAddr \<Rightarrow> (nat \<times> CapabilityData) kprog" where
  "page_table_cap_map c root_table v =
     bind_st (lift_st (ensure (\<not> cap_is_mapped c) (kerr PageTableAlreadyMapped))) (\<lambda>_.
     bind_st (page_table_map (get_pagetable c) (get_pagetable root_table) v) (\<lambda>level.
     pure_st (level, cap_set_mapped c v)))"

definition page_table_cap_activate :: "CapabilityData \<Rightarrow> unit kprog" where
  "page_table_cap_activate c =
     bind_st (lift_st (ensure (cap_is_root c) (kerr NotRootPageTable))) (\<lambda>_.
     modify_st (page_table_activate (get_pagetable c)))"

definition make_as_root :: "Image \<Rightarrow> CapabilityData \<Rightarrow> CapabilityData kprog" where
  "make_as_root im c =
     bind_st (lift_st (ensure (\<not> cap_is_mapped c) (kerr PageTableAlreadyMapped))) (\<lambda>_.
     bind_st (modify_st (copy_global_mapping im (get_pagetable c))) (\<lambda>_.
     pure_st (cap_set_root (cap_set_mapped c (get_pagetable c)))))"

definition page_cap_map ::
  "CapabilityData \<Rightarrow> CapabilityData \<Rightarrow> VirtAddr \<Rightarrow> usize \<Rightarrow> CapabilityData kprog" where
  "page_cap_map c root_table v flags =
     bind_st (lift_st (ensure (\<not> cap_is_mapped c) (kerr PageAlreadyMapped))) (\<lambda>_.
     bind_st (page_map (get_pagetable c) (get_pagetable root_table) v flags) (\<lambda>_.
     pure_st (cap_set_mapped c v)))"

definition page_cap_unmap :: "CapabilityData \<Rightarrow> CapabilityData \<Rightarrow> CapabilityData kprog" where
  "page_cap_unmap c root_table =
     bind_st (lift_st (ensure (cap_is_mapped c) (kerr PageNotMappedYet))) (\<lambda>_.
     bind_st (page_unmap (get_pagetable c) (get_pagetable root_table) (get_mapped_address c)) (\<lambda>_.
     pure_st (cap_set_unmapped c)))"

section \<open>Entries are read back\<close>

lemma pte_is_valid_bit: "pte_is_valid w \<longleftrightarrow> bit w 0"
  by (simp add: pte_is_valid_def PAGE_V_def bit_0 and_one_eq even_iff_mod_2_eq_zero)

lemma pte_get_address_write:
  assumes "unat a < 2 ^ 56" and "take_bit 12 a = 0" and "take_bit 10 flags = flags"
  shows "pte_get_address (pte_write a flags) = a"
proof -
  have m: "(0xfff::usize) = mask 12" by (simp add: mask_eq_exp_minus_1)
  have a0: "\<not> bit a n" if "n < 12" for n
    using assms(2) that by (metis bit_0_eq bit_take_bit_iff bot_apply bot_bool_def)
  have f: "n < 10" if "bit flags n" for n
    using assms(3) that by (metis bit_take_bit_iff)
  have a56: "n < 56" if "bit a n" for n
  proof -
    have "take_bit 56 a = a"
      using assms(1) by (simp add: word_unat_eq_iff unsigned_take_bit_eq take_bit_nat_eq_self)
    then show ?thesis using that by (metis bit_take_bit_iff)
  qed
  show ?thesis
    unfolding pte_get_address_def pte_write_def m
  proof (rule bit_word_eqI)
    fix n assume "n < LENGTH(64)"
    then show "bit (push_bit 2 (push_bit 10 (drop_bit 12 a) OR flags) AND NOT (mask 12)) n = bit a n"
      using a0 [of n] f [of "n - 2"] a56 [of n] by (cases "n < 12") (auto simp: bit_simps)
  qed
qed

lemma pte_write_valid [simp]: "pte_is_valid (pte_write a (flags OR PAGE_V))"
  by (simp add: pte_is_valid_bit pte_write_def bit_simps PAGE_V_def)

lemma pte_write_valid_V [simp]: "pte_is_valid (pte_write a PAGE_V)"
  by (simp add: pte_is_valid_bit pte_write_def bit_simps PAGE_V_def)

lemma pte_zero_invalid [simp]: "\<not> pte_is_valid 0"
  by (simp add: pte_is_valid_def)

lemma ks_pte_set_pte [simp]: "ks_pte (set_pte p w s) q = (if q = p then w else ks_pte s q)"
  by (simp add: set_pte_def)

section \<open>The address space as a partial map\<close>

text \<open>
  What user code at \<open>v\<close> reaches: the entry of the last level, when the walk gets
  there and finds it valid.
\<close>

definition translate :: "kstate \<Rightarrow> usize \<Rightarrow> VirtAddr \<Rightarrow> usize option" where
  "translate s root v =
     (let (level, p) = walk s root v
      in if level = 0 \<and> pte_is_valid (ks_pte s p) then Some (ks_pte s p) else None)"

text \<open>
  Writing an entry at which the walk stops does not redirect the walk: every
  entry it passes is valid, so it is not that one.
\<close>

lemma walk_from_set_pte:
  assumes "\<not> pte_is_valid (ks_pte s q)"
    and "snd (walk_from s table v l) \<noteq> q \<or> fst (walk_from s table v l) = 0"
  shows "walk_from (set_pte q w s) table v l = walk_from s table v l"
  using assms by (induction l arbitrary: table) (auto simp: Let_def)

lemma walk_set_pte:
  assumes "\<not> pte_is_valid (ks_pte s q)" and "walk s table v = (l, p)" and "p \<noteq> q \<or> l = 0"
  shows "walk (set_pte q w s) table v = (l, p)"
  using assms walk_from_set_pte [of s q table v 3 w] by (simp add: walk_def)

lemma page_map_Ok:
  assumes "page_map self parent v flags s = (Ok (), t)"
  obtains e where "walk s parent v = (0, e)" and "\<not> pte_is_valid (ks_pte s e)"
    and "t = set_pte e (pte_write (kva_to_phys self) (flags OR PAGE_V)) s"
  using assms by (auto simp: page_map_def Let_def split: prod.splits if_splits)

lemma page_unmap_Ok:
  assumes "page_unmap self parent v s = (Ok (), t)"
  obtains e where "walk s parent v = (0, e)" and "pte_is_valid (ks_pte s e)"
    and "self = phys_to_kva (pte_get_address (ks_pte s e))" and "t = set_pte e 0 s"
  using assms by (auto simp: page_unmap_def Let_def split: prod.splits if_splits)

lemma page_table_map_Ok:
  assumes "page_table_map self parent v s = (Ok n, t)"
  obtains e where "walk s parent v = (Suc n, e)"
    and "t = set_pte e (pte_write (kva_to_phys self) PAGE_V) s"
proof -
  obtain l e where w: "walk s parent v = (l, e)" by fastforce
  with assms have "l \<noteq> 0" "n = l - 1" "t = set_pte e (pte_write (kva_to_phys self) PAGE_V) s"
    by (auto simp: page_table_map_def split: if_splits)
  with w that show thesis by simp
qed

text \<open>The walk from an entry at level \<open>l\<close> never ends above that level.\<close>

lemma walk_from_level: "fst (walk_from s table v l) \<le> l"
  by (induction l arbitrary: table) (auto simp: Let_def intro: le_SucI)

lemma walk_level: "fst (walk s table v) \<le> 3"
  by (simp add: walk_def walk_from_level)

text \<open>
  Linking a table at the entry where the walk stopped lets the walk go on into
  that table, one level further down.
\<close>

lemma walk_from_link:
  assumes "walk_from s table v l = (Suc n, e)" and "\<not> pte_is_valid (ks_pte s e)"
    and "pte_is_valid w" and "pte_as_page_table w = new"
  shows "walk_from (set_pte e w s) table v l = walk_from (set_pte e w s) new v n"
  using assms by (induction l arbitrary: table) (auto simp: Let_def split: if_splits)

lemma walk_stop_invalid: "walk_from s table v l = (Suc n, e) \<Longrightarrow> \<not> pte_is_valid (ks_pte s e)"
  by (induction l arbitrary: table) (auto simp: Let_def split: if_splits)

text \<open>A table whose entries are all invalid stops the walk at once.\<close>

lemma walk_from_empty_table:
  assumes "\<not> pte_is_valid (ks_pte s (pte_slot table v l))"
  shows "walk_from s table v l = (l, pte_slot table v l)"
  using assms by (cases l) (auto simp: Let_def)

lemma pte_slot_offset: "unat (pte_slot table v l - table) = 8 * unat (get_vpn v l)"
proof -
  have "unat (8 * get_vpn v l) = 8 * unat (get_vpn v l)"
    using get_vpn_less [of v l] by (simp add: unat_word_ariths)
  then show ?thesis by (simp add: pte_slot_def)
qed

lemma pte_slot_inside: "pte_slot table v l - table < PAGE_SIZE"
  using pte_slot_offset [of table v l] get_vpn_less [of v l]
  by (simp add: word_less_nat_alt PAGE_SIZE_def)

lemma page_aligned_high_bits:
  assumes "unat p < 2 ^ 47" and "take_bit 12 p = 0"
  shows "pte_as_page_table (pte_write p PAGE_V) = phys_to_kva p"
proof -
  have "unat p < 2 ^ 56" using assms(1) by (rule less_trans) simp
  then show ?thesis
    using assms by (simp add: pte_as_page_table_def pte_get_address_write PAGE_V_def)
qed

text \<open>
  Linking a fresh table: one round brings the walk exactly one level down, so
  three rounds always reach the last level.
\<close>

lemma page_table_map_descends:
  assumes "page_table_map (phys_to_kva p) root v s = (Ok n, t)"
    and "unat p < 2 ^ 47" and "take_bit 12 p = 0"
    and "\<forall>a. a - phys_to_kva p < PAGE_SIZE \<longrightarrow> \<not> pte_is_valid (ks_pte s a)"
    and "\<not> snd (walk s root v) - phys_to_kva p < PAGE_SIZE"
  shows "walk t root v = (n, pte_slot (phys_to_kva p) v n)"
proof -
  obtain e where w: "walk s root v = (Suc n, e)" and t: "t = set_pte e (pte_write p PAGE_V) s"
    using assms(1) by (rule page_table_map_Ok) (use assms(2) in simp)
  have inv: "\<not> pte_is_valid (ks_pte s e)"
    using w unfolding walk_def by (rule walk_stop_invalid)
  have "walk t root v = walk_from t (phys_to_kva p) v n"
    unfolding t walk_def
    by (rule walk_from_link) (use w inv assms(2,3) in \<open>simp_all add: walk_def page_aligned_high_bits\<close>)
  also have "\<dots> = (n, pte_slot (phys_to_kva p) v n)"
  proof (rule walk_from_empty_table)
    have "pte_slot (phys_to_kva p) v n \<noteq> e"
      using pte_slot_inside assms(5) w by force
    then show "\<not> pte_is_valid (ks_pte t (pte_slot (phys_to_kva p) v n))"
      using assms(4) pte_slot_inside by (simp add: t)
  qed
  finally show ?thesis .
qed

lemma translate_set_pte_other:
  assumes "\<not> pte_is_valid (ks_pte s e)" and "walk s root u = (l, p)" and "p \<noteq> e"
  shows "translate (set_pte e w s) root u = translate s root u"
  using assms walk_set_pte [of s e root u l p w] by (simp add: translate_def)

lemma translate_set_pte_same:
  assumes "\<not> pte_is_valid (ks_pte s e)" and "walk s root u = (0, e)" and "pte_is_valid w"
  shows "translate (set_pte e w s) root u = Some w"
  using assms walk_set_pte [of s e root u 0 e w] by (simp add: translate_def)

section \<open>Mapping and unmapping a page\<close>

lemma get_vpn_take_bit_48: "i < 4 \<Longrightarrow> get_vpn (take_bit 48 v) i = get_vpn v i"
  unfolding get_vpn_take_bit by (rule bit_word_eqI) (auto simp: bit_simps)

lemma walk_take_bit_48: "walk s root (take_bit 48 v) = walk s root v"
proof -
  have "walk_from s table (take_bit 48 v) l = walk_from s table v l" if "l < 4" for table l
    using that
    by (induction l arbitrary: table) (simp_all add: Let_def pte_slot_def get_vpn_take_bit_48)
  then show ?thesis by (simp add: walk_def)
qed

lemma cap_set_mapped_fields:
  assumes "cap_dep_val c = 0"
  shows "cap_is_mapped (cap_set_mapped c v)"
    and "get_mapped_address (cap_set_mapped c v) = take_bit 48 v"
proof -
  have m: "(0xffffffffffff::usize) = mask 48" by (simp add: mask_eq_exp_minus_1)
  have h: "push_bit 48 (0xffff::usize) = NOT (mask 48)" by (simp add: mask_eq_exp_minus_1)
  define x :: usize where "x = push_bit 48 1"
  have x: "bit x n \<longleftrightarrow> n = 48" for n
    unfolding x_def bit_push_bit_iff bit_1_iff by auto
  have d: "cap_dep_val (cap_set_mapped c v) = x OR take_bit 48 v"
    using assms by (simp add: cap_set_mapped_def m take_bit_eq_mask x_def)
  show "cap_is_mapped (cap_set_mapped c v)"
    unfolding cap_is_mapped_def d by (rule bit_word_eqI) (auto simp: bit_simps x)
  show "get_mapped_address (cap_set_mapped c v) = take_bit 48 v"
    unfolding get_mapped_address_def d h by (rule bit_word_eqI) (auto simp: bit_simps x)
qed

lemma get_pagetable_set_mapped [simp]: "get_pagetable (cap_set_mapped c v) = get_pagetable c"
  by (simp add: get_pagetable_def cap_set_mapped_def)

lemma kva_of_get_pagetable: "kva_to_phys (get_pagetable c) = take_bit 47 (get_address c)"
  by (simp add: get_pagetable_def kva_to_phys_to_kva)

lemma page_cap_map_Ok:
  "page_cap_map c root v flags s = (Ok c', t) \<longleftrightarrow>
     \<not> cap_is_mapped c \<and> c' = cap_set_mapped c v
     \<and> page_map (get_pagetable c) (get_pagetable root) v flags s = (Ok (), t)"
  by (auto simp: page_cap_map_def bind_st_eq_Ok)

lemma page_cap_unmap_Ok:
  "page_cap_unmap c root s = (Ok c', t) \<longleftrightarrow>
     cap_is_mapped c \<and> c' = cap_set_unmapped c
     \<and> page_unmap (get_pagetable c) (get_pagetable root) (get_mapped_address c) s = (Ok (), t)"
  by (auto simp: page_cap_unmap_def bind_st_eq_Ok)


text \<open>
  C13: A mapping of a page keeps every translation that existed before, in the same and in every
  other address space.
\<close>

theorem page_map_preserves_mappings:
  assumes "page_cap_map c root v flags s = (Ok c', t)" and "translate s r u = Some w"
  shows "translate t r u = Some w"
proof -
  obtain e x where inv: "\<not> pte_is_valid (ks_pte s e)" and t: "t = set_pte e x s"
    using assms(1) by (auto simp: page_cap_map_Ok elim!: page_map_Ok)
  obtain p where p: "walk s r u = (0, p)" "pte_is_valid (ks_pte s p)"
    using assms(2) by (auto simp: translate_def Let_def split: prod.splits if_splits)
  then have "p \<noteq> e" using inv by auto
  then show ?thesis using p inv assms(2) by (simp add: t translate_set_pte_other)
qed

text \<open>
  C14: Unmapping a page that has just been mapped restores both the capability and the page
  tables.
\<close>

theorem page_unmap_map:
  assumes "page_cap_map c root v flags s = (Ok c', t)"
    and "unat (get_address c) < 2 ^ 47" and "take_bit 12 (get_address c) = 0"
    and "take_bit 10 flags = flags" and "cap_dep_val c = 0"
    and "ks_pte s (snd (walk s (get_pagetable root) v)) = 0"
  shows "page_cap_unmap c' root t = (Ok c, s)"
proof -
  have k: "kva_to_phys (get_pagetable c) = get_address c"
    using assms(2) by (simp add: kva_of_get_pagetable phys_below_take_bit)
  have v10: "take_bit 10 (flags OR PAGE_V) = flags OR PAGE_V"
    using assms(4) by (simp add: PAGE_V_def take_bit_or)
  obtain e where w: "walk s (get_pagetable root) v = (0, e)" and inv: "\<not> pte_is_valid (ks_pte s e)"
    and t: "t = set_pte e (pte_write (get_address c) (flags OR PAGE_V)) s"
    and c': "c' = cap_set_mapped c v"
    using assms(1) by (auto simp: page_cap_map_Ok k elim!: page_map_Ok)
  have "walk t (get_pagetable root) (take_bit 48 v) = (0, e)"
    unfolding walk_take_bit_48 t using inv w by (intro walk_set_pte) auto
  moreover have "pte_get_address (ks_pte t e) = get_address c"
    using assms(2,3) v10 by (simp add: t pte_get_address_write)
  ultimately have "page_unmap (get_pagetable c) (get_pagetable root) (take_bit 48 v) t
      = (Ok (), set_pte e 0 t)"
    by (simp add: page_unmap_def t) (simp add: get_pagetable_def)
  moreover have "set_pte e 0 t = s"
    using assms(6) w by (simp add: t set_pte_def fun_upd_idem)
  moreover have "cap_set_unmapped c' = c"
    using assms(5) by (simp add: c' cap_set_unmapped_def cap_set_mapped_def)
  ultimately show ?thesis
    by (simp add: page_cap_unmap_Ok c' cap_set_mapped_fields [OF assms(5)])
qed

text \<open>A refused operation leaves the page tables as they were.\<close>

lemma page_ops_fail_clean:
  "page_cap_map c root v flags s = (Err e, t) \<Longrightarrow> t = s"
  "page_cap_unmap c root s = (Err e, t) \<Longrightarrow> t = s"
  "page_table_cap_map c root v s = (Err e, t) \<Longrightarrow> t = s"
  "make_as_root im c s = (Err e, t) \<Longrightarrow> t = s"
  by (auto simp: page_cap_map_def page_cap_unmap_def page_table_cap_map_def make_as_root_def
      page_map_def page_unmap_def page_table_map_def bind_st_eq_Err split: prod.splits if_splits)

end
