(* ===== verification/Scheduler.thy ===== *)
theory Scheduler
  imports Page_Table
begin

text \<open>
  Threads and the scheduler: \<^verbatim>\<open>kernel/src/object/tcb.rs\<close> and
  \<^verbatim>\<open>kernel/src/scheduler.rs\<close>. The run queue is an intrusive list of thread
  control blocks, the current thread is a pointer, and a flag records that a
  reschedule was requested. \<open>cur_reg_base\<close> of the per-cpu block names the thread
  whose registers the trap entry saves into, so the model keeps the address of
  that thread.
\<close>

section \<open>Thread information (object/tcb.rs)\<close>

definition thread_resume :: "ThreadInfo \<Rightarrow> ThreadInfo" where
  "thread_resume i = i\<lparr>status := Runnable\<rparr>"

definition thread_suspend :: "ThreadInfo \<Rightarrow> ThreadInfo" where
  "thread_suspend i = i\<lparr>status := Blocked\<rparr>"

definition is_runnable :: "ThreadInfo \<Rightarrow> bool" where
  "is_runnable i \<longleftrightarrow> status i = Runnable"

definition set_timeout :: "usize \<Rightarrow> ThreadInfo \<Rightarrow> ThreadInfo" where
  "set_timeout time_out i = i\<lparr>time_slice := time_out\<rparr>"

definition default_thread :: ThreadInfo where
  "default_thread =
     \<lparr>status = Inactive, time_slice = 0, root_cnode = None, vspace = None,
      registers = null_registers, ipc_buffer = None, badge = 0, tid = 0\<rparr>"

definition idle_init :: ThreadInfo where
  "idle_init =
     \<lparr>status = Idle, time_slice = 0, root_cnode = None, vspace = None,
      registers = null_registers, ipc_buffer = None, badge = 0, tid = 0\<rparr>"

text \<open>\<open>ThreadInfo::new\<close> numbers the threads under the dev profile.\<close>

definition thread_new :: "ThreadInfo kprog" where
  "thread_new s =
     (case (add_ck (ks_tcbidx s) 1 :: usize kres) of
        Ok n \<Rightarrow> (Ok (default_thread\<lparr>tid := n\<rparr>), s\<lparr>ks_tcbidx := ks_tcbidx s + 1\<rparr>)
      | _ \<Rightarrow> (Panic ArithOverflow, s\<lparr>ks_tcbidx := ks_tcbidx s + 1\<rparr>))"

definition ipc_buffer_ref :: "ThreadInfo \<Rightarrow> usize option" where
  "ipc_buffer_ref i =
     (case ipc_buffer i of
        None \<Rightarrow> None
      | Some e \<Rightarrow> Some (phys_to_kva (get_address (ent_cap e))))"

text \<open>The message of the sender is copied whole when both sides have a buffer.\<close>

definition set_ipc_msg :: "usize \<Rightarrow> usize option \<Rightarrow> kstate \<Rightarrow> kstate" where
  "set_ipc_msg t sender_ref s =
     (case (ipc_buffer_ref (thread s t), sender_ref) of
        (Some reciever_ref, Some sender_ref) \<Rightarrow>
          s\<lparr>ks_buf := (ks_buf s)(reciever_ref := ks_buf s sender_ref)\<rparr>
      | _ \<Rightarrow> s)"

definition activate_vspace_inner :: "usize \<Rightarrow> unit kprog" where
  "activate_vspace_inner t s =
     (case vspace (thread s t) of
        None \<Rightarrow> (Err (kerr PageTableNotMappedYet), s)
      | Some e \<Rightarrow> page_table_cap_activate (ent_cap e) s)"

definition activate_vspace :: "Image \<Rightarrow> usize \<Rightarrow> kstate \<Rightarrow> kstate" where
  "activate_vspace im t s =
     (case activate_vspace_inner t s of
        (Err e, s') \<Rightarrow> activate_kernel_table im s'
      | (_, s') \<Rightarrow> s')"

section \<open>The run queue (scheduler.rs)\<close>

definition TICK_HZ :: usize where "TICK_HZ = 1000"
definition TASK_QUANTUM :: usize where "TASK_QUANTUM = 20 * (TICK_HZ div 1000)"

definition sched_push :: "usize \<Rightarrow> kstate \<Rightarrow> kstate" where
  "sched_push t s =
     (let (h, q) = ll_push (ks_tcb s) (ks_runqueue s) t in s\<lparr>ks_tcb := h, ks_runqueue := q\<rparr>)"

definition sched_pop :: "kstate \<Rightarrow> usize option \<times> kstate" where
  "sched_pop s =
     (let (r, q) = ll_pop (ks_tcb s) (ks_runqueue s) in (r, s\<lparr>ks_runqueue := q\<rparr>))"

text \<open>\<open>resume\<close> of \<^verbatim>\<open>object/tcb.rs\<close>: mark the thread runnable and queue it.\<close>

definition resume :: "usize \<Rightarrow> kstate \<Rightarrow> kstate" where
  "resume t s = sched_push t (update_thread t thread_resume s)"

definition require_schedule :: "kstate \<Rightarrow> kstate" where
  "require_schedule s = s\<lparr>ks_requested := True\<rparr>"

definition switch_to :: "Image \<Rightarrow> usize \<Rightarrow> kstate \<Rightarrow> kstate" where
  "switch_to im next s =
     (activate_vspace im next s)
       \<lparr>ks_cur_reg_base := next, ks_current := next, ks_requested := False\<rparr>"

definition schedule :: "Image \<Rightarrow> kstate \<Rightarrow> kstate" where
  "schedule im s =
     (if \<not> ks_requested s then s
      else case sched_pop s of
        (Some next, s1) \<Rightarrow>
          let s2 = update_thread next (set_timeout TASK_QUANTUM) s1;
              current = ks_current s2;
              s3 = (if is_runnable (thread s2 current) then sched_push current s2 else s2)
          in switch_to im next s3
      | (None, s1) \<Rightarrow>
          let current = ks_current s1
          in if is_runnable (thread s1 current)
             then update_thread current (set_timeout TASK_QUANTUM) s1
             else switch_to im (img_idle_thread im) s1)"

definition SSTATUS_SIE :: usize where "SSTATUS_SIE = push_bit 1 1"
definition SSTATUS_SPIE :: usize where "SSTATUS_SPIE = push_bit 5 1"
definition SSTATUS_SPP :: usize where "SSTATUS_SPP = push_bit 8 1"

definition create_idle_thread :: "Image \<Rightarrow> usize \<Rightarrow> kstate \<Rightarrow> kstate" where
  "create_idle_thread im stack_top s =
     (update_registers (img_idle_thread im)
        (\<lambda>r. r\<lparr>rg_sepc := img_idle_fn im, rg_sstatus := SSTATUS_SPP OR SSTATUS_SPIE, rg_sp := stack_top\<rparr>) s)
       \<lparr>ks_current := img_idle_thread im, ks_cur_reg_base := img_idle_thread im, ks_sptop := stack_top\<rparr>"

definition timer_tick :: "Image \<Rightarrow> unit kprog" where
  "timer_tick im s =
     (let current = ks_current s
      in if current = img_idle_thread im then (Ok (), s)
         else case (sub_ck (time_slice (thread s current)) 1 :: usize kres) of
           Ok n \<Rightarrow>
             let s1 = update_thread current (\<lambda>i. i\<lparr>time_slice := n\<rparr>) s
             in (Ok (), if n = 0 then require_schedule s1 else s1)
         | _ \<Rightarrow> (Panic ArithOverflow, s))"

section \<open>The statics at boot\<close>

text \<open>
  Memory is zero and the statics hold their initial values: a zero thread control
  block is the default thread, with no link.
\<close>

definition boot_state :: "Image \<Rightarrow> kstate" where
  "boot_state im =
     \<lparr>ks_tcb = (\<lambda>_. ListItem_new default_thread)(img_idle_thread im := ListItem_new idle_init),
      ks_cap = (\<lambda>_. None),
      ks_mdb = (\<lambda>_. empty_mdb),
      ks_pte = (\<lambda>_. 0),
      ks_ep = (\<lambda>_. \<lparr>ep_state = EpStSend, ep_queue = ll_new\<rparr>),
      ks_ntfn = (\<lambda>_. \<lparr>notify_bit = 0, wait_queue = ll_new, bit_is_set = False\<rparr>),
      ks_buf = (\<lambda>_. \<lparr>buf_tag = 0, buf_message = replicate MESSAGE_LEN 0, buf_user_data = 0\<rparr>),
      ks_byte = (\<lambda>_. 0),
      ks_runqueue = ll_new,
      ks_requested = False,
      ks_current = 0,
      ks_cur_reg_base = 0,
      ks_sptop = 0,
      ks_satp = 0,
      ks_console = [],
      ks_mtimecmp = 0,
      ks_tcbidx = 0\<rparr>"

section \<open>Frame facts\<close>

lemma sched_push_frame [simp]:
  "thread (sched_push t s) u = thread s u"
  "ks_cap (sched_push t s) = ks_cap s"
  "ks_mdb (sched_push t s) = ks_mdb s"
  "ks_pte (sched_push t s) = ks_pte s"
  "ks_ep (sched_push t s) = ks_ep s"
  "ks_ntfn (sched_push t s) = ks_ntfn s"
  "ks_buf (sched_push t s) = ks_buf s"
  "ks_current (sched_push t s) = ks_current s"
  "ks_cur_reg_base (sched_push t s) = ks_cur_reg_base s"
  "ks_requested (sched_push t s) = ks_requested s"
  by (simp_all add: sched_push_def thread_def split: prod.splits) (metis fst_conv ll_push_value)

lemma activate_vspace_frame [simp]:
  "ks_tcb (activate_vspace im t s) = ks_tcb s"
  "ks_runqueue (activate_vspace im t s) = ks_runqueue s"
  "ks_current (activate_vspace im t s) = ks_current s"
  "ks_ep (activate_vspace im t s) = ks_ep s"
  "ks_ntfn (activate_vspace im t s) = ks_ntfn s"
  "thread (activate_vspace im t s) u = thread s u"
  by (auto simp: activate_vspace_def activate_vspace_inner_def page_table_cap_activate_def
      bind_st_def ensure_def page_table_activate_def activate_kernel_table_def thread_def
      split: option.splits)

lemma switch_to_frame [simp]:
  "ks_tcb (switch_to im t s) = ks_tcb s"
  "thread (switch_to im t s) u = thread s u"
  "ks_runqueue (switch_to im t s) = ks_runqueue s"
  "ks_current (switch_to im t s) = t"
  "ks_cur_reg_base (switch_to im t s) = t"
  "ks_requested (switch_to im t s) = False"
  by (simp_all add: switch_to_def) (simp add: thread_def)

lemma sched_pop_frame:
  "sched_pop s = (r, t) \<Longrightarrow> t = s\<lparr>ks_runqueue := ks_runqueue t\<rparr>"
  by (auto simp: sched_pop_def split: prod.splits)

section \<open>The run queue as a sequence of threads\<close>

definition run_queue :: "kstate \<Rightarrow> usize list \<Rightarrow> bool" where
  "run_queue s xs \<longleftrightarrow> list_rep (ks_tcb s) (ks_runqueue s) xs"

lemma run_queue_update_thread [simp]: "run_queue (update_thread t f s) xs = run_queue s xs"
  by (simp add: run_queue_def)

lemma run_queue_sched_push:
  assumes "run_queue s xs" and "loose (ks_tcb s) t" and "t \<notin> set xs"
  shows "run_queue (sched_push t s) (xs @ [t])"
  using ll.rep_push [OF assms [unfolded run_queue_def]]
  by (simp add: run_queue_def sched_push_def case_prod_beta)

lemma loose_sched_push:
  "run_queue s xs \<Longrightarrow> u \<notin> set xs \<Longrightarrow> loose (ks_tcb (sched_push t s)) u = loose (ks_tcb s) u"
  by (simp add: run_queue_def sched_push_def case_prod_beta ll.loose_push)

lemma sched_pop_Nil:
  "run_queue s [] \<Longrightarrow> \<exists>t. sched_pop s = (None, t) \<and> run_queue t [] \<and> t = s\<lparr>ks_runqueue := ll_new\<rparr>"
  using ll.pop_empty [of "ks_tcb s" "ks_runqueue s"]
  by (simp add: run_queue_def sched_pop_def)

lemma sched_pop_Cons:
  assumes "run_queue s (x # xs)"
  shows "\<exists>t. sched_pop s = (Some x, t) \<and> run_queue t xs \<and> t = s\<lparr>ks_runqueue := ks_runqueue t\<rparr>"
  using ll.pop_item [OF assms [unfolded run_queue_def]] ll.rep_pop [OF assms [unfolded run_queue_def]]
  by (auto simp: run_queue_def sched_pop_def case_prod_beta)

section \<open>The abstract scheduler\<close>

text \<open>
  What the scheduler promises: a first-in first-out queue, a current thread and
  the request flag. A requested schedule takes the first thread of the queue and
  queues the current one behind the others if it can still run; with an empty
  queue the current thread goes on if it can, and otherwise the idle thread runs.
\<close>

record abs_sched =
  as_queue :: "usize list"
  as_current :: usize
  as_requested :: bool

definition abs_schedule :: "usize \<Rightarrow> (usize \<Rightarrow> bool) \<Rightarrow> abs_sched \<Rightarrow> abs_sched" where
  "abs_schedule idle runnable a =
     (if \<not> as_requested a then a
      else case as_queue a of
        x # xs \<Rightarrow>
          \<lparr>as_queue = xs @ (if runnable (as_current a) then [as_current a] else []),
           as_current = x, as_requested = False\<rparr>
      | [] \<Rightarrow>
          if runnable (as_current a) then a
          else a\<lparr>as_current := idle, as_requested := False\<rparr>)"

definition sched_abs :: "kstate \<Rightarrow> usize list \<Rightarrow> abs_sched" where
  "sched_abs s xs = \<lparr>as_queue = xs, as_current = ks_current s, as_requested = ks_requested s\<rparr>"

lemma schedule_idle_request: "\<not> ks_requested s \<Longrightarrow> schedule im s = s"
  by (simp add: schedule_def)

lemma schedule_Nil_runnable:
  assumes "ks_requested s" and "run_queue s []" and "is_runnable (thread s (ks_current s))"
  shows "schedule im s = update_thread (ks_current s) (set_timeout TASK_QUANTUM) (s\<lparr>ks_runqueue := ll_new\<rparr>)"
proof -
  have "thread (s\<lparr>ks_runqueue := ll_new\<rparr>) u = thread s u" for u by (simp add: thread_def)
  then show ?thesis
    using assms sched_pop_Nil [OF assms(2)] by (auto simp: schedule_def Let_def)
qed

lemma schedule_Nil_blocked:
  assumes "ks_requested s" and "run_queue s []" and "\<not> is_runnable (thread s (ks_current s))"
  shows "schedule im s = switch_to im (img_idle_thread im) (s\<lparr>ks_runqueue := ll_new\<rparr>)"
proof -
  have "thread (s\<lparr>ks_runqueue := ll_new\<rparr>) u = thread s u" for u by (simp add: thread_def)
  then show ?thesis
    using assms sched_pop_Nil [OF assms(2)] by (auto simp: schedule_def Let_def)
qed

lemma schedule_Cons:
  assumes "ks_requested s" and "run_queue s (x # xs)" and "ks_current s \<noteq> x"
  obtains u where "run_queue u xs" and "ks_current u = ks_current s"
    and "loose (ks_tcb u) = loose (ks_tcb s)"
    and "\<And>t. thread u t = (if t = x then set_timeout TASK_QUANTUM (thread s x) else thread s t)"
    and "schedule im s = switch_to im x
           (if is_runnable (thread s (ks_current s)) then sched_push (ks_current s) u else u)"
proof -
  obtain t where pop: "sched_pop s = (Some x, t)" and rq: "run_queue t xs"
    and t: "t = s\<lparr>ks_runqueue := ks_runqueue t\<rparr>"
    using sched_pop_Cons [OF assms(2)] by blast
  have cur: "ks_current t = ks_current s" by (subst t) simp
  have tcb: "ks_tcb t = ks_tcb s" by (subst t) simp
  have thr: "thread t u = thread s u" for u by (simp add: thread_def tcb)
  let ?u = "update_thread x (set_timeout TASK_QUANTUM) t"
  show thesis
  proof (rule that [of ?u])
    show "run_queue ?u xs" using rq by simp
    show "ks_current ?u = ks_current s" by (simp add: cur)
    show "loose (ks_tcb ?u) = loose (ks_tcb s)" by (rule ext) (simp add: tcb)
    show "thread ?u v = (if v = x then set_timeout TASK_QUANTUM (thread s x) else thread s v)" for v
      by (simp add: thread_update thr)
    show "schedule im s = switch_to im x
           (if is_runnable (thread s (ks_current s)) then sched_push (ks_current s) ?u else ?u)"
      using assms pop by (simp add: schedule_def Let_def cur thr)
  qed
qed


lemma schedule_head:
  assumes "ks_requested s" and "run_queue s (x # xs)" and "ks_current s \<noteq> x"
  shows "ks_current (schedule im s) = x \<and> ks_cur_reg_base (schedule im s) = x
       \<and> time_slice (thread (schedule im s) x) = 20 \<and> \<not> ks_requested (schedule im s)"
proof -
  obtain u where "\<And>t. thread u t = (if t = x then set_timeout TASK_QUANTUM (thread s x) else thread s t)"
    "schedule im s = switch_to im x
           (if is_runnable (thread s (ks_current s)) then sched_push (ks_current s) u else u)"
    using schedule_Cons [OF assms, of im] by metis
  then show ?thesis by (simp add: set_timeout_def TASK_QUANTUM_def TICK_HZ_def)
qed

lemma require_schedule_frame [simp]:
  "thread (require_schedule s) t = thread s t"
  "ks_tcb (require_schedule s) = ks_tcb s"
  "ks_runqueue (require_schedule s) = ks_runqueue s"
  "ks_current (require_schedule s) = ks_current s"
  "ks_cur_reg_base (require_schedule s) = ks_cur_reg_base s"
  "ks_requested (require_schedule s)"
  by (simp_all add: require_schedule_def thread_def)

theorem timer_tick_counts:
  assumes "ks_current s \<noteq> img_idle_thread im" and "time_slice (thread s (ks_current s)) = n" and "n \<noteq> 0"
  shows "\<exists>t. timer_tick im s = (Ok (), t) \<and> time_slice (thread t (ks_current s)) = n - 1
           \<and> ks_requested t = (ks_requested s \<or> n = 1)"
proof -
  have "(sub_ck n 1 :: usize kres) = Ok (n - 1)" using assms(3) by (simp add: sub_ck_def word_le_nat_alt unat_gt_0 Suc_le_eq)
  then show ?thesis
    using assms by (auto simp: timer_tick_def Let_def)
qed

theorem blocked_thread_scheduled:
  assumes "run_queue s [a, b]" and "ks_requested s" and "ks_current s = c"
    and "c \<noteq> a" and "c \<noteq> b" and "\<not> is_runnable (thread s c)"
    and "is_runnable (thread s a)" and "is_runnable (thread s b)"
    and "s1 = schedule im s"
    and "s2 = schedule im (require_schedule s1)"
    and "s3 = schedule im (require_schedule (update_thread b thread_suspend s2))"
    and "s4 = schedule im (require_schedule s3)"
  shows "ks_current s4 = b \<and> status (thread s4 b) = Blocked"
proof -
  note sim = schedule_def sched_pop_def ll_pop_def sched_push_def ll_push_def Let_def
    require_schedule_def is_runnable_def set_timeout_def thread_suspend_def thread_def update_thread_def
  have ab: "a \<noteq> b" and l0: "ll_head (ks_runqueue s) = Some a" "ll_last (ks_runqueue s) = Some b"
    "item_next (ks_tcb s a) = Some b" "item_next (ks_tcb s b) = None"
    using assms(1) by (auto simp: run_queue_def list_rep_def)
  have s1: "ks_current s1 = a" "ll_head (ks_runqueue s1) = Some b" "ll_last (ks_runqueue s1) = Some b"
    "item_next (ks_tcb s1 a) = Some b" "item_next (ks_tcb s1 b) = None"
    "is_runnable (thread s1 a)" "is_runnable (thread s1 b)"
    using assms l0 ab by (simp_all add: sim)
  have s2: "ks_current s2 = b" "ll_head (ks_runqueue s2) = Some a" "ll_last (ks_runqueue s2) = Some a"
    "item_next (ks_tcb s2 a) = Some b" "item_next (ks_tcb s2 b) = None"
    "is_runnable (thread s2 a)"
    using assms(10) s1 ab by (simp_all add: sim)
  have s3: "ks_current s3 = a" "ll_head (ks_runqueue s3) = Some b"
    "status (thread s3 b) = Blocked" "item_next (ks_tcb s3 b) = None" "is_runnable (thread s3 a)"
    using assms(11) s2 ab by (simp_all add: sim)
  show ?thesis
    using assms(12) s3 ab by (simp add: sim)
qed
end
