(* ===== verification/Ipc.thy ===== *)
theory Ipc
  imports Scheduler
begin

text \<open>
  Synchronous endpoints and asynchronous notifications:
  \<^verbatim>\<open>kernel/src/object/endpoint.rs\<close>, \<^verbatim>\<open>object/notification.rs\<close> and the
  capability methods in \<^verbatim>\<open>kernel/src/capability/endpoint.rs\<close> and
  \<^verbatim>\<open>capability/notification.rs\<close>. Both block the calling thread on an intrusive
  queue. The returned flag asks the caller for a reschedule.
\<close>

section \<open>Blocking and waking\<close>

text \<open>The two object files define the same pair of helpers.\<close>

definition wake_up_thread :: "usize \<Rightarrow> unit kprog" where
  "wake_up_thread t =
     bind_st (\<lambda>s. (assert_run (next_is_none (ks_tcb s t)), s)) (\<lambda>_.
     modify_st (resume t))"

definition block_thread :: "usize \<Rightarrow> unit kprog" where
  "block_thread t =
     bind_st (\<lambda>s. (assert_run (next_is_none (ks_tcb s t)), s)) (\<lambda>_.
     modify_st (update_thread t thread_suspend))"

section \<open>Endpoints (object/endpoint.rs)\<close>

definition ep_new :: Endpoint where
  "ep_new = \<lparr>ep_state = EpStIdel, ep_queue = ll_new\<rparr>"

definition ep_is_idle :: "Endpoint \<Rightarrow> bool" where
  "ep_is_idle e \<longleftrightarrow> ep_state e = EpStIdel"

definition set_ep :: "usize \<Rightarrow> Endpoint \<Rightarrow> kstate \<Rightarrow> kstate" where
  "set_ep p e s = s\<lparr>ks_ep := (ks_ep s)(p := e)\<rparr>"

definition pop_from_queue :: "usize \<Rightarrow> EndpointState \<Rightarrow> kstate \<Rightarrow> usize option \<times> kstate" where
  "pop_from_queue ep st s =
     (let e = ks_ep s ep;
          e1 = (if ep_is_idle e then e\<lparr>ep_state := st\<rparr> else e)
      in if ep_state e1 = st then (None, set_ep ep e1 s)
         else let (ret, q) = ll_pop (ks_tcb s) (ep_queue e1);
                  e2 = e1\<lparr>ep_queue := q\<rparr>;
                  e3 = (if ll_is_empty q then e2\<lparr>ep_state := EpStIdel\<rparr> else e2)
              in (ret, set_ep ep e3 s))"

definition ep_queue_push :: "usize \<Rightarrow> usize \<Rightarrow> kstate \<Rightarrow> kstate" where
  "ep_queue_push ep t s =
     (let (h, q) = ll_push (ks_tcb s) (ep_queue (ks_ep s ep)) t
      in s\<lparr>ks_tcb := h, ks_ep := (ks_ep s)(ep := (ks_ep s ep)\<lparr>ep_queue := q\<rparr>)\<rparr>)"

definition ep_send :: "usize \<Rightarrow> usize \<Rightarrow> bool kprog" where
  "ep_send ep t s =
     (case pop_from_queue ep EpStSend s of
        (Some reciever, s1) \<Rightarrow>
          let s2 = set_ipc_msg reciever (ipc_buffer_ref (thread s1 t)) s1;
              s3 = update_registers reciever (\<lambda>r. r\<lparr>rg_a1 := badge (thread s2 t)\<rparr>) s2
          in bind_st (wake_up_thread reciever) (\<lambda>_. pure_st False) s3
      | (None, s1) \<Rightarrow>
          bind_st (block_thread t) (\<lambda>_.
          bind_st (modify_st (ep_queue_push ep t)) (\<lambda>_.
          pure_st True)) s1)"

definition ep_recv :: "usize \<Rightarrow> usize \<Rightarrow> bool kprog" where
  "ep_recv ep t s =
     (case pop_from_queue ep EpStRecv s of
        (Some sender, s1) \<Rightarrow>
          let s2 = set_ipc_msg t (ipc_buffer_ref (thread s1 sender)) s1;
              s3 = update_registers t (\<lambda>r. r\<lparr>rg_a1 := badge (thread s2 sender)\<rparr>) s2
          in bind_st (wake_up_thread sender) (\<lambda>_. pure_st False) s3
      | (None, s1) \<Rightarrow>
          bind_st (block_thread t) (\<lambda>_.
          bind_st (modify_st (ep_queue_push ep t)) (\<lambda>_.
          pure_st True)) s1)"

text \<open>The capability methods: a send first stamps the sender with the badge.\<close>

definition get_ep :: "CapabilityData \<Rightarrow> usize" where
  "get_ep c = phys_to_kva (get_address c)"

definition ep_cap_send :: "CapabilityData \<Rightarrow> usize \<Rightarrow> bool kprog" where
  "ep_cap_send c t =
     bind_st (modify_st (update_thread t (\<lambda>i. i\<lparr>badge := get_badge c\<rparr>))) (\<lambda>_.
     ep_send (get_ep c) t)"

definition ep_cap_recv :: "CapabilityData \<Rightarrow> usize \<Rightarrow> bool kprog" where
  "ep_cap_recv c t = ep_recv (get_ep c) t"

section \<open>Notifications (object/notification.rs)\<close>

definition ntfn_new :: Notification where
  "ntfn_new = \<lparr>notify_bit = 0, wait_queue = ll_new, bit_is_set = False\<rparr>"

definition set_ntfn :: "usize \<Rightarrow> Notification \<Rightarrow> kstate \<Rightarrow> kstate" where
  "set_ntfn p n s = s\<lparr>ks_ntfn := (ks_ntfn s)(p := n)\<rparr>"

definition send_signal :: "usize \<Rightarrow> u64 \<Rightarrow> unit kprog" where
  "send_signal np val s =
     (let n = ks_ntfn s np;
          (ret, q) = ll_pop (ks_tcb s) (wait_queue n);
          s1 = set_ntfn np (n\<lparr>wait_queue := q\<rparr>) s
      in case ret of
           Some t \<Rightarrow> wake_up_thread t (update_registers t (\<lambda>r. r\<lparr>rg_a1 := val\<rparr>) s1)
         | None \<Rightarrow>
             (Ok (), set_ntfn np (n\<lparr>wait_queue := q, bit_is_set := True,
                notify_bit := notify_bit n OR val\<rparr>) s1))"

definition wait_signal :: "usize \<Rightarrow> usize \<Rightarrow> bool kprog" where
  "wait_signal np t s =
     (let n = ks_ntfn s np
      in if bit_is_set n
         then let s1 = update_registers t (\<lambda>r. r\<lparr>rg_a1 := notify_bit n\<rparr>) s
              in (Ok False, set_ntfn np (n\<lparr>notify_bit := 0, bit_is_set := False\<rparr>) s1)
         else bind_st (block_thread t) (\<lambda>_ s1.
              let (h, q) = ll_push (ks_tcb s1) (wait_queue (ks_ntfn s1 np)) t
              in (Ok True, s1\<lparr>ks_tcb := h,
                     ks_ntfn := (ks_ntfn s1)(np := (ks_ntfn s1 np)\<lparr>wait_queue := q\<rparr>)\<rparr>)) s)"

definition get_notify :: "CapabilityData \<Rightarrow> usize" where
  "get_notify c = phys_to_kva (get_address c)"

definition ntfn_cap_send :: "CapabilityData \<Rightarrow> unit kprog" where
  "ntfn_cap_send c = send_signal (get_notify c) (get_badge c)"

definition ntfn_cap_wait :: "CapabilityData \<Rightarrow> usize \<Rightarrow> bool kprog" where
  "ntfn_cap_wait c t = wait_signal (get_notify c) t"

section \<open>Facts on blocking and waking\<close>

lemma wake_up_thread_loose:
  "loose (ks_tcb s) t \<Longrightarrow> wake_up_thread t s = (Ok (), resume t s)"
  "\<not> loose (ks_tcb s) t \<Longrightarrow> wake_up_thread t s = (Panic AssertFailed, s)"
  by (auto simp: wake_up_thread_def loose_def)

lemma block_thread_loose:
  "loose (ks_tcb s) t \<Longrightarrow> block_thread t s = (Ok (), update_thread t thread_suspend s)"
  "\<not> loose (ks_tcb s) t \<Longrightarrow> block_thread t s = (Panic AssertFailed, s)"
  by (auto simp: block_thread_def loose_def)

lemma set_ep_frame [simp]:
  "thread (set_ep p e s) t = thread s t"
  "ks_tcb (set_ep p e s) = ks_tcb s"
  "ks_runqueue (set_ep p e s) = ks_runqueue s"
  "ks_ep (set_ep p e s) q = (if q = p then e else ks_ep s q)"
  "ks_buf (set_ep p e s) = ks_buf s"
  "ks_current (set_ep p e s) = ks_current s"
  "ks_cur_reg_base (set_ep p e s) = ks_cur_reg_base s"
  "ks_ntfn (set_ep p e s) = ks_ntfn s"
  by (simp_all add: set_ep_def thread_def)

lemma set_ntfn_frame [simp]:
  "thread (set_ntfn p e s) t = thread s t"
  "ks_tcb (set_ntfn p e s) = ks_tcb s"
  "ks_runqueue (set_ntfn p e s) = ks_runqueue s"
  "ks_ntfn (set_ntfn p e s) q = (if q = p then e else ks_ntfn s q)"
  "ks_current (set_ntfn p e s) = ks_current s"
  "ks_cur_reg_base (set_ntfn p e s) = ks_cur_reg_base s"
  by (simp_all add: set_ntfn_def thread_def)

lemma set_ipc_msg_frame [simp]:
  "thread (set_ipc_msg t b s) u = thread s u"
  "ks_tcb (set_ipc_msg t b s) = ks_tcb s"
  "ks_runqueue (set_ipc_msg t b s) = ks_runqueue s"
  "ks_ep (set_ipc_msg t b s) = ks_ep s"
  "ks_current (set_ipc_msg t b s) = ks_current s"
  "ks_cur_reg_base (set_ipc_msg t b s) = ks_cur_reg_base s"
  by (simp_all add: set_ipc_msg_def thread_def split: option.splits)

lemma update_registers_frame [simp]:
  "ks_ep (update_registers t f s) = ks_ep s"
  "ks_ntfn (update_registers t f s) = ks_ntfn s"
  "ks_buf (update_registers t f s) = ks_buf s"
  "ks_runqueue (update_registers t f s) = ks_runqueue s"
  "ks_current (update_registers t f s) = ks_current s"
  "ks_cur_reg_base (update_registers t f s) = ks_cur_reg_base s"
  "loose (ks_tcb (update_registers t f s)) u = loose (ks_tcb s) u"
  "list_rep (ks_tcb (update_registers t f s)) l xs = list_rep (ks_tcb s) l xs"
  "thread (update_registers t f s) u =
     (if u = t then (thread s t)\<lparr>registers := f (registers (thread s t))\<rparr> else thread s u)"
  by (simp_all add: update_registers_def thread_update)

lemma resume_frame [simp]:
  "thread (resume t s) u = (if u = t then thread_resume (thread s t) else thread s u)"
  "ks_ep (resume t s) = ks_ep s"
  "ks_ntfn (resume t s) = ks_ntfn s"
  "ks_buf (resume t s) = ks_buf s"
  "ks_current (resume t s) = ks_current s"
  "ks_cur_reg_base (resume t s) = ks_cur_reg_base s"
  by (simp_all add: resume_def thread_update)

lemma run_queue_resume:
  assumes "run_queue s xs" and "loose (ks_tcb s) t" and "t \<notin> set xs"
  shows "run_queue (resume t s) (xs @ [t])"
  unfolding resume_def by (rule run_queue_sched_push) (use assms in simp_all)

section \<open>Endpoints: the rendezvous protocol\<close>

text \<open>
  The contract: an endpoint is idle, or queues senders, or queues receivers. A
  call either joins the queue of its own kind and blocks, or meets the first
  thread of the other kind.
\<close>

datatype ep_view = VIdle | VSend "usize list" | VRecv "usize list"

datatype ep_call = CSend usize | CRecv usize

datatype ep_outcome = Waits | Meets usize

inductive ep_step :: "ep_view \<Rightarrow> ep_call \<Rightarrow> ep_outcome \<Rightarrow> ep_view \<Rightarrow> bool" where
  send_idle: "ep_step VIdle (CSend t) Waits (VSend [t])"
| send_more: "ep_step (VSend xs) (CSend t) Waits (VSend (xs @ [t]))"
| send_last: "ep_step (VRecv [r]) (CSend t) (Meets r) VIdle"
| send_meet: "xs \<noteq> [] \<Longrightarrow> ep_step (VRecv (r # xs)) (CSend t) (Meets r) (VRecv xs)"
| recv_idle: "ep_step VIdle (CRecv t) Waits (VRecv [t])"
| recv_more: "ep_step (VRecv xs) (CRecv t) Waits (VRecv (xs @ [t]))"
| recv_last: "ep_step (VSend [r]) (CRecv t) (Meets r) VIdle"
| recv_meet: "xs \<noteq> [] \<Longrightarrow> ep_step (VSend (r # xs)) (CRecv t) (Meets r) (VSend xs)"

inductive_simps ep_step_simps:
  "ep_step VIdle c out v" "ep_step (VSend xs) c out v" "ep_step (VRecv xs) c out v"

definition ep_wf :: "kstate \<Rightarrow> usize \<Rightarrow> usize list \<Rightarrow> bool" where
  "ep_wf s ep xs \<longleftrightarrow>
     list_rep (ks_tcb s) (ep_queue (ks_ep s ep)) xs \<and> (ep_state (ks_ep s ep) = EpStIdel \<longleftrightarrow> xs = [])"

definition ep_view_of :: "kstate \<Rightarrow> usize \<Rightarrow> usize list \<Rightarrow> ep_view" where
  "ep_view_of s ep xs =
     (case ep_state (ks_ep s ep) of EpStIdel \<Rightarrow> VIdle | EpStSend \<Rightarrow> VSend xs | EpStRecv \<Rightarrow> VRecv xs)"

lemma pop_from_queue_same:
  "ep_state (ks_ep s ep) \<in> {EpStIdel, st} \<Longrightarrow>
     pop_from_queue ep st s = (None, set_ep ep ((ks_ep s ep)\<lparr>ep_state := st\<rparr>) s)"
  by (auto simp: pop_from_queue_def ep_is_idle_def Let_def)

lemma pop_from_queue_other:
  assumes "ep_wf s ep (x # xs)" and "ep_state (ks_ep s ep) \<noteq> st"
  obtains q where "list_rep (ks_tcb s) q xs"
    and "pop_from_queue ep st s =
      (Some x, set_ep ep \<lparr>ep_state = (if xs = [] then EpStIdel else ep_state (ks_ep s ep)), ep_queue = q\<rparr> s)"
proof -
  let ?l = "ep_queue (ks_ep s ep)"
  have rep: "list_rep (ks_tcb s) ?l (x # xs)" and "\<not> ep_is_idle (ks_ep s ep)"
    using assms by (auto simp: ep_wf_def ep_is_idle_def)
  moreover obtain q where q: "ll_pop (ks_tcb s) ?l = (Some x, q)" "list_rep (ks_tcb s) q xs"
    using list_rep_pop [OF rep] by (metis prod.collapse)
  ultimately show thesis
    using that [of q] assms(2) list_rep_is_empty [OF q(2)]
    by (cases "ks_ep s ep"; cases "xs = []") (simp_all add: pop_from_queue_def Let_def)
qed

lemma ep_queue_push_frame [simp]:
  "thread (ep_queue_push ep t s) u = thread s u"
  "ks_runqueue (ep_queue_push ep t s) = ks_runqueue s"
  "ks_buf (ep_queue_push ep t s) = ks_buf s"
  "ks_current (ep_queue_push ep t s) = ks_current s"
  "ep_state (ks_ep (ep_queue_push ep t s) ep) = ep_state (ks_ep s ep)"
  "ep' \<noteq> ep \<Longrightarrow> ks_ep (ep_queue_push ep t s) ep' = ks_ep s ep'"
  by (simp_all add: ep_queue_push_def thread_def case_prod_beta)

lemma ep_queue_push_rep:
  assumes "list_rep (ks_tcb s) (ep_queue (ks_ep s ep)) xs" and "loose (ks_tcb s) t" and "t \<notin> set xs"
  shows "list_rep (ks_tcb (ep_queue_push ep t s)) (ep_queue (ks_ep (ep_queue_push ep t s) ep)) (xs @ [t])"
  using list_rep_push [OF assms] by (simp add: ep_queue_push_def case_prod_beta)

lemma ep_queue_push_empty:
  "list_rep (ks_tcb s) (ep_queue (ks_ep s ep)) [] \<Longrightarrow> ks_tcb (ep_queue_push ep t s) = ks_tcb s"
  by (simp add: ep_queue_push_def ll_push_def list_rep_Nil ll_new_def)

text \<open>A call that finds its own kind waiting, or nobody, blocks and joins the queue.\<close>

definition ep_blocked :: "usize \<Rightarrow> EndpointState \<Rightarrow> usize \<Rightarrow> kstate \<Rightarrow> kstate" where
  "ep_blocked ep st t s =
     ep_queue_push ep t (update_thread t thread_suspend (set_ep ep ((ks_ep s ep)\<lparr>ep_state := st\<rparr>) s))"

lemma ep_send_blocks:
  assumes "ep_state (ks_ep s ep) \<in> {EpStIdel, EpStSend}"
  shows "ep_send ep t s =
     (if loose (ks_tcb s) t then (Ok True, ep_blocked ep EpStSend t s)
      else (Panic AssertFailed, set_ep ep ((ks_ep s ep)\<lparr>ep_state := EpStSend\<rparr>) s))"
  using assms by (simp add: ep_send_def pop_from_queue_same ep_blocked_def block_thread_loose bind_st_def)

lemma ep_recv_blocks:
  assumes "ep_state (ks_ep s ep) \<in> {EpStIdel, EpStRecv}"
  shows "ep_recv ep t s =
     (if loose (ks_tcb s) t then (Ok True, ep_blocked ep EpStRecv t s)
      else (Panic AssertFailed, set_ep ep ((ks_ep s ep)\<lparr>ep_state := EpStRecv\<rparr>) s))"
  using assms by (simp add: ep_recv_def pop_from_queue_same ep_blocked_def block_thread_loose bind_st_def)

lemma ep_blocked_facts:
  assumes "ep_wf s ep xs" and "loose (ks_tcb s) t" and "t \<notin> set xs" and "st \<noteq> EpStIdel"
  shows "ep_wf (ep_blocked ep st t s) ep (xs @ [t])"
    and "ep_state (ks_ep (ep_blocked ep st t s) ep) = st"
    and "thread (ep_blocked ep st t s) u = (if u = t then thread_suspend (thread s t) else thread s u)"
    and "ks_runqueue (ep_blocked ep st t s) = ks_runqueue s"
    and "ks_buf (ep_blocked ep st t s) = ks_buf s"
  using assms ep_queue_push_rep [of "update_thread t thread_suspend (set_ep ep ((ks_ep s ep)\<lparr>ep_state := st\<rparr>) s)" ep xs t]
  by (auto simp: ep_blocked_def ep_wf_def thread_update)

lemma ep_blocked_empty:
  assumes "ep_wf s ep []"
  shows "loose (ks_tcb (ep_blocked ep st t s)) u = loose (ks_tcb s) u"
    and "list_rep (ks_tcb (ep_blocked ep st t s)) l xs = list_rep (ks_tcb s) l xs"
  using assms by (simp_all add: ep_blocked_def ep_wf_def ep_queue_push_empty)

text \<open>A call that finds exactly one thread of the other kind takes it off the queue and wakes it.\<close>

definition ep_met :: "usize \<Rightarrow> usize \<Rightarrow> usize \<Rightarrow> usize \<Rightarrow> kstate \<Rightarrow> kstate" where
  "ep_met ep reciever sender woken s =
     resume woken (update_registers reciever (\<lambda>r. r\<lparr>rg_a1 := badge (thread s sender)\<rparr>)
       (set_ipc_msg reciever (ipc_buffer_ref (thread s sender)) (set_ep ep ep_new s)))"

lemma ep_send_meets:
  assumes "ep_wf s ep [r]" and "ep_state (ks_ep s ep) = EpStRecv"
  shows "ep_send ep t s = (Ok False, ep_met ep r t r s)"
proof -
  have "ep_state (ks_ep s ep) \<noteq> EpStSend" using assms(2) by simp
  from pop_from_queue_other [OF assms(1) this] have
    "pop_from_queue ep EpStSend s = (Some r, set_ep ep ep_new s)"
    by (metis list_rep_Nil ep_new_def)
  moreover have "loose (ks_tcb s) r" using assms(1) by (auto simp: ep_wf_def intro: list_rep_single_loose)
  ultimately show ?thesis
    by (simp add: ep_send_def Let_def bind_st_def wake_up_thread_loose ep_met_def)
qed

lemma ep_recv_meets:
  assumes "ep_wf s ep [r]" and "ep_state (ks_ep s ep) = EpStSend"
  shows "ep_recv ep t s = (Ok False, ep_met ep t r r s)"
proof -
  have "ep_state (ks_ep s ep) \<noteq> EpStRecv" using assms(2) by simp
  from pop_from_queue_other [OF assms(1) this] have
    "pop_from_queue ep EpStRecv s = (Some r, set_ep ep ep_new s)"
    by (metis list_rep_Nil ep_new_def)
  moreover have "loose (ks_tcb s) r" using assms(1) by (auto simp: ep_wf_def intro: list_rep_single_loose)
  ultimately show ?thesis
    by (simp add: ep_recv_def Let_def bind_st_def wake_up_thread_loose ep_met_def)
qed

lemma ep_met_wf: "ep_wf (ep_met ep r t w s) ep [] \<and> ep_view_of (ep_met ep r t w s) ep [] = VIdle"
  by (simp add: ep_met_def ep_wf_def ep_view_of_def ep_new_def)

text \<open>With two or more threads of the other kind waiting, the wake-up assertion fails.\<close>

lemma ep_send_crowd:
  assumes "ep_wf s ep (r # r' # rs)" and "ep_state (ks_ep s ep) = EpStRecv"
  shows "fst (ep_send ep t s) = Panic AssertFailed"
proof -
  have "ep_state (ks_ep s ep) \<noteq> EpStSend" using assms(2) by simp
  then obtain e where "pop_from_queue ep EpStSend s = (Some r, set_ep ep e s)"
    using pop_from_queue_other [OF assms(1)] by metis
  moreover have "\<not> loose (ks_tcb s) r"
    using assms(1) by (auto simp: ep_wf_def dest: popped_item_not_loose)
  ultimately show ?thesis by (simp add: ep_send_def Let_def bind_st_def wake_up_thread_loose)
qed

lemma ep_recv_crowd:
  assumes "ep_wf s ep (r # r' # rs)" and "ep_state (ks_ep s ep) = EpStSend"
  shows "fst (ep_recv ep t s) = Panic AssertFailed"
proof -
  have "ep_state (ks_ep s ep) \<noteq> EpStRecv" using assms(2) by simp
  then obtain e where "pop_from_queue ep EpStRecv s = (Some r, set_ep ep e s)"
    using pop_from_queue_other [OF assms(1)] by metis
  moreover have "\<not> loose (ks_tcb s) r"
    using assms(1) by (auto simp: ep_wf_def dest: popped_item_not_loose)
  ultimately show ?thesis by (simp add: ep_recv_def Let_def bind_st_def wake_up_thread_loose)
qed

lemma ep_view_cases:
  assumes "ep_wf s ep xs"
  obtains (idle) "xs = []" "ep_state (ks_ep s ep) = EpStIdel" "ep_view_of s ep xs = VIdle"
    | (send) x ys where "xs = x # ys" "ep_state (ks_ep s ep) = EpStSend" "ep_view_of s ep xs = VSend xs"
    | (recv) x ys where "xs = x # ys" "ep_state (ks_ep s ep) = EpStRecv" "ep_view_of s ep xs = VRecv xs"
  using assms by (cases "ep_state (ks_ep s ep)"; cases xs) (auto simp: ep_wf_def ep_view_of_def)

lemma ep_blocked_view:
  "ep_wf s ep xs \<Longrightarrow> loose (ks_tcb s) t \<Longrightarrow> t \<notin> set xs \<Longrightarrow> st \<noteq> EpStIdel \<Longrightarrow>
     ep_view_of (ep_blocked ep st t s) ep (xs @ [t])
       = (if st = EpStSend then VSend (xs @ [t]) else VRecv (xs @ [t]))"
  by (cases st) (simp_all add: ep_view_of_def ep_blocked_facts)

definition ep_simulated :: "kstate \<Rightarrow> usize \<Rightarrow> usize list \<Rightarrow> usize \<Rightarrow> ep_call \<Rightarrow> bool kres \<times> kstate \<Rightarrow> bool" where
  "ep_simulated s ep xs t call out \<longleftrightarrow>
     (case fst out of
        Ok b \<Rightarrow> \<exists>ys r. ep_wf (snd out) ep ys
                  \<and> ep_step (ep_view_of s ep xs) call r (ep_view_of (snd out) ep ys) \<and> (b \<longleftrightarrow> r = Waits)
      | Panic p \<Rightarrow> p = AssertFailed \<and> (\<not> loose (ks_tcb s) t \<or> 2 \<le> length xs)
      | _ \<Rightarrow> False)"

lemma ep_simulated_blocks:
  assumes "ep_wf s ep xs" and "t \<notin> set xs" and "st \<noteq> EpStIdel"
    and "ep_step (ep_view_of s ep xs) call Waits (if st = EpStSend then VSend (xs @ [t]) else VRecv (xs @ [t]))"
  shows "ep_simulated s ep xs t call
     (if loose (ks_tcb s) t then (Ok True, ep_blocked ep st t s) else (Panic AssertFailed, s'))"
  using assms ep_blocked_facts(1) [of s ep xs t st] ep_blocked_view [of s ep xs t st]
  by (auto simp: ep_simulated_def intro!: exI [of _ "xs @ [t]"] exI [of _ Waits])

lemma ep_simulated_meets:
  assumes "ep_step (ep_view_of s ep xs) call (Meets w) VIdle"
  shows "ep_simulated s ep xs t call (Ok False, ep_met ep r t' w s)"
  using assms ep_met_wf [of ep r t' w s]
  by (auto simp: ep_simulated_def intro!: exI [of _ "[]"] exI [of _ "Meets w"])

lemma ep_simulated_crowd:
  "fst out = Panic AssertFailed \<Longrightarrow> 2 \<le> length xs \<Longrightarrow> ep_simulated s ep xs t call out"
  by (simp add: ep_simulated_def)



section \<open>Endpoints: what a rendezvous transfers\<close>

lemma run_queue_cong:
  "ks_runqueue t = ks_runqueue s \<Longrightarrow> (\<And>x. item_next (ks_tcb t x) = item_next (ks_tcb s x)) \<Longrightarrow>
     run_queue t xs = run_queue s xs"
  by (simp add: run_queue_def list_rep_cong [of xs "ks_tcb t" "ks_tcb s"])


lemma ep_met_facts:
  assumes "r \<noteq> t"
  shows "rg_a1 (registers (thread (ep_met ep r t w s) r)) = badge (thread s t)"
    and "ipc_buffer_ref (thread s t) = Some bt \<Longrightarrow> ipc_buffer_ref (thread s r) = Some br \<Longrightarrow>
      ks_buf (ep_met ep r t w s) = (ks_buf s)(br := ks_buf s bt)"
    and "status (thread (ep_met ep r t w s) w) = Runnable"
    and "run_queue s rq \<Longrightarrow> loose (ks_tcb s) w \<Longrightarrow> w \<notin> set rq \<Longrightarrow> run_queue (ep_met ep r t w s) (rq @ [w])"
proof -
  let ?s = "update_registers r (\<lambda>x. x\<lparr>rg_a1 := badge (thread s t)\<rparr>)
       (set_ipc_msg r (ipc_buffer_ref (thread s t)) (set_ep ep ep_new s))"
  have "run_queue ?s rq = run_queue s rq" by (simp add: run_queue_def)
  then show "run_queue (ep_met ep r t w s) (rq @ [w])"
    if "run_queue s rq" "loose (ks_tcb s) w" "w \<notin> set rq"
    using that run_queue_resume [of ?s rq w] by (simp add: ep_met_def)
qed (use assms in \<open>simp_all add: ep_met_def thread_resume_def set_ipc_msg_def\<close>)

text \<open>
  C5: When the receiver waits first, it blocks, and the later send hands it the badge of the
  capability used and the whole message buffer, makes it runnable, and leaves the endpoint idle.
\<close>

theorem rendezvous_recv_first:
  assumes "ep_wf s (get_ep c) []" and "r \<noteq> t" and "loose (ks_tcb s) r"
    and "run_queue s rq" and "r \<notin> set rq"
    and "ipc_buffer_ref (thread s t) = Some bt" and "ipc_buffer_ref (thread s r) = Some br"
    and "get_ep c' = get_ep c"
  shows "\<exists>s1 s2. ep_cap_recv c r s = (Ok True, s1) \<and> status (thread s1 r) = Blocked
    \<and> run_queue s1 rq
    \<and> ep_cap_send c' t s1 = (Ok False, s2)
    \<and> rg_a1 (registers (thread s2 r)) = get_badge c' \<and> ks_buf s2 br = ks_buf s bt
    \<and> status (thread s2 r) = Runnable \<and> run_queue s2 (rq @ [r]) \<and> ep_wf s2 (get_ep c) []"
proof -
  let ?ep = "get_ep c"
  let ?s1 = "ep_blocked ?ep EpStRecv r s"
  let ?t1 = "update_thread t (\<lambda>i. i\<lparr>badge := get_badge c'\<rparr>) ?s1"
  let ?s2 = "ep_met ?ep r t r ?t1"
  have idle: "ep_state (ks_ep s ?ep) = EpStIdel" using assms(1) by (simp add: ep_wf_def)
  note bl = ep_blocked_facts [OF assms(1,3), of EpStRecv, simplified]
  note em = ep_blocked_empty [OF assms(1), of EpStRecv r]
  have wf1: "ep_wf ?t1 ?ep [r]" "ep_state (ks_ep ?t1 ?ep) = EpStRecv"
    using bl(1,2) by (simp_all add: ep_wf_def)
  have rq1: "run_queue ?s1 rq" using assms(4) by (simp add: run_queue_def em bl)
  have "ep_cap_recv c r s = (Ok True, ?s1)"
    using assms(3) idle by (simp add: ep_cap_recv_def ep_recv_blocks)
  moreover have "ep_cap_send c' t ?s1 = (Ok False, ?s2)"
    using ep_send_meets [OF wf1, of t] assms(8) by (simp add: ep_cap_send_def bind_st_def)
  moreover have "run_queue ?s2 (rq @ [r])"
    by (rule ep_met_facts(4)) (use assms rq1 in \<open>simp_all add: em\<close>)
  moreover have "rg_a1 (registers (thread ?s2 r)) = get_badge c'" "status (thread ?s2 r) = Runnable"
    using ep_met_facts(1,3) [OF assms(2)] by simp_all
  moreover have "ks_buf ?s2 = (ks_buf s)(br := ks_buf s bt)"
    by (subst ep_met_facts(2) [OF assms(2), of _ bt br])
      (use assms in \<open>simp_all add: bl ipc_buffer_ref_def thread_suspend_def\<close>)
  ultimately show ?thesis
    using rq1 ep_met_wf by (simp add: bl thread_suspend_def)
qed

text \<open>
  C6: When the sender waits first, it blocks, and the later receive obtains the same badge and
  message buffer, makes the sender runnable, and leaves the endpoint idle.
\<close>

theorem rendezvous_send_first:
  assumes "ep_wf s (get_ep c) []" and "r \<noteq> t" and "loose (ks_tcb s) t"
    and "run_queue s rq" and "t \<notin> set rq"
    and "ipc_buffer_ref (thread s t) = Some bt" and "ipc_buffer_ref (thread s r) = Some br"
    and "get_ep c' = get_ep c"
  shows "\<exists>s1 s2. ep_cap_send c' t s = (Ok True, s1) \<and> status (thread s1 t) = Blocked
    \<and> run_queue s1 rq
    \<and> ep_cap_recv c r s1 = (Ok False, s2)
    \<and> rg_a1 (registers (thread s2 r)) = get_badge c' \<and> ks_buf s2 br = ks_buf s bt
    \<and> status (thread s2 t) = Runnable \<and> run_queue s2 (rq @ [t]) \<and> ep_wf s2 (get_ep c) []"
proof -
  let ?ep = "get_ep c"
  let ?s0 = "update_thread t (\<lambda>i. i\<lparr>badge := get_badge c'\<rparr>) s"
  let ?s1 = "ep_blocked ?ep EpStSend t ?s0"
  let ?s2 = "ep_met ?ep r t t ?s1"
  have wf0: "ep_wf ?s0 ?ep []" and l0: "loose (ks_tcb ?s0) t" using assms by (simp_all add: ep_wf_def)
  have idle: "ep_state (ks_ep ?s0 ?ep) = EpStIdel" using assms(1) by (simp add: ep_wf_def)
  note bl = ep_blocked_facts [OF wf0 l0, of EpStSend, simplified]
  note em = ep_blocked_empty [OF wf0, of EpStSend t]
  have rq1: "run_queue ?s1 rq" using assms(4) by (simp add: run_queue_def em bl)
  have "ep_cap_send c' t s = (Ok True, ?s1)"
    using l0 idle assms(8) by (simp add: ep_cap_send_def bind_st_def ep_send_blocks)
  moreover have "ep_cap_recv c r ?s1 = (Ok False, ?s2)"
    using ep_recv_meets [OF bl(1,2)] by (simp add: ep_cap_recv_def)
  moreover have "run_queue ?s2 (rq @ [t])"
    by (rule ep_met_facts(4)) (use assms rq1 in \<open>simp_all add: em\<close>)
  moreover have "rg_a1 (registers (thread ?s2 r)) = get_badge c'" "status (thread ?s2 t) = Runnable"
    using ep_met_facts(1,3) [OF assms(2)] by (simp_all add: bl thread_suspend_def)
  moreover have "ks_buf ?s2 = (ks_buf s)(br := ks_buf s bt)"
    by (subst ep_met_facts(2) [OF assms(2), of _ bt br])
      (use assms in \<open>simp_all add: bl ipc_buffer_ref_def thread_suspend_def\<close>)
  ultimately show ?thesis
    using rq1 ep_met_wf by (simp add: bl thread_suspend_def)
qed

section \<open>Notifications: no signal is lost\<close>

text \<open>
  The contract: a notification either has a (possibly empty) queue of waiting
  threads, or a pending word in which the badges of the signals are merged.
\<close>

datatype ntfn_view = NWaiting "usize list" | NPending u64

datatype ntfn_call = Signal u64 | Wait usize

datatype ntfn_outcome = Noted | Wakes usize | Takes u64 | Sleeps

inductive ntfn_step :: "ntfn_view \<Rightarrow> ntfn_call \<Rightarrow> ntfn_outcome \<Rightarrow> ntfn_view \<Rightarrow> bool" where
  signal_first: "ntfn_step (NWaiting []) (Signal v) Noted (NPending v)"
| signal_more: "ntfn_step (NPending b) (Signal v) Noted (NPending (b OR v))"
| signal_wake: "ntfn_step (NWaiting (t # ts)) (Signal v) (Wakes t) (NWaiting ts)"
| wait_take: "ntfn_step (NPending b) (Wait t) (Takes b) (NWaiting [])"
| wait_sleep: "ntfn_step (NWaiting ts) (Wait t) Sleeps (NWaiting (ts @ [t]))"

inductive_simps ntfn_step_simps:
  "ntfn_step (NWaiting ts) c out v" "ntfn_step (NPending b) c out v"

definition ntfn_wf :: "kstate \<Rightarrow> usize \<Rightarrow> usize list \<Rightarrow> bool" where
  "ntfn_wf s np xs \<longleftrightarrow>
     list_rep (ks_tcb s) (wait_queue (ks_ntfn s np)) xs
     \<and> (if bit_is_set (ks_ntfn s np) then xs = [] else notify_bit (ks_ntfn s np) = 0)"

definition ntfn_view_of :: "kstate \<Rightarrow> usize \<Rightarrow> usize list \<Rightarrow> ntfn_view" where
  "ntfn_view_of s np xs =
     (if bit_is_set (ks_ntfn s np) then NPending (notify_bit (ks_ntfn s np)) else NWaiting xs)"

lemma send_signal_noted:
  assumes "ntfn_wf s np []"
  shows "\<exists>s'. send_signal np v s = (Ok (), s') \<and> ntfn_wf s' np []
    \<and> ntfn_view_of s' np [] = NPending (notify_bit (ks_ntfn s np) OR v)
    \<and> ks_tcb s' = ks_tcb s"
  using assms list_rep_pop_empty [of "ks_tcb s" "wait_queue (ks_ntfn s np)"]
  by (intro exI [of _ "snd (send_signal np v s)"])
    (simp add: send_signal_def ntfn_wf_def ntfn_view_of_def Let_def)

lemma send_signal_wakes:
  assumes "ntfn_wf s np [t]"
  shows "\<exists>s'. send_signal np v s = (Ok (), s') \<and> ntfn_wf s' np [] \<and> ntfn_view_of s' np [] = NWaiting []
    \<and> rg_a1 (registers (thread s' t)) = v \<and> status (thread s' t) = Runnable
    \<and> (\<forall>rq. run_queue s rq \<longrightarrow> t \<notin> set rq \<longrightarrow> run_queue s' (rq @ [t]))"
proof -
  let ?n = "ks_ntfn s np"
  have rep: "list_rep (ks_tcb s) (wait_queue ?n) [t]" and nb: "\<not> bit_is_set ?n" "notify_bit ?n = 0"
    using assms by (auto simp: ntfn_wf_def split: if_splits)
  have pop: "ll_pop (ks_tcb s) (wait_queue ?n) = (Some t, ll_new)"
    using list_rep_pop [OF rep] by (metis list_rep_Nil prod.collapse)
  let ?s = "update_registers t (\<lambda>r. r\<lparr>rg_a1 := v\<rparr>) (set_ntfn np (?n\<lparr>wait_queue := ll_new\<rparr>) s)"
  have loose: "loose (ks_tcb ?s) t" using list_rep_single_loose [OF rep] by simp
  have "send_signal np v s = (Ok (), resume t ?s)"
    using loose by (simp add: send_signal_def pop Let_def wake_up_thread_loose)
  moreover have "run_queue (resume t ?s) (rq @ [t])" if "run_queue s rq" "t \<notin> set rq" for rq
    using run_queue_resume [OF _ loose that(2)] that(1) by (simp add: run_queue_def)
  ultimately show ?thesis
    using nb by (simp add: ntfn_wf_def ntfn_view_of_def thread_resume_def)
qed

lemma send_signal_crowd:
  assumes "ntfn_wf s np (t # t' # ts)"
  shows "fst (send_signal np v s) = Panic AssertFailed"
proof -
  let ?n = "ks_ntfn s np"
  have rep: "list_rep (ks_tcb s) (wait_queue ?n) (t # t' # ts)" using assms by (simp add: ntfn_wf_def)
  obtain q where "ll_pop (ks_tcb s) (wait_queue ?n) = (Some t, q)"
    using list_rep_pop(1) [OF rep] by (metis prod.collapse)
  moreover have "\<not> loose (ks_tcb s) t" by (rule popped_item_not_loose(2) [OF rep])
  ultimately show ?thesis by (simp add: send_signal_def Let_def wake_up_thread_loose)
qed

lemma wait_signal_takes:
  assumes "ntfn_wf s np []" and "bit_is_set (ks_ntfn s np)"
  shows "\<exists>s'. wait_signal np t s = (Ok False, s') \<and> ntfn_wf s' np [] \<and> ntfn_view_of s' np [] = NWaiting []
    \<and> rg_a1 (registers (thread s' t)) = notify_bit (ks_ntfn s np)
    \<and> status (thread s' t) = status (thread s t)"
  using assms by (intro exI [of _ "snd (wait_signal np t s)"])
    (simp add: wait_signal_def ntfn_wf_def ntfn_view_of_def Let_def)

lemma wait_signal_sleeps:
  assumes "ntfn_wf s np xs" and "\<not> bit_is_set (ks_ntfn s np)" and "loose (ks_tcb s) t" and "t \<notin> set xs"
  shows "\<exists>s'. wait_signal np t s = (Ok True, s') \<and> ntfn_wf s' np (xs @ [t])
    \<and> ntfn_view_of s' np (xs @ [t]) = NWaiting (xs @ [t])
    \<and> status (thread s' t) = Blocked
    \<and> ks_runqueue s' = ks_runqueue s \<and> (xs = [] \<longrightarrow> (\<forall>u. item_next (ks_tcb s' u) = item_next (ks_tcb s u)))"
proof -
  let ?s = "update_thread t thread_suspend s"
  let ?l = "wait_queue (ks_ntfn s np)"
  have rep: "list_rep (ks_tcb ?s) ?l xs" and l: "loose (ks_tcb ?s) t" using assms by (simp_all add: ntfn_wf_def)
  have "item_next (fst (ll_push (ks_tcb ?s) ?l t) u) = item_next (ks_tcb s u)" if "xs = []" for u
    using rep that by (simp add: list_rep_Nil ll_push_def ll_new_def)
  then show ?thesis
    using list_rep_push [OF rep l assms(4)] assms
    by (intro exI [of _ "snd (wait_signal np t s)"])
      (simp add: wait_signal_def ntfn_wf_def ntfn_view_of_def block_thread_loose bind_st_def Let_def
        case_prod_beta thread_def thread_suspend_def, simp add: update_thread_def thread_suspend_def)
qed

lemma wait_signal_stale:
  "\<not> bit_is_set (ks_ntfn s np) \<Longrightarrow> \<not> loose (ks_tcb s) t \<Longrightarrow> wait_signal np t s = (Panic AssertFailed, s)"
  by (simp add: wait_signal_def block_thread_loose bind_st_def)



text \<open>A sequence of signals, as threads send them one after the other.\<close>

fun signal_all :: "usize \<Rightarrow> u64 list \<Rightarrow> unit kprog" where
  "signal_all np [] = pure_st ()"
| "signal_all np (v # vs) = bind_st (send_signal np v) (\<lambda>_. signal_all np vs)"

lemma signal_all_noted:
  assumes "ntfn_wf s np []"
  shows "\<exists>s'. signal_all np vs s = (Ok (), s') \<and> ntfn_wf s' np [] \<and> ks_tcb s' = ks_tcb s
    \<and> notify_bit (ks_ntfn s' np) = fold (\<lambda>v b. b OR v) vs (notify_bit (ks_ntfn s np))
    \<and> (bit_is_set (ks_ntfn s' np) \<longleftrightarrow> vs \<noteq> [] \<or> bit_is_set (ks_ntfn s np))"
  using assms
proof (induction vs arbitrary: s)
  case (Cons v vs)
  obtain s1 where s1: "send_signal np v s = (Ok (), s1)" "ntfn_wf s1 np []" "ks_tcb s1 = ks_tcb s"
    "ntfn_view_of s1 np [] = NPending (notify_bit (ks_ntfn s np) OR v)"
    using send_signal_noted [OF Cons.prems] by blast
  then have "notify_bit (ks_ntfn s1 np) = notify_bit (ks_ntfn s np) OR v" "bit_is_set (ks_ntfn s1 np)"
    by (auto simp: ntfn_view_of_def split: if_splits)
  with s1 Cons.IH [of s1] show ?case by (auto simp: bind_st_def)
qed simp

text \<open>
  C22: Signals that find no waiter are not lost: a later wait returns at once with the bitwise
  or of all of them and clears the notification.
\<close>

theorem signals_accumulate:
  assumes "ntfn_wf s np []" and "vs \<noteq> []"
  shows "\<exists>s1 s2. signal_all np vs s = (Ok (), s1) \<and> wait_signal np t s1 = (Ok False, s2)
    \<and> rg_a1 (registers (thread s2 t)) = fold (\<lambda>v b. b OR v) vs (notify_bit (ks_ntfn s np))
    \<and> ntfn_view_of s2 np [] = NWaiting []"
  using signal_all_noted [OF assms(1), of vs] assms(2) wait_signal_takes by metis

text \<open>
  C23: A thread that waits on a clear notification blocks, and the next signal delivers its bits
  to the thread and makes it runnable.
\<close>

theorem wait_then_signal:
  assumes "ntfn_wf s np []" and "\<not> bit_is_set (ks_ntfn s np)" and "loose (ks_tcb s) t"
    and "run_queue s rq" and "t \<notin> set rq"
  shows "\<exists>s1 s2. wait_signal np t s = (Ok True, s1) \<and> status (thread s1 t) = Blocked
    \<and> send_signal np v s1 = (Ok (), s2) \<and> rg_a1 (registers (thread s2 t)) = v
    \<and> status (thread s2 t) = Runnable \<and> run_queue s2 (rq @ [t])
    \<and> ntfn_view_of s2 np [] = NWaiting []"
proof -
  obtain s1 where s1: "wait_signal np t s = (Ok True, s1)" "ntfn_wf s1 np [t]" "status (thread s1 t) = Blocked"
    "ks_runqueue s1 = ks_runqueue s" "\<And>u. item_next (ks_tcb s1 u) = item_next (ks_tcb s u)"
    using wait_signal_sleeps [OF assms(1-3)] by auto
  then have "run_queue s1 rq" using assms(4) run_queue_cong by blast
  with s1 send_signal_wakes [OF s1(2), of v] assms(5) show ?thesis by metis
qed

end
