(* ===== verification/CSpace.thy ===== *)
theory CSpace
  imports Mdb
begin

text \<open>
  Capability nodes (\<^verbatim>\<open>kernel/src/capability/cnode.rs\<close>): a CNode capability
  with radix \<open>r\<close> stands for an array of \<open>2 ^ r\<close> slots of 32 bytes. A capability
  pointer is resolved by consuming \<open>r\<close> bits per node, from the top of the given
  depth, until the bits are used up or the slot met is not a CNode. The slots are
  named by their address. The loop has no bound of its own: it is modelled by a
  partial function whose undefined value is a loop that never returns.
\<close>

section \<open>Nodes and slots\<close>

definition capacity :: "CapabilityData \<Rightarrow> usize kres" where
  "capacity c = pow2_ck (unat (radix c))"

definition cnode_base :: "CapabilityData \<Rightarrow> usize" where
  "cnode_base c = phys_to_kva (get_address c)"

text \<open>\<open>ptr.add(i)\<close> on a pointer to slots.\<close>

definition slot_addr :: "usize \<Rightarrow> nat \<Rightarrow> usize" where
  "slot_addr base i = base + of_nat (32 * i)"

definition index_slot :: "CapabilityData \<Rightarrow> usize \<Rightarrow> usize \<Rightarrow> usize kres" where
  "index_slot c len i =
     (if i < len then Ok (slot_addr (cnode_base c) (unat i)) else Panic IndexOutOfBounds)"

definition write_slot :: "CapabilityData \<Rightarrow> CapabilityData \<Rightarrow> usize \<Rightarrow> unit kprog" where
  "write_slot c new index =
     bind_st (lift_st (capacity c)) (\<lambda>len.
     bind_st (lift_st (ensure (\<not> len \<le> index) (kerr OutOfMemory))) (\<lambda>_.
     bind_st (lift_st (index_slot c len index)) (\<lambda>slot.
     bind_st (\<lambda>s. (ensure (slot_at s slot = None) (kerr NotEmptySlot), s)) (\<lambda>_.
     modify_st (write_entry slot (new_with_rawcap new))))))"

definition slots_none :: "kstate \<Rightarrow> usize \<Rightarrow> nat \<Rightarrow> bool" where
  "slots_none s base n = list_all (\<lambda>i. slot_at s (slot_addr base i) = None) [0..<n]"

definition get_writable :: "CapabilityData \<Rightarrow> u32 \<Rightarrow> u32 \<Rightarrow> kstate \<Rightarrow> usize kres" where
  "get_writable c num index s =
     bind_run (capacity c) (\<lambda>len.
     bind_run (ensure (ucast num + ucast index < len) (kerr InvalidOperation)) (\<lambda>_.
     let first = slot_addr (cnode_base c) (unat index)
     in bind_run (ensure (slots_none s first (unat num)) (kerr NotEmptySlot)) (\<lambda>_.
        if num = 0 then Panic IndexOutOfBounds else Ok first)))"

section \<open>Resolving a capability pointer\<close>

definition lookup_entry_mut1 :: "CapabilityData \<Rightarrow> usize \<Rightarrow> u32 \<Rightarrow> (usize \<times> u32) kres" where
  "lookup_entry_mut1 c capptr depth_bits =
     bind_run (ok_or (checked_sub depth_bits (radix c)) (kerr OutOfMemory)) (\<lambda>remain_bits.
     bind_run (capacity c) (\<lambda>len.
     bind_run (shr_ck capptr (unat remain_bits)) (\<lambda>high.
     bind_run (shl_ck 1 (unat (radix c))) (\<lambda>one.
     bind_run (sub_ck one 1) (\<lambda>low.
     bind_run (index_slot c len (high AND low)) (\<lambda>entry.
     Ok (entry, remain_bits)))))))"

partial_function (option) lookup_loop ::
  "kstate \<Rightarrow> CapabilityData \<Rightarrow> usize \<Rightarrow> u32 \<Rightarrow> usize kres option" where
  "lookup_loop s c capptr depth_bits =
     (case lookup_entry_mut1 c capptr depth_bits of
        Ok (entry, rem) \<Rightarrow>
          (case slot_at s entry of
             None \<Rightarrow> Some (Ok entry)
           | Some e \<Rightarrow>
               if rem = 0 then Some (Ok entry)
               else (case get_cap_type (ent_cap e) of
                       Ok ty \<Rightarrow>
                         if ty \<noteq> CNode then Some (Ok entry)
                         else (case try_ref_as CNode (ent_cap e) of
                                 Ok next_cap \<Rightarrow> lookup_loop s next_cap capptr rem
                               | _ \<Rightarrow> Some (Panic UnwrapFailed))
                     | Err er \<Rightarrow> Some (Err er)
                     | Panic p \<Rightarrow> Some (Panic p)
                     | Hang \<Rightarrow> Some Hang))
      | Err er \<Rightarrow> Some (Err er)
      | Panic p \<Rightarrow> Some (Panic p)
      | Hang \<Rightarrow> Some Hang)"

declare lookup_loop.simps [code]

definition lookup_entry_mut :: "kstate \<Rightarrow> CapabilityData \<Rightarrow> usize \<Rightarrow> u32 \<Rightarrow> usize kres" where
  "lookup_entry_mut s c capptr depth_bits =
     (case lookup_loop s c capptr depth_bits of None \<Rightarrow> Hang | Some r \<Rightarrow> r)"

definition lookup_entry_mut_one_level :: "kstate \<Rightarrow> CapabilityData \<Rightarrow> usize \<Rightarrow> usize kres" where
  "lookup_entry_mut_one_level s c capptr = lookup_entry_mut s c capptr (radix c)"

definition lookup_two_entries_mut ::
  "kstate \<Rightarrow> CapabilityData \<Rightarrow> usize \<Rightarrow> u32 \<Rightarrow> usize \<Rightarrow> u32 \<Rightarrow> (usize \<times> usize) kres" where
  "lookup_two_entries_mut s c capptr depth_bits capptr2 depth_bits2 =
     bind_run (lookup_entry_mut s c capptr depth_bits) (\<lambda>entry_1.
     bind_run (lookup_entry_mut s c capptr2 depth_bits2) (\<lambda>entry_2.
     bind_run (ensure (entry_1 \<noteq> entry_2) (kerr InvalidOperation)) (\<lambda>_.
     Ok (entry_1, entry_2))))"

text \<open>
  The debug traversal visits a node slot by slot and descends into a CNode other
  than the one it is in. The nested calls are a stack of frames, each a node and
  the next slot of it. The text it prints is left out.
\<close>

partial_function (option) print_frames :: "kstate \<Rightarrow> (CapabilityData \<times> nat) list \<Rightarrow> unit kres option" where
  "print_frames s frames =
     (case frames of
        [] \<Rightarrow> Some (Ok ())
      | (c, i) # fs \<Rightarrow>
          (case capacity c of
             Ok len \<Rightarrow>
               if unat len \<le> i then print_frames s fs
               else (case slot_at s (slot_addr (cnode_base c) i) of
                       None \<Rightarrow> print_frames s ((c, Suc i) # fs)
                     | Some e \<Rightarrow>
                         (case try_ref_as CNode (ent_cap e) of
                            Ok k \<Rightarrow>
                              if get_address k = get_address c then print_frames s ((c, Suc i) # fs)
                              else print_frames s ((k, 0) # (c, Suc i) # fs)
                          | _ \<Rightarrow> print_frames s ((c, Suc i) # fs)))
           | Err er \<Rightarrow> Some (Err er)
           | Panic p \<Rightarrow> Some (Panic p)
           | Hang \<Rightarrow> Some Hang))"

declare print_frames.simps [code]

definition print_traverse :: "CapabilityData \<Rightarrow> unit kprog" where
  "print_traverse c s = ((case print_frames s [(c, 0)] of None \<Rightarrow> Hang | Some r \<Rightarrow> r), s)"

section \<open>One step of the resolution\<close>

definition cspace_slot :: "CapabilityData \<Rightarrow> nat \<Rightarrow> nat \<Rightarrow> usize" where
  "cspace_slot c p d =
     slot_addr (cnode_base c) ((p div 2 ^ (d - unat (radix c))) mod 2 ^ unat (radix c))"

lemma capacity_Ok: "unat (radix c) < 64 \<Longrightarrow> capacity c = Ok (2 ^ unat (radix c))"
  by (simp add: capacity_def pow2_ck_def)

lemma mask_ck:
  assumes "r < 64"
  shows "bind_run (shl_ck (1::usize) r) (\<lambda>one. bind_run (sub_ck one 1) f) = f (mask r)"
proof -
  have "unat ((2::usize) ^ r) = 2 ^ r" using assms by simp
  then have "(1::usize) \<le> 2 ^ r" by (simp add: word_le_nat_alt)
  then show ?thesis
    using assms by (simp add: shl_ck_def sub_ck_def push_bit_of_1 pow2_minus_1_mask)
qed

lemma high_bits_unat:
  "unat (drop_bit k (p::usize) AND mask r) = (unat p div 2 ^ k) mod 2 ^ r"
  by (simp only: and_mask_unat unat_drop_bit_eq) (simp add: drop_bit_eq_div)

lemma lookup1_Ok:
  assumes "radix c \<le> d" and "unat d < 64"
  shows "lookup_entry_mut1 c p d = Ok (cspace_slot c (unat p) (unat d), d - radix c)"
proof -
  let ?r = "unat (radix c)" and ?k = "unat (d - radix c)"
  have r: "?r < 64" and k: "?k < 64" and ksub: "?k = unat d - ?r"
    using assms by (simp_all add: word_le_nat_alt unat_sub)
  have i: "unat (drop_bit ?k p AND mask ?r) = (unat p div 2 ^ ?k) mod 2 ^ ?r"
    by (rule high_bits_unat)
  then have lt: "drop_bit ?k p AND mask ?r < 2 ^ ?r"
    using r by (simp add: word_less_nat_alt)
  have shr: "(shr_ck p ?k :: usize kres) = Ok (drop_bit ?k p)" using k by (simp add: shr_ck_def)
  have ix: "index_slot c (2 ^ ?r) (drop_bit ?k p AND mask ?r) = Ok (cspace_slot c (unat p) (unat d))"
    using lt i ksub by (simp add: index_slot_def cspace_slot_def)
  have cs: "checked_sub d (radix c) = Some (d - radix c)" using assms(1) by (simp add: checked_sub_def)
  show ?thesis
    by (simp only: lookup_entry_mut1_def cs ok_or_def option.case bind_run.simps capacity_Ok [OF r] shr
        mask_ck [OF r] ix)
qed

lemma lookup1_short:
  "\<not> radix c \<le> d \<Longrightarrow> lookup_entry_mut1 c p d = Err (kerr OutOfMemory)"
  by (simp add: lookup_entry_mut1_def checked_sub_def ok_or_def)

section \<open>The path a capability pointer denotes\<close>

text \<open>
  The reference definition, over natural numbers: with \<open>d\<close> bits left, a node of
  radix \<open>r\<close> takes the next \<open>r\<close> bits of the pointer as the index of a slot. The
  walk ends at an empty slot, at the last bit, or at a capability that is not a
  CNode.
\<close>

definition walk_ends :: "kstate \<Rightarrow> usize \<Rightarrow> nat \<Rightarrow> bool" where
  "walk_ends s a rem \<longleftrightarrow>
     (case slot_at s a of
        None \<Rightarrow> True
      | Some e \<Rightarrow> rem = 0 \<or> (\<exists>k. get_cap_type (ent_cap e) = Ok k \<and> k \<noteq> CNode))"

inductive resolves :: "kstate \<Rightarrow> CapabilityData \<Rightarrow> nat \<Rightarrow> nat \<Rightarrow> usize \<Rightarrow> bool" for s where
  here: "unat (radix c) \<le> d \<Longrightarrow> walk_ends s (cspace_slot c p d) (d - unat (radix c)) \<Longrightarrow>
     resolves s c p d (cspace_slot c p d)"
| down: "unat (radix c) < d \<Longrightarrow> slot_at s (cspace_slot c p d) = Some e \<Longrightarrow>
     get_cap_type (ent_cap e) = Ok CNode \<Longrightarrow> resolves s (ent_cap e) p (d - unat (radix c)) a \<Longrightarrow>
     resolves s c p d a"

lemma lookup_loop_step:
  assumes "unat d < 64"
  shows "lookup_loop s c p d =
     (if \<not> radix c \<le> d then Some (Err (kerr OutOfMemory))
      else let a = cspace_slot c (unat p) (unat d); rem = d - radix c
        in case slot_at s a of
             None \<Rightarrow> Some (Ok a)
           | Some e \<Rightarrow>
               if rem = 0 then Some (Ok a)
               else (case get_cap_type (ent_cap e) of
                       Ok k \<Rightarrow> if k \<noteq> CNode then Some (Ok a) else lookup_loop s (ent_cap e) p rem
                     | Err er \<Rightarrow> Some (Err er)
                     | Panic q \<Rightarrow> Some (Panic q)
                     | Hang \<Rightarrow> Some Hang))"
  by (subst lookup_loop.simps)
    (auto simp: lookup1_short lookup1_Ok assms try_ref_as_def ensure_def split: option.splits run.splits)

lemma get_cap_type_total: "get_cap_type c \<noteq> Panic q" "get_cap_type c \<noteq> Hang"
  by (simp_all add: get_cap_type_def cap_try_from_u8_def map_err_def cap_type_try_from_def)

lemma resolves_lookup:
  "resolves s c p' d' a \<Longrightarrow> p' = unat p \<Longrightarrow> d' = unat d \<Longrightarrow> d' < 64 \<Longrightarrow> lookup_loop s c p d = Some (Ok a)"
proof (induction arbitrary: d rule: resolves.induct)
  case (here c d' p')
  then have le: "radix c \<le> d" and rem: "(d - radix c = 0) = (unat d - unat (radix c) = 0)"
    by (auto simp: word_le_nat_alt word_unat_eq_iff [of d "radix c"])
  show ?case
    using here le word_unat_eq_iff [of d "radix c"]
    by (subst lookup_loop_step) (auto simp: Let_def walk_ends_def rem split: option.splits)
next
  case (down c d' p' e a)
  then have le: "radix c \<le> d" and ne: "d - radix c \<noteq> 0" and sub: "unat (d - radix c) = unat d - unat (radix c)"
    by (auto simp: word_le_nat_alt unat_sub)
  have "lookup_loop s (ent_cap e) p (d - radix c) = Some (Ok a)"
    using down.IH [of "d - radix c"] down.prems sub by simp
  then show ?case
    using down le ne by (subst lookup_loop_step) (auto simp: Let_def)
qed

text \<open>
  Whenever the loop returns, it returns the slot of the reference definition or
  an error, as long as the depth is below the width of a pointer.
\<close>

lemma lookup_outcome:
  assumes "lookup_loop s c p d = Some y"
  shows "unat d < 64 \<longrightarrow> (case y of Ok a \<Rightarrow> resolves s c (unat p) (unat d) a | Err _ \<Rightarrow> True | _ \<Rightarrow> False)"
proof (rule lookup_loop.raw_induct [OF _ assms, where P =
      "\<lambda>s c p d y. unat d < 64 \<longrightarrow> (case y of Ok a \<Rightarrow> resolves s c (unat p) (unat d) a | Err _ \<Rightarrow> True | _ \<Rightarrow> False)"])
  fix lookup s c p d y
  assume IH: "\<And>s c p d y. lookup s c p d = Some y \<Longrightarrow>
      unat d < 64 \<longrightarrow> (case y of Ok a \<Rightarrow> resolves s c (unat p) (unat d) a | Err _ \<Rightarrow> True | _ \<Rightarrow> False)"
    and body: "(case lookup_entry_mut1 c p d of
        Ok (entry, rem) \<Rightarrow>
          (case slot_at s entry of
             None \<Rightarrow> Some (Ok entry)
           | Some e \<Rightarrow>
               if rem = 0 then Some (Ok entry)
               else (case get_cap_type (ent_cap e) of
                       Ok ty \<Rightarrow>
                         if ty \<noteq> CNode then Some (Ok entry)
                         else (case try_ref_as CNode (ent_cap e) of
                                 Ok next_cap \<Rightarrow> lookup s next_cap p rem
                               | _ \<Rightarrow> Some (Panic UnwrapFailed))
                     | Err er \<Rightarrow> Some (Err er)
                     | Panic p \<Rightarrow> Some (Panic p)
                     | Hang \<Rightarrow> Some Hang))
      | Err er \<Rightarrow> Some (Err er)
      | Panic p \<Rightarrow> Some (Panic p)
      | Hang \<Rightarrow> Some Hang) = Some y"
  show "unat d < 64 \<longrightarrow> (case y of Ok a \<Rightarrow> resolves s c (unat p) (unat d) a | Err _ \<Rightarrow> True | _ \<Rightarrow> False)"
  proof (intro impI, cases "radix c \<le> d")
    case le: True
    assume d: "unat d < 64"
    let ?a = "cspace_slot c (unat p) (unat d)" and ?rem = "d - radix c"
    have rem: "unat ?rem = unat d - unat (radix c)" and le': "unat (radix c) \<le> unat d"
      using le by (simp_all add: word_le_nat_alt unat_sub)
    note eq = body [unfolded lookup1_Ok [OF le d] run.case prod.case]
    show "case y of Ok a \<Rightarrow> resolves s c (unat p) (unat d) a | Err _ \<Rightarrow> True | _ \<Rightarrow> False"
    proof (cases "walk_ends s ?a (unat ?rem)")
      case True
      then have "y = Ok ?a"
        using eq by (auto simp: walk_ends_def unat_eq_zero split: option.splits if_splits)
      with True rem le' show ?thesis by (simp add: resolves.here)
    next
      case False
      have ne: "?rem \<noteq> 0"
        using False by (auto simp: walk_ends_def split: option.splits)
      from False obtain e where e: "slot_at s ?a = Some e"
        by (auto simp: walk_ends_def split: option.splits)
      from ne have lt: "unat (radix c) < unat d" using rem le' by (metis diff_is_0_eq linorder_not_less unat_eq_zero)
      show ?thesis
      proof (cases "get_cap_type (ent_cap e)")
        case (Ok k)
        with False e have "k = CNode" by (auto simp: walk_ends_def)
        with Ok eq e ne have "lookup s (ent_cap e) p ?rem = Some y" by (simp add: try_ref_as_def ensure_def)
        from IH [OF this] d rem have
          "case y of Ok a \<Rightarrow> resolves s (ent_cap e) (unat p) (unat d - unat (radix c)) a | Err _ \<Rightarrow> True | _ \<Rightarrow> False"
          by (simp split: run.splits)
        then show ?thesis
          using resolves.down [OF lt e] Ok \<open>k = CNode\<close> by (auto split: run.splits)
      next
        case (Err er)
        with eq e ne show ?thesis by auto
      qed (simp_all add: get_cap_type_total)
    qed
  next
    case False
    then show "case y of Ok a \<Rightarrow> resolves s c (unat p) (unat d) a | Err _ \<Rightarrow> True | _ \<Rightarrow> False"
      using body by (auto simp: lookup1_short)
  qed
qed

section \<open>What a lookup guarantees\<close>

text \<open>
  C9: For depths below the width of a pointer, the loop that resolves a capability pointer
  returns a slot exactly when the reference definition, by recursion over the tree of CNodes
  with division and remainder in place of shifts and masks, resolves the pointer to that slot.
\<close>

theorem lookup_resolves:
  assumes "unat d < 64"
  shows "lookup_entry_mut s c p d = Ok a \<longleftrightarrow> resolves s c (unat p) (unat d) a"
proof
  assume "lookup_entry_mut s c p d = Ok a"
  then have "lookup_loop s c p d = Some (Ok a)" by (simp add: lookup_entry_mut_def split: option.splits)
  from lookup_outcome [OF this] assms show "resolves s c (unat p) (unat d) a" by simp
next
  assume "resolves s c (unat p) (unat d) a"
  then show "lookup_entry_mut s c p d = Ok a"
    using assms by (simp add: lookup_entry_mut_def resolves_lookup)
qed

text \<open>
  C11: The resolution of a capability pointer with a depth below the width of a pointer neither
  overflows nor indexes a CNode out of bounds, for every pointer and every capability space.
\<close>

theorem lookup_no_panic:
  assumes "unat d < 64"
  shows "\<not> is_panic (lookup_entry_mut s c p d)"
  using assms lookup_outcome [of s c p d]
  by (auto simp: lookup_entry_mut_def is_panic_def split: option.splits run.splits)

text \<open>Every capability node a walk can enter consumes at least one bit.\<close>

definition nodes_consume :: "kstate \<Rightarrow> bool" where
  "nodes_consume s \<longleftrightarrow> (\<forall>a e. slot_at s a = Some e \<longrightarrow> get_cap_type (ent_cap e) = Ok CNode \<longrightarrow> radix (ent_cap e) \<noteq> 0)"

lemma lookup_loop_returns:
  assumes "nodes_consume s" and "radix c \<noteq> 0" and "unat d < 64"
  shows "\<exists>y. lookup_loop s c p d = Some y"
  using assms(2,3)
proof (induction "unat d" arbitrary: c d rule: less_induct)
  case less
  show ?case
  proof (cases "radix c \<le> d")
    case True
    then have "unat (d - radix c) < unat d"
      using less.prems(1) unat_gt_0 [of "radix c"] by (simp add: word_le_nat_alt unat_sub)
    then have "\<exists>y. lookup_loop s c' p (d - radix c) = Some y" if "radix c' \<noteq> 0" for c'
      using less.hyps [of "d - radix c" c'] that less.prems(2) by simp
    then show ?thesis
      using assms(1) less.prems
      by (subst lookup_loop_step) (auto simp: Let_def nodes_consume_def split: option.splits run.splits)
  qed (use less.prems in \<open>simp add: lookup_loop_step\<close>)
qed


text \<open>A node of radix 0 whose only slot holds the node itself is never left.\<close>

lemma lookup_loop_self:
  assumes "lookup_loop s c p d = Some y"
  shows "\<not> (radix c = 0 \<and> 0 < unat d \<and> unat d < 64 \<and> slot_at s (cnode_base c) = Some e \<and> ent_cap e = c
            \<and> get_cap_type c = Ok CNode)"
proof (rule lookup_loop.raw_induct [OF _ assms, where P = "\<lambda>s c p d y.
    \<not> (radix c = 0 \<and> 0 < unat d \<and> unat d < 64 \<and> slot_at s (cnode_base c) = Some e \<and> ent_cap e = c
            \<and> get_cap_type c = Ok CNode)"], goal_cases)
  case (1 lookup s c p d y)
  have "lookup_entry_mut1 c p d = Ok (cnode_base c, d)" if "radix c = 0" "unat d < 64"
    using lookup1_Ok [of c d p] that by (simp add: cspace_slot_def slot_addr_def)
  moreover have "d \<noteq> 0" if "0 < unat d" using that by auto
  ultimately show ?case
    using 1(2) 1(1) [of s c p d y] by (auto simp: try_ref_as_def ensure_def)
qed

theorem lookup_self_diverges:
  assumes "radix c = 0" and "get_cap_type c = Ok CNode" and "0 < unat d" and "unat d < 64"
    and "slot_at s (cnode_base c) = Some e" and "ent_cap e = c"
  shows "lookup_entry_mut s c p d = Hang"
  using lookup_loop_self [of s c p d _ e] assms by (auto simp: lookup_entry_mut_def split: option.splits)

theorem lookup_deep_panics:
  assumes "unat (radix c) < 64" and "64 \<le> unat d - unat (radix c)"
  shows "lookup_entry_mut s c p d = Panic ArithOverflow"
proof -
  have "radix c \<le> d" and "unat (d - radix c) = unat d - unat (radix c)"
    using assms by (simp_all add: word_le_nat_alt unat_sub)
  then have "lookup_entry_mut1 c p d = Panic ArithOverflow"
    using assms by (simp add: lookup_entry_mut1_def checked_sub_def ok_or_def capacity_Ok shr_ck_def)
  then show ?thesis by (simp add: lookup_entry_mut_def lookup_loop.simps)
qed

section \<open>Slots of a node\<close>

lemma slot_addr_inj:
  assumes "slot_addr b i = slot_addr b j" and "i < 2 ^ 59" and "j < 2 ^ 59"
  shows "i = j"
proof -
  have "(of_nat (32 * i) :: usize) = of_nat (32 * j)" using assms(1) by (simp add: slot_addr_def)
  then have "(32 * i) mod 2 ^ 64 = (32 * j) mod 2 ^ 64"
    by (simp only: word_unat_eq_iff unsigned_of_nat) (simp add: take_bit_eq_mod)
  then show ?thesis using assms(2,3) by simp
qed

lemma slot_addr_add: "slot_addr (slot_addr b i) j = slot_addr b (i + j)"
  by (simp add: slot_addr_def algebra_simps)

lemma radix_room: "unat (radix c) \<le> 58 \<Longrightarrow> i < 2 ^ unat (radix c) \<Longrightarrow> i < 2 ^ 59" for i :: nat
  using power_increasing [of "unat (radix c)" 59 "2::nat"] by linarith

text \<open>
  C24: A capability written into an empty slot of a CNode is found under the index of the slot,
  and the other slots of the node keep their contents.
\<close>

theorem write_slot_lookup:
  assumes "unat (radix c) \<le> 58" and "unat i < 2 ^ unat (radix c)"
    and "slot_at s (slot_addr (cnode_base c) (unat i)) = None"
  shows "\<exists>s'. write_slot c new i s = (Ok (), s')
     \<and> lookup_entry_mut_one_level s' c i = Ok (slot_addr (cnode_base c) (unat i))
     \<and> slot_at s' (slot_addr (cnode_base c) (unat i)) = Some (new_with_rawcap new)
     \<and> (\<forall>j. j < 2 ^ unat (radix c) \<and> j \<noteq> unat i \<longrightarrow>
          slot_at s' (slot_addr (cnode_base c) j) = slot_at s (slot_addr (cnode_base c) j))"
proof -
  let ?a = "slot_addr (cnode_base c) (unat i)"
  let ?s = "write_entry ?a (new_with_rawcap new) s"
  have r: "unat (radix c) < 64" using assms(1) by simp
  have lt: "i < 2 ^ unat (radix c)" using assms(2) r by (simp add: word_less_nat_alt)
  have w: "write_slot c new i s = (Ok (), ?s)"
    using assms(3) lt by (simp add: write_slot_def capacity_Ok [OF r] index_slot_def bind_st_def not_le)
  have "cspace_slot c (unat i) (unat (radix c)) = ?a"
    using assms(2) by (simp add: cspace_slot_def)
  then have "lookup_entry_mut_one_level ?s c i = Ok ?a"
    using r by (simp add: lookup_entry_mut_one_level_def lookup_entry_mut_def lookup_loop_step Let_def)
  moreover have "slot_addr (cnode_base c) j \<noteq> ?a" if "j < 2 ^ unat (radix c)" "j \<noteq> unat i" for j
    using slot_addr_inj [of _ j "unat i"] that radix_room [OF assms(1)] assms(2) by blast
  ultimately show ?thesis using w by auto
qed

lemma write_slot_errors:
  assumes "unat (radix c) < 64"
  shows "2 ^ unat (radix c) \<le> unat i \<Longrightarrow> write_slot c new i s = (Err (kerr OutOfMemory), s)"
    and "unat i < 2 ^ unat (radix c) \<Longrightarrow> slot_at s (slot_addr (cnode_base c) (unat i)) \<noteq> None \<Longrightarrow>
      write_slot c new i s = (Err (kerr NotEmptySlot), s)"
  using assms
  by (simp_all add: write_slot_def capacity_Ok index_slot_def bind_st_def word_le_nat_alt word_less_nat_alt
      ensure_def)

lemma ucast_u32_unat: "unat (ucast (a::u32) :: usize) = unat a"
proof -
  have "unat a < 2 ^ 64" using unat_less_exp [of a] by simp
  then show ?thesis by (simp add: unsigned_ucast_eq take_bit_nat_eq_self)
qed

lemma ucast_sum_unat: "unat (ucast (a::u32) + ucast b :: usize) = unat a + unat (b::u32)"
proof -
  have "unat a + unat b < 2 ^ 64" using unat_less_exp [of a] unat_less_exp [of b] by simp
  then show ?thesis by (simp add: unat_word_ariths ucast_u32_unat)
qed

lemma slots_none_iff: "slots_none s b n \<longleftrightarrow> (\<forall>i<n. slot_at s (slot_addr b i) = None)"
  by (auto simp: slots_none_def list_all_iff)

text \<open>
  C25: The destination of a retype is accepted exactly when the number of slots is positive, the
  slots end strictly before the last one of the node and all of them are empty; the result is
  the address of the first of them.
\<close>

theorem get_writable_Ok:
  assumes "unat (radix c) < 64"
  shows "get_writable c num index s = Ok a \<longleftrightarrow>
     num \<noteq> 0 \<and> unat num + unat index < 2 ^ unat (radix c)
     \<and> (\<forall>i<unat num. slot_at s (slot_addr (cnode_base c) (unat index + i)) = None)
     \<and> a = slot_addr (cnode_base c) (unat index)"
  using assms
  by (auto simp: get_writable_def capacity_Ok Let_def word_less_nat_alt ucast_sum_unat slots_none_iff
      slot_addr_add split: if_splits)

theorem get_writable_full_refused:
  assumes "unat (radix c) < 64" and "unat num + unat index = 2 ^ unat (radix c)"
  shows "get_writable c num index s = Err (kerr InvalidOperation)"
  using assms by (simp add: get_writable_def capacity_Ok word_less_nat_alt ucast_sum_unat ensure_def)

theorem get_writable_zero_panics:
  assumes "unat (radix c) < 64" and "unat index < 2 ^ unat (radix c)"
  shows "get_writable c 0 index s = Panic IndexOutOfBounds"
proof -
  have "unat (ucast index :: usize) < 2 ^ unat (radix c)"
    using assms(2) ucast_sum_unat [of 0 index] by simp
  then show ?thesis
    using assms(1) by (simp add: get_writable_def capacity_Ok word_less_nat_alt slots_none_def Let_def)
qed

end
