(* ===== verification/Untyped_Cap.thy ===== *)
theory Untyped_Cap
  imports Ipc CSpace
begin

text \<open>
  Retyping untyped memory into kernel objects
  (\<^verbatim>\<open>kernel/src/capability/untyped.rs\<close>): the size and alignment of each kind of
  object, the initialisation of a new object, the check of the free space, the
  generator of the new capabilities, and their insertion into the destination
  CNode.
\<close>

section \<open>Objects\<close>

text \<open>The methods \<open>get_object_size\<close> of the capability types.\<close>

fun get_object_size :: "Image \<Rightarrow> CapabilityType \<Rightarrow> usize \<Rightarrow> usize kres" where
  "get_object_size im CNode user_size =
     bind_run (pow2_ck (unat (ucast user_size :: u32))) (\<lambda>n. mul_ck n 32)"
| "get_object_size im Untyped user_size = Ok user_size"
| "get_object_size im PageTable user_size = Ok PAGE_SIZE"
| "get_object_size im Page user_size = Ok PAGE_SIZE"
| "get_object_size im k user_size = Ok (img_size_of im k)"

text \<open>
  \<open>mem::align_of\<close> of the kernel objects: page tables and pages are declared with
  an alignment of 4096, the node type is an empty struct, and the others hold
  words.
\<close>

fun align_of :: "CapabilityType \<Rightarrow> usize" where
  "align_of PageTable = 4096"
| "align_of Page = 4096"
| "align_of CNode = 1"
| "align_of Untyped = 1"
| "align_of _ = 8"

text \<open>
  The methods \<open>init_object\<close>. A node keeps what its memory holds, and so does a
  page, whose type is an empty struct.
\<close>

fun init_object :: "CapabilityType \<Rightarrow> CapabilityData \<Rightarrow> unit kprog" where
  "init_object Tcb c =
     bind_st thread_new (\<lambda>i.
     modify_st (\<lambda>s. s\<lparr>ks_tcb := (ks_tcb s)(phys_to_kva (get_address c) := ListItem_new i)\<rparr>))"
| "init_object EndPoint c = modify_st (set_ep (phys_to_kva (get_address c)) ep_new)"
| "init_object Notification c = modify_st (set_ntfn (phys_to_kva (get_address c)) ntfn_new)"
| "init_object PageTable c = modify_st (zero_page_table (phys_to_kva (get_address c)))"
| "init_object _ c = pure_st ()"

section \<open>The generator of new capabilities\<close>

record CapGenerator =
  gen_num :: usize
  gen_address :: KernelVAddress
  gen_user_size :: usize
  gen_obj_size :: usize
  gen_end_address :: KernelVAddress

definition gen_new :: "usize \<Rightarrow> KernelVAddress \<Rightarrow> usize \<Rightarrow> usize \<Rightarrow> CapGenerator kres" where
  "gen_new num start_address user_size obj_size =
     bind_run (mul_ck obj_size num) (\<lambda>n.
     bind_run (add_ck start_address n) (\<lambda>end_address.
     Ok \<lparr>gen_num = num, gen_address = start_address, gen_user_size = user_size,
         gen_obj_size = obj_size, gen_end_address = end_address\<rparr>))"

definition gen_next :: "CapabilityType \<Rightarrow> CapGenerator \<Rightarrow> (CapabilityData \<times> CapGenerator) option kres" where
  "gen_next k g =
     (if gen_num g = 0 then Ok None
      else bind_run (create_cap_dep_val k (gen_address g) (gen_user_size g)) (\<lambda>dep.
           bind_run (addr_add (gen_address g) (gen_obj_size g)) (\<lambda>a.
           bind_run (sub_ck (gen_num g) 1) (\<lambda>n.
           Ok (Some (cap_new k (kva_to_phys (gen_address g)) dep,
                     g\<lparr>gen_address := a, gen_num := n\<rparr>))))))"

section \<open>Retyping\<close>

definition retype ::
  "Image \<Rightarrow> CapabilityType \<Rightarrow> CapabilityData \<Rightarrow> usize \<Rightarrow> usize \<Rightarrow> (CapabilityData \<times> CapGenerator) kres" where
  "retype im k self user_size num =
     (let dev = is_device self
      in bind_run (if dev then ensure (can_be_retyped_from_device_memory k) (kerr CanNotNewFromDeviceMemory)
                   else Ok ()) (\<lambda>_.
         let bsz = block_size self
         in bind_run (get_object_size im k user_size) (\<lambda>one.
            bind_run (mul_ck num one) (\<lambda>object_size.
            bind_run (get_free_bytes self) (\<lambda>free_bytes.
            bind_run (ok_or (checked_sub free_bytes object_size) (kerr NoMemory)) (\<lambda>_.
            bind_run (align_up (get_free_index self) (align_of k)) (\<lambda>free_idx_aligned.
            bind_run (gen_new num free_idx_aligned user_size object_size) (\<lambda>cap_generator.
            bind_run (create_cap_dep_val Untyped (gen_end_address cap_generator) bsz) (\<lambda>v.
            let self1 = self\<lparr>cap_dep_val := v\<rparr>;
                self2 = (if dev then mark_is_device self1 else self1)
            in Ok (self2, cap_generator))))))))))"

lemma gen_next_decreases:
  "gen_next k g = Ok (Some (c, g')) \<Longrightarrow> unat (gen_num g') < unat (gen_num g)"
  by (auto simp: gen_next_def sub_ck_Ok split: if_splits)

text \<open>
  The loop over the enumerated generator: each new object is initialised and its
  capability goes to the next slot of the destination.
\<close>

function insert_all :: "Image \<Rightarrow> CapabilityType \<Rightarrow> usize \<Rightarrow> usize \<Rightarrow> nat \<Rightarrow> CapGenerator \<Rightarrow> unit kprog" where
  "insert_all im k src dest i g s =
     (case gen_next k g of
        Ok None \<Rightarrow> (Ok (), s)
      | Ok (Some (c, g')) \<Rightarrow>
          (case init_object k c s of
             (Ok _, s1) \<Rightarrow> insert_all im k src dest (Suc i) g' (insert_cap im dest src c i s1)
           | (Err e, s1) \<Rightarrow> (Err e, s1)
           | (Panic p, s1) \<Rightarrow> (Panic p, s1)
           | (Hang, s1) \<Rightarrow> (Hang, s1))
      | Err e \<Rightarrow> (Err e, s)
      | Panic p \<Rightarrow> (Panic p, s)
      | Hang \<Rightarrow> (Hang, s))"
  by pat_completeness auto
termination
  by (relation "measure (\<lambda>(im, k, src, dest, i, g, s). unat (gen_num g))")
    (auto dest: gen_next_decreases)

declare insert_all.simps [simp del]

definition retype_and_insert ::
  "Image \<Rightarrow> CapabilityType \<Rightarrow> usize \<Rightarrow> CapabilityData \<Rightarrow> usize \<Rightarrow> usize \<Rightarrow> usize \<Rightarrow> unit kprog" where
  "retype_and_insert im k src self dest user_size num =
     bind_st (lift_st (retype im k self user_size num)) (\<lambda>(self', cap_gen).
     bind_st (modify_st (write_cap src self')) (\<lambda>_.
     insert_all im k src dest 0 cap_gen))"

text \<open>\<open>src\<close> is the address of the entry of the untyped capability \<open>self\<close>, which
  holds the links that new entries are inserted behind.\<close>

definition invoke_retype ::
  "Image \<Rightarrow> usize \<Rightarrow> CapabilityData \<Rightarrow> usize \<Rightarrow> usize \<Rightarrow> usize \<Rightarrow> CapabilityType \<Rightarrow> unit kprog" where
  "invoke_retype im src self dest user_size num new_type =
     (case new_type of
        Tcb \<Rightarrow> retype_and_insert im Tcb src self dest user_size num
      | CNode \<Rightarrow> retype_and_insert im CNode src self dest user_size num
      | EndPoint \<Rightarrow> retype_and_insert im EndPoint src self dest user_size num
      | Notification \<Rightarrow> retype_and_insert im Notification src self dest user_size num
      | PageTable \<Rightarrow> retype_and_insert im PageTable src self dest user_size num
      | Page \<Rightarrow> retype_and_insert im Page src self dest user_size num
      | _ \<Rightarrow> lift_st (Err (kerr UnknownCapType)))"

section \<open>Addresses of objects\<close>

lemma unat_PFX: "unat KERNEL_V_ADDR_PFX = 2 ^ 64 - 2 ^ 47"
  by (simp add: KERNEL_V_ADDR_PFX_def)

lemma kernel_addr_ge: "kernel_addr a \<longleftrightarrow> unat KERNEL_V_ADDR_PFX \<le> unat a"
proof
  assume "kernel_addr a"
  then have "KERNEL_V_ADDR_PFX \<le> a"
    using word_and_le2 [of a KERNEL_V_ADDR_PFX] by (simp add: kernel_addr_def)
  then show "unat KERNEL_V_ADDR_PFX \<le> unat a" by (simp add: word_le_nat_alt)
next
  assume le: "unat KERNEL_V_ADDR_PFX \<le> unat a"
  define x where "x = a - KERNEL_V_ADDR_PFX"
  have "unat x = unat a - unat KERNEL_V_ADDR_PFX"
    using le by (simp add: x_def word_le_nat_alt unat_sub)
  moreover from this have "unat x < 2 ^ 47"
    using unat_less_exp [of a] by (simp add: unat_PFX)
  ultimately have "unat (phys_to_kva x) = unat a" using le by (simp add: unat_phys_to_kva)
  then have "phys_to_kva x = a" by (simp add: word_unat_eq_iff)
  then show "kernel_addr a" by (metis kernel_addr_phys_to_kva)
qed

definition obj_addr :: "CapabilityData \<Rightarrow> nat" where
  "obj_addr c = unat (phys_to_kva (get_address c))"

lemma obj_addr_new: "kernel_addr a \<Longrightarrow> obj_addr (cap_new k (kva_to_phys a) d) = unat a"
proof -
  assume a: "kernel_addr a"
  have "unat (kva_to_phys a) < 2 ^ 47"
    unfolding kva_to_phys_mask take_bit_eq_mask by (simp add: and_mask_unat)
  then have "get_address (cap_new k (kva_to_phys a) d) = kva_to_phys a" by (intro get_address_new) simp
  then show ?thesis using kva_phys_id a by (simp add: obj_addr_def kernel_addr_def)
qed

section \<open>The capabilities of a generator\<close>

function gen_caps :: "CapabilityType \<Rightarrow> CapGenerator \<Rightarrow> CapabilityData list kres" where
  "gen_caps k g =
     (case gen_next k g of
        Ok None \<Rightarrow> Ok []
      | Ok (Some (c, g')) \<Rightarrow> bind_run (gen_caps k g') (\<lambda>cs. Ok (c # cs))
      | Err e \<Rightarrow> Err e
      | Panic p \<Rightarrow> Panic p
      | Hang \<Rightarrow> Hang)"
  by pat_completeness auto
termination
  by (relation "measure (\<lambda>(k, g). unat (gen_num g))") (auto dest: gen_next_decreases)

declare gen_caps.simps [simp del]

text \<open>The generator has exactly the room its end address says.\<close>

definition gen_ok :: "CapGenerator \<Rightarrow> bool" where
  "gen_ok g \<longleftrightarrow> unat (gen_end_address g) = unat (gen_address g) + unat (gen_num g) * unat (gen_obj_size g)"

lemma gen_ok_new: "gen_new num a us sz = Ok g \<Longrightarrow> gen_ok g"
  by (auto simp: gen_new_def gen_ok_def add_ck_Ok mul_ck_Ok)

lemma gen_next_step:
  assumes "gen_ok g" and "gen_num g \<noteq> 0" and "k \<noteq> Untyped"
  obtains d g' where "gen_next k g = Ok (Some (cap_new k (kva_to_phys (gen_address g)) d, g'))"
    and "unat (gen_address g') = unat (gen_address g) + unat (gen_obj_size g)"
    and "Suc (unat (gen_num g')) = unat (gen_num g)" and "gen_obj_size g' = gen_obj_size g"
    and "gen_end_address g' = gen_end_address g" and "gen_ok g'"
proof -
  let ?n = "unat (gen_num g)" and ?a = "gen_address g" and ?sz = "gen_obj_size g"
  have n: "?n \<noteq> 0" using assms(2) by (simp add: unsigned_eq_0_iff)
  obtain d where d: "create_cap_dep_val k ?a (gen_user_size g) = (Ok d :: usize kres)"
    using assms(3) by (cases k) auto
  have "unat ?a + unat ?sz \<le> unat (gen_end_address g)"
    using assms(1) n by (cases ?n) (auto simp: gen_ok_def)
  then have "unat ?a + unat ?sz < 2 ^ 64" using unat_less_exp [of "gen_end_address g"] by simp
  then have add: "(add_ck ?a ?sz :: usize kres) = Ok (?a + ?sz)" and a': "unat (?a + ?sz) = unat ?a + unat ?sz"
    by (simp_all add: add_ck_fits unat_word_ariths)
  have "1 \<le> gen_num g" using n by (simp add: word_le_nat_alt)
  then have sub: "(sub_ck (gen_num g) 1 :: usize kres) = Ok (gen_num g - 1)"
    and n': "unat (gen_num g - 1) = ?n - 1"
    by (simp_all add: sub_ck_fits unat_sub)
  let ?g = "g\<lparr>gen_address := ?a + ?sz, gen_num := gen_num g - 1\<rparr>"
  have "gen_ok ?g" using assms(1) n a' n' by (cases ?n) (auto simp: gen_ok_def)
  moreover have "gen_next k g = Ok (Some (cap_new k (kva_to_phys ?a) d, ?g))"
    using assms(2) d add sub by (simp add: gen_next_def addr_add_def)
  ultimately show thesis using that [of d ?g] a' n n' by simp
qed

definition gen_step :: "CapabilityType \<Rightarrow> CapGenerator \<Rightarrow> ((nat \<times> nat) \<times> CapGenerator) option" where
  "gen_step k g =
     (case gen_next k g of
        Ok (Some (c, g')) \<Rightarrow> Some ((unat (gen_address g), unat (gen_obj_size g)), g')
      | _ \<Rightarrow> None)"

lemma gen_step_facts:
  assumes "gen_ok g" and "gen_step k g = Some ((a, n), g')"
  shows "a = unat (gen_address g)" and "unat (gen_address g') = unat (gen_address g) + n"
    and "gen_end_address g' = gen_end_address g" and "gen_ok g'"
proof -
  obtain c where c: "gen_next k g = Ok (Some (c, g'))" and an: "a = unat (gen_address g)" "n = unat (gen_obj_size g)"
    using assms(2) by (auto simp: gen_step_def split: run.splits option.splits)
  then have "add_ck (gen_address g) (gen_obj_size g) = (Ok (gen_address g') :: usize kres)"
    and "sub_ck (gen_num g) 1 = (Ok (gen_num g') :: usize kres)"
    and eq: "gen_end_address g' = gen_end_address g" "gen_obj_size g' = gen_obj_size g"
    by (auto simp: gen_next_def addr_add_def split: if_splits)
  then have "unat (gen_address g') = unat (gen_address g) + unat (gen_obj_size g)"
    and "unat (gen_num g) = 1 + unat (gen_num g')"
    by (simp_all add: add_ck_Ok sub_ck_Ok)
  then show "a = unat (gen_address g)" "unat (gen_address g') = unat (gen_address g) + n"
    "gen_end_address g' = gen_end_address g" "gen_ok g'"
    using an eq assms(1) by (simp_all add: gen_ok_def)
qed

interpretation cap_gen: region_alloc gen_step "\<lambda>g. unat (gen_address g)" "\<lambda>g. unat (gen_end_address g)" gen_ok
proof unfold_locales
  fix g g' :: CapGenerator and k a n
  assume *: "gen_ok g" "gen_step k g = Some ((a, n), g')"
  show "a = unat (gen_address g)" "unat (gen_address g') = unat (gen_address g) + n" "gen_ok g'"
    "unat (gen_end_address g') = unat (gen_end_address g)"
    using gen_step_facts [OF *] by simp_all
qed (simp add: gen_ok_def)

text \<open>The capabilities name the regions of the allocator, in order.\<close>

lemma gen_caps_regions:
  assumes "gen_ok g" and "k \<noteq> Untyped" and "kernel_addr (gen_address g)"
  shows "\<exists>cs. gen_caps k g = Ok cs \<and> length cs = unat (gen_num g)
    \<and> map (\<lambda>c. (obj_addr c, unat (gen_obj_size g))) cs = cap_gen.regions (replicate (unat (gen_num g)) k) g
    \<and> (\<forall>j < length cs. obj_addr (cs ! j) = unat (gen_address g) + j * unat (gen_obj_size g))
    \<and> (\<forall>c \<in> set cs. cap_type c = cap_type_u8 k)"
  using assms
proof (induction "unat (gen_num g)" arbitrary: g)
  case 0
  then have "gen_num g = 0" by (simp add: unsigned_eq_0_iff)
  then show ?case by (simp add: gen_caps.simps gen_next_def)
next
  case (Suc n)
  then have "gen_num g \<noteq> 0" by auto
  from gen_next_step [OF Suc.prems(1) this Suc.prems(2)] obtain d g' where
    nx: "gen_next k g = Ok (Some (cap_new k (kva_to_phys (gen_address g)) d, g'))" and
    a: "unat (gen_address g') = unat (gen_address g) + unat (gen_obj_size g)" and
    n: "Suc (unat (gen_num g')) = unat (gen_num g)" and sz: "gen_obj_size g' = gen_obj_size g" and
    ok: "gen_ok g'"
    by metis
  have "kernel_addr (gen_address g')" using Suc.prems(3) a by (simp add: kernel_addr_ge)
  then obtain cs where cs: "gen_caps k g' = Ok cs" "length cs = unat (gen_num g')"
    "map (\<lambda>c. (obj_addr c, unat (gen_obj_size g'))) cs = cap_gen.regions (replicate (unat (gen_num g')) k) g'"
    "\<forall>j < length cs. obj_addr (cs ! j) = unat (gen_address g') + j * unat (gen_obj_size g')"
    "\<forall>c \<in> set cs. cap_type c = cap_type_u8 k"
    using Suc.hyps(1) [of g'] ok Suc.prems(2) n Suc.hyps(2) by auto
  let ?c = "cap_new k (kva_to_phys (gen_address g)) d"
  have o: "obj_addr ?c = unat (gen_address g)" using Suc.prems(3) by (rule obj_addr_new)
  have "gen_caps k g = Ok (?c # cs)" using nx cs(1) by (simp add: gen_caps.simps [of k g])
  moreover have "replicate (unat (gen_num g)) k = k # replicate (unat (gen_num g')) k" using n by (metis replicate_Suc)
  ultimately show ?case
    using cs n sz a o nx
    by (auto simp: gen_step_def nth_Cons split: nat.splits)
qed

section \<open>What a retype hands out\<close>

lemma kernel_addr_free_index [simp]: "kernel_addr (get_free_index c)"
  by (simp add: get_free_index_def)

lemma align_of_exp: "\<exists>j<64. align_of k = 2 ^ j"
proof (cases k)
  case PageTable
  have "(4096::usize) = 2 ^ 12" by simp
  with PageTable show ?thesis by (intro exI [of _ 12]) simp
next
  case Page
  have "(4096::usize) = 2 ^ 12" by simp
  with Page show ?thesis by (intro exI [of _ 12]) simp
next
  case CNode
  then show ?thesis by (intro exI [of _ 0]) simp
next
  case Untyped
  then show ?thesis by (intro exI [of _ 0]) simp
qed (auto intro: exI [of _ 3])

lemma retype_size: "retype im k self us num = Ok (self', g) \<Longrightarrow> \<exists>one. get_object_size im k us = Ok one"
  by (auto simp: retype_def Let_def)

lemma retype_facts:
  assumes "retype im k self us num = Ok (self', g)" and "k \<noteq> Untyped"
    and one: "get_object_size im k us = Ok one"
  shows "\<not> is_device self"
    and "\<exists>free_bytes. get_free_bytes self = (Ok free_bytes :: usize kres) \<and> unat num * unat one \<le> unat free_bytes"
    and "align_up (get_free_index self) (align_of k) = (Ok (gen_address g) :: usize kres)"
    and "gen_num g = num" and "gen_user_size g = us"
    and "unat (gen_obj_size g) = unat num * unat one" and "gen_ok g"
    and "get_free_index self' = gen_end_address g"
    and "get_address self' = get_address self"
    and "block_size self' = block_size self" and "\<not> is_device self'"
proof -
  have dev: "\<not> is_device self"
    using assms by (auto simp: retype_def can_be_retyped_from_device_memory_def)
  then obtain osz fb fi v where osz: "mul_ck num one = (Ok osz :: usize kres)"
    and fb: "get_free_bytes self = (Ok fb :: usize kres)"
    and cs: "checked_sub fb osz \<noteq> None"
    and fi: "align_up (get_free_index self) (align_of k) = (Ok fi :: usize kres)"
    and g: "gen_new num fi us osz = Ok g"
    and v: "create_cap_dep_val Untyped (gen_end_address g) (block_size self) = (Ok v :: usize kres)"
    and self': "self' = self\<lparr>cap_dep_val := v\<rparr>"
    using assms(1) by (auto simp: retype_def Let_def ok_or_def one split: option.splits)
  have gf: "gen_num g = num" "gen_address g = fi" "gen_user_size g = us" "gen_obj_size g = osz"
    using g by (auto simp: gen_new_def)
  have ok: "gen_ok g" using g by (rule gen_ok_new)
  have m: "unat osz = unat num * unat one" using osz by (simp add: mul_ck_Ok)
  have "unat (gen_address g) \<le> unat (gen_end_address g)" using ok by (simp add: gen_ok_def)
  moreover obtain j where "j < 64" "align_of k = 2 ^ j" using align_of_exp by blast
  then have "unat (get_free_index self) \<le> unat fi" using fi align_up_Ok(2) by metis
  ultimately have "kernel_addr (gen_end_address g)"
    using gf kernel_addr_free_index [of self] by (simp add: kernel_addr_ge)
  then have "get_free_index self' = gen_end_address g"
    using untyped_dep_val_fields(3) [OF v] kva_phys_id
    by (simp add: self' get_free_index_def kernel_addr_def)
  moreover have "\<not> is_device self'" using untyped_dep_val_fields(2) [OF v] by (simp add: self' is_device_def)
  moreover have "block_size self' = block_size self"
  proof -
    have "unat (v AND 0x3f) = unat (cap_dep_val self AND 0x3f)"
      using untyped_dep_val_fields(1) [OF v] by (simp add: block_size_unat)
    then show ?thesis by (simp add: self' block_size_def)
  qed
  moreover have "unat num * unat one \<le> unat fb"
    using cs m by (auto simp: checked_sub_def word_le_nat_alt split: if_splits)
  ultimately show "\<not> is_device self" "gen_num g = num" "gen_user_size g = us" "gen_ok g"
    "align_up (get_free_index self) (align_of k) = (Ok (gen_address g) :: usize kres)"
    "unat (gen_obj_size g) = unat num * unat one" "get_free_index self' = gen_end_address g"
    "get_address self' = get_address self" "block_size self' = block_size self" "\<not> is_device self'"
    "\<exists>free_bytes. get_free_bytes self = (Ok free_bytes :: usize kres) \<and> unat num * unat one \<le> unat free_bytes"
    using dev gf ok fi m fb by (simp_all add: self')
qed

lemma retype_free_index_mono:
  assumes "retype im k self us num = Ok (self', g)" and "k \<noteq> Untyped"
  shows "unat (get_free_index self) \<le> unat (gen_address g)"
    and "unat (gen_address g) \<le> unat (get_free_index self')"
    and "kernel_addr (gen_address g)"
proof -
  obtain one where one: "get_object_size im k us = Ok one" using retype_size [OF assms(1)] by blast
  note f = retype_facts [OF assms one]
  obtain j where "j < 64" "align_of k = 2 ^ j" using align_of_exp by blast
  then show le: "unat (get_free_index self) \<le> unat (gen_address g)"
    using align_up_Ok(2) f(3) by metis
  show "unat (gen_address g) \<le> unat (get_free_index self')" using f(7,8) by (simp add: gen_ok_def)
  show "kernel_addr (gen_address g)"
    using le kernel_addr_free_index [of self] by (simp add: kernel_addr_ge)
qed

text \<open>
  C3: The objects of a retype are of the requested type, are pairwise disjoint, and lie between
  the old and the new free index; as the free index never decreases, no two retypes of one
  untyped capability hand out the same memory.
\<close>

theorem retype_disjoint:
  assumes "retype im k self us num = Ok (self', g)" and "k \<noteq> Untyped"
    and "get_object_size im k us = Ok one"
  shows "\<exists>cs. gen_caps k g = Ok cs \<and> length cs = unat num
    \<and> sorted_wrt (\<lambda>c c'. obj_addr c + unat one \<le> obj_addr c') cs
    \<and> (\<forall>c \<in> set cs. cap_type c = cap_type_u8 k
         \<and> unat (get_free_index self) \<le> obj_addr c \<and> obj_addr c + unat one \<le> unat (get_free_index self'))"
proof -
  note f = retype_facts(4,6-8) [OF assms]
  note mono = retype_free_index_mono [OF assms(1,2)]
  let ?rs = "cap_gen.regions (replicate (unat num) k) g"
  let ?sz = "unat (gen_obj_size g)"
  obtain cs where cs: "gen_caps k g = Ok cs" "length cs = unat num"
    "map (\<lambda>c. (obj_addr c, ?sz)) cs = ?rs" "\<forall>c \<in> set cs. cap_type c = cap_type_u8 k"
    using gen_caps_regions [OF f(3) assms(2) mono(3)] f(1) by auto
  have le: "unat one \<le> ?sz" if "cs \<noteq> []"
    using that cs(2) f(2) by (cases "unat num") auto
  have "sorted_wrt (\<lambda>c c'. obj_addr c + ?sz \<le> obj_addr c') cs"
    using cap_gen.regions_sorted [OF f(3), of "replicate (unat num) k"]
    unfolding cs(3) [symmetric] by (simp add: sorted_wrt_map)
  then have "sorted_wrt (\<lambda>c c'. obj_addr c + unat one \<le> obj_addr c') cs"
    by (rule sorted_wrt_mono_rel [rotated]) (use le in fastforce)
  moreover have "unat (get_free_index self) \<le> obj_addr c \<and> obj_addr c + unat one \<le> unat (get_free_index self')"
    if "c \<in> set cs" for c
  proof -
    have "(obj_addr c, ?sz) \<in> set ?rs" using that by (auto simp: cs(3) [symmetric])
    from cap_gen.regions_within [OF f(3) this] show ?thesis
      using mono(1) le that f(4) by fastforce
  qed
  ultimately show ?thesis using cs by blast
qed

text \<open>One object from an aligned free index stays inside the block.\<close>

definition block_end :: "CapabilityData \<Rightarrow> nat" where
  "block_end c = obj_addr c + unat (block_size c)"

lemma get_free_bytes_Ok:
  "get_free_bytes c = (Ok n :: usize kres) \<Longrightarrow> block_end c = unat (get_free_index c) + unat n"
  by (auto simp: get_free_bytes_def addr_add_def addr_sub_def add_ck_Ok sub_ck_Ok block_end_def obj_addr_def)


text \<open>
  C31: A request for several objects that fill the free space exactly succeeds but multiplies
  the size by the number twice: the second object lies at the end of the block, outside it, and
  the free index ends behind the block, on which the next request panics.
\<close>

theorem retype_escapes_block:
  assumes "\<not> is_device self" and "k \<noteq> Untyped" and "get_object_size im k us = Ok one"
    and "unat one \<noteq> 0" and "2 \<le> unat num"
    and "get_free_bytes self = (Ok fb :: usize kres)" and "unat fb = unat num * unat one"
    and "align_up (get_free_index self) (align_of k) = (Ok (get_free_index self) :: usize kres)"
    and "unat (get_free_index self) + unat num * unat fb < 2 ^ 64"
  shows "\<exists>self' g cs. retype im k self us num = Ok (self', g) \<and> gen_caps k g = Ok cs
    \<and> length cs = unat num \<and> obj_addr (cs ! 1) = block_end self
    \<and> get_free_bytes self' = (Panic ArithOverflow :: usize kres)"
proof -
  let ?fi = "get_free_index self"
  have m1: "(mul_ck num one :: usize kres) = Ok fb" using assms(7) by (simp add: mul_ck_Ok)
  have "unat fb * unat num < 2 ^ 64" using assms(9) by (simp add: mult.commute)
  then have un: "unat (fb * num) = unat fb * unat num" and m2: "(mul_ck fb num :: usize kres) = Ok (fb * num)"
    by (simp_all add: mul_ck_def unat_word_ariths)
  have m3: "(add_ck ?fi (fb * num) :: usize kres) = Ok (?fi + fb * num)"
    using assms(9) un by (simp add: add_ck_def mult.commute)
  obtain v where v: "create_cap_dep_val Untyped (?fi + fb * num) (block_size self) = (Ok v :: usize kres)"
  proof -
    have "block_size self \<noteq> 0" using block_size_unat [of self] by auto
    then show thesis using that by (simp add: ilog2_def)
  qed
  let ?g = "\<lparr>gen_num = num, gen_address = ?fi, gen_user_size = us, gen_obj_size = fb, gen_end_address = ?fi + fb * num\<rparr>"
  let ?s = "self\<lparr>cap_dep_val := v\<rparr>"
  have rt: "retype im k self us num = Ok (?s, ?g)"
    using assms m1 m2 m3 v by (auto simp: retype_def Let_def checked_sub_def ok_or_def gen_new_def)
  note f = retype_facts [OF rt assms(2,3)]
  obtain cs where cs: "gen_caps k ?g = Ok cs" "length cs = unat num"
    "\<forall>j < length cs. obj_addr (cs ! j) = unat ?fi + j * unat fb"
    using gen_caps_regions [OF f(7) assms(2)] by auto
  have e: "block_end self = unat ?fi + unat fb" by (rule get_free_bytes_Ok [OF assms(6)])
  have "unat (get_free_index ?s) = unat ?fi + unat num * unat fb"
    using f(7,8) by (simp add: gen_ok_def)
  moreover have "unat fb < unat num * unat fb" using assms(4,5,7) by (cases "unat num") auto
  ultimately have "block_end ?s < unat (get_free_index ?s)" using e f(9,10) by (simp add: block_end_def obj_addr_def)
  moreover have "\<exists>n. (add_ck (phys_to_kva (get_address self)) (block_size self) :: usize kres) = Ok n
        \<and> unat n = block_end self"
    using assms(6) by (auto simp: get_free_bytes_def addr_add_def add_ck_Ok block_end_def obj_addr_def)
  ultimately have "get_free_bytes ?s = (Panic ArithOverflow :: usize kres)"
    using f(9,10) e by (auto simp: get_free_bytes_def addr_add_def addr_sub_def sub_ck_def word_le_nat_alt block_end_def obj_addr_def)
  then show ?thesis using rt cs e assms(5) by auto
qed

section \<open>The slots of the destination\<close>

lemma set_next_ks_cap [simp]: "ks_cap (set_next a b s) = ks_cap s"
  by (simp add: set_next_def)

lemma set_next_tcbidx [simp]: "ks_tcbidx (set_next a b s) = ks_tcbidx s"
  by (simp add: set_next_def set_node_def set_node1_def Let_def)

lemma insert_cap_caps:
  "ks_cap (insert_cap im root parent c i s) = (ks_cap s)(img_entry im := Some c, slot_addr root i := Some c)"
  by (auto simp: insert_cap_def Let_def write_entry_def new_with_rawcap_def slot_addr_def slot_at_def
      split: option.splits)

lemma insert_cap_tcbidx [simp]: "ks_tcbidx (insert_cap im root parent c i s) = ks_tcbidx s"
  by (simp add: insert_cap_def Let_def write_entry_def split: option.splits)

lemma init_object_returns:
  assumes "unat (ks_tcbidx s) + 1 < 2 ^ 64"
  shows "\<exists>s'. init_object k c s = (Ok (), s') \<and> ks_cap s' = ks_cap s \<and> unat (ks_tcbidx s') \<le> unat (ks_tcbidx s) + 1"
proof (cases k)
  case Tcb
  then show ?thesis
    using assms by (simp add: thread_new_def add_ck_def bind_st_def unat_word_ariths)
qed (simp_all add: set_ep_def set_ntfn_def zero_page_table_def)

lemma insert_all_slots:
  assumes "gen_caps k g = Ok cs" and "i + length cs \<le> 2 ^ 59"
    and "unat (ks_tcbidx s) + length cs < 2 ^ 64"
    and "\<And>j. j < i + length cs \<Longrightarrow> slot_addr dest j \<noteq> img_entry im"
  shows "\<exists>s'. insert_all im k src dest i g s = (Ok (), s')
    \<and> (\<forall>j < length cs. ks_cap s' (slot_addr dest (i + j)) = Some (cs ! j))
    \<and> (\<forall>a. a \<noteq> img_entry im \<and> (\<forall>j < length cs. a \<noteq> slot_addr dest (i + j)) \<longrightarrow> ks_cap s' a = ks_cap s a)"
  using assms
proof (induction cs arbitrary: g i s)
  case Nil
  then have "gen_next k g = Ok None"
    by (auto simp: gen_caps.simps [of k g] split: run.splits option.splits)
  then show ?case by (simp add: insert_all.simps)
next
  case (Cons c cs)
  then obtain g' where nx: "gen_next k g = Ok (Some (c, g'))" and g': "gen_caps k g' = Ok cs"
    by (auto simp: gen_caps.simps [of k g] split: run.splits option.splits)
  obtain s1 where s1: "init_object k c s = (Ok (), s1)" "ks_cap s1 = ks_cap s"
    "unat (ks_tcbidx s1) \<le> unat (ks_tcbidx s) + 1"
    using init_object_returns [of s k c] Cons.prems(3) by auto
  let ?s2 = "insert_cap im dest src c i s1"
  obtain s' where s': "insert_all im k src dest (Suc i) g' ?s2 = (Ok (), s')"
    "\<forall>j < length cs. ks_cap s' (slot_addr dest (Suc i + j)) = Some (cs ! j)"
    "\<forall>a. a \<noteq> img_entry im \<and> (\<forall>j < length cs. a \<noteq> slot_addr dest (Suc i + j)) \<longrightarrow> ks_cap s' a = ks_cap ?s2 a"
    using Cons.IH [OF g', of "Suc i" ?s2] Cons.prems(2-4) s1(3) by auto
  have fresh: "slot_addr dest i \<noteq> slot_addr dest (Suc i + j)" if "j < length cs" for j
    using slot_addr_inj [of dest i "Suc i + j"] Cons.prems(2) that by auto
  then have "ks_cap s' (slot_addr dest i) = Some c"
    using s'(3) Cons.prems(4) [of i] by (auto simp: insert_cap_caps)
  then have "ks_cap s' (slot_addr dest (i + j)) = Some ((c # cs) ! j)" if "j < length (c # cs)" for j
    using that s'(2) by (cases j) auto
  moreover have "ks_cap s' a = ks_cap s a"
    if "a \<noteq> img_entry im" "\<forall>j < length (c # cs). a \<noteq> slot_addr dest (i + j)" for a
  proof -
    have "a \<noteq> slot_addr dest i" using that(2) by force
    moreover have "a \<noteq> slot_addr dest (Suc i + j)" if "j < length cs" for j
      using that \<open>\<forall>j < length (c # cs). _ j\<close> by force
    ultimately show ?thesis using s'(3) that(1) s1(2) by (auto simp: insert_cap_caps)
  qed
  ultimately show ?case
    using nx s1(1) s'(1) by (simp add: insert_all.simps [of im k src dest i g s])
qed

text \<open>
  C26: A successful retype fills the destination slots with the new capabilities, in order, and
  stores the untyped capability with its new free index.
\<close>

theorem retype_fills_slots:
  assumes "retype im k self us num = Ok (self', g)" and "k \<noteq> Untyped"
    and "unat num < 2 ^ 32" and "unat (ks_tcbidx s) + unat num < 2 ^ 64"
    and "\<And>j. j < unat num \<Longrightarrow> slot_addr dest j \<noteq> img_entry im \<and> slot_addr dest j \<noteq> src"
    and "src \<noteq> img_entry im"
  shows "\<exists>s' cs. retype_and_insert im k src self dest us num s = (Ok (), s') \<and> gen_caps k g = Ok cs
    \<and> length cs = unat num \<and> (\<forall>j < unat num. ks_cap s' (slot_addr dest j) = Some (cs ! j))
    \<and> ks_cap s' src = Some self'"
proof -
  obtain one where one: "get_object_size im k us = Ok one" using retype_size [OF assms(1)] by blast
  obtain cs where cs: "gen_caps k g = Ok cs" "length cs = unat num"
    using gen_caps_regions [OF retype_facts(7) [OF assms(1,2) one] assms(2) retype_free_index_mono(3) [OF assms(1,2)]]
      retype_facts(4) [OF assms(1,2) one] by auto
  let ?s = "write_cap src self' s"
  have "ks_tcbidx ?s = ks_tcbidx s" and src: "ks_cap ?s src = Some self'" by (simp_all add: write_cap_def)
  then obtain s' where s': "insert_all im k src dest 0 g ?s = (Ok (), s')"
    "\<forall>j < length cs. ks_cap s' (slot_addr dest j) = Some (cs ! j)"
    "\<forall>a. a \<noteq> img_entry im \<and> (\<forall>j < length cs. a \<noteq> slot_addr dest j) \<longrightarrow> ks_cap s' a = ks_cap ?s a"
    using insert_all_slots [OF cs(1), of 0 ?s dest im src] assms(3-5) cs(2) by auto
  have "retype_and_insert im k src self dest us num s = (Ok (), s')"
    using assms(1) s'(1) by (simp add: retype_and_insert_def bind_st_def)
  moreover have "ks_cap s' src = Some self'" using s'(3) src assms(5,6) cs(2) by metis
  ultimately show ?thesis using cs s'(2) by auto
qed

text \<open>A refused retype changes nothing: every check comes before the first write.\<close>

lemma gen_next_no_err: "gen_next k g \<noteq> Err e"
proof -
  have "create_cap_dep_val k a us \<noteq> (Err e :: usize kres)" for a us
    by (cases "(k, a, us)" rule: create_cap_dep_val.cases) (auto simp: ilog2_def)
  moreover have "add_ck a b \<noteq> (Err e :: usize kres)" "sub_ck a b \<noteq> (Err e :: usize kres)" for a b
    by (simp_all add: add_ck_def sub_ck_def)
  ultimately show ?thesis
    by (auto simp: gen_next_def addr_add_def bind_run_eq_Err)
qed

lemma init_object_no_err: "fst (init_object k c s) \<noteq> Err e"
  by (cases k) (auto simp: bind_st_def thread_new_def split: run.splits)

lemma insert_all_no_err: "fst (insert_all im k src dest i g s) \<noteq> Err e"
proof (induction im k src dest i g s rule: insert_all.induct)
  case (1 im k src dest i g s)
  show ?case
  proof (cases "\<exists>c g'. gen_next k g = Ok (Some (c, g'))")
    case True
    then obtain c g' where nx: "gen_next k g = Ok (Some (c, g'))" by blast
    obtain r s1 where r: "init_object k c s = (r, s1)" by fastforce
    then show ?thesis
      using init_object_no_err [of k c s e] 1 [OF nx refl refl r [symmetric]] nx
      by (cases r) (simp_all add: insert_all.simps [of im k src dest i g s])
  next
    case False
    then show ?thesis
      using gen_next_no_err [of k g e] by (subst insert_all.simps) (auto split: run.splits option.splits)
  qed
qed

lemma invoke_retype_clean:
  assumes "invoke_retype im src self dest us num k s = (Err e, s')"
  shows "s' = s"
proof -
  have "retype_and_insert im k src self dest us num s = (Err e, s') \<Longrightarrow> s' = s" for k
    using insert_all_no_err [of im k src dest 0 _ _ e]
    by (auto simp: retype_and_insert_def bind_st_eq_Err) (metis fst_conv)
  then show ?thesis using assms by (auto simp: invoke_retype_def split: CapabilityType.splits)
qed

end
