(* ===== verification/Tcb_Cap.thy ===== *)
theory Tcb_Cap
  imports Ipc CSpace
begin

text \<open>
  Thread capabilities (\<^verbatim>\<open>kernel/src/capability/tcb.rs\<close>) and the setters of a
  thread control block (\<^verbatim>\<open>kernel/src/object/tcb.rs\<close>): a thread receives its root
  CNode, its root page table and its IPC buffer as derived capabilities, linked
  behind the entries they come from.
\<close>

section \<open>The setters of a thread (object/tcb.rs)\<close>

text \<open>
  The new entry is built and linked in a local variable and then moved into the
  thread. The derivation list keeps the address of the variable.
\<close>

definition linked_entry :: "Image \<Rightarrow> CapabilityData \<Rightarrow> usize \<Rightarrow> kstate \<Rightarrow> CSlot \<times> kstate" where
  "linked_entry im c parent s =
     (let local = img_new_entry im;
          s1 = write_entry local (new_with_rawcap c) s;
          s2 = mdb_insert local parent s1
      in (slot_at s2 local, s2))"

definition set_root_cspace :: "Image \<Rightarrow> usize \<Rightarrow> CapabilityData \<Rightarrow> usize \<Rightarrow> unit kprog" where
  "set_root_cspace im t cspace_cap parent =
     bind_st (\<lambda>s. (assert_run (root_cnode (thread s t) = None), s)) (\<lambda>_ s.
     let (new_entry, s1) = linked_entry im cspace_cap parent s
     in (Ok (), update_thread t (\<lambda>i. i\<lparr>root_cnode := new_entry\<rparr>) s1))"

definition set_root_vspace :: "Image \<Rightarrow> usize \<Rightarrow> CapabilityData \<Rightarrow> usize \<Rightarrow> unit kprog" where
  "set_root_vspace im t vspace_cap parent =
     bind_st (\<lambda>s. (assert_run (vspace (thread s t) = None), s)) (\<lambda>_ s.
     let (new_entry, s1) = linked_entry im vspace_cap parent s
     in (Ok (), update_thread t (\<lambda>i. i\<lparr>vspace := new_entry\<rparr>) s1))"

definition set_ipc_buffer :: "Image \<Rightarrow> usize \<Rightarrow> CapabilityData \<Rightarrow> usize \<Rightarrow> unit kprog" where
  "set_ipc_buffer im t page_cap parent =
     bind_st (\<lambda>s. (assert_run (ipc_buffer (thread s t) = None), s)) (\<lambda>_ s.
     let (new_entry, s1) = linked_entry im page_cap parent s
     in (Ok (), update_thread t (\<lambda>i. i\<lparr>ipc_buffer := new_entry\<rparr>) s1))"

section \<open>Thread capabilities (capability/tcb.rs)\<close>

definition get_tcb :: "CapabilityData \<Rightarrow> usize" where
  "get_tcb c = phys_to_kva (get_address c)"

definition set_register :: "CapabilityData \<Rightarrow> (Register \<times> usize) list \<Rightarrow> kstate \<Rightarrow> kstate" where
  "set_register c regs = update_registers (get_tcb c) (fold (\<lambda>(r_id, val) r. reg_index_mut r r_id val) regs)"

definition set_registers :: "CapabilityData \<Rightarrow> Registers \<Rightarrow> kstate \<Rightarrow> kstate" where
  "set_registers c regs = update_registers (get_tcb c) (\<lambda>_. regs)"

definition make_runnable :: "CapabilityData \<Rightarrow> kstate \<Rightarrow> kstate" where
  "make_runnable c = resume (get_tcb c)"

text \<open>\<open>src\<close> is the address of the entry whose capability is \<open>src_cap\<close>.\<close>

definition set_cspace :: "Image \<Rightarrow> CapabilityData \<Rightarrow> usize \<Rightarrow> CapabilityData \<Rightarrow> unit kprog" where
  "set_cspace im self src src_cap =
     bind_st (lift_st (derive_as CNode src_cap)) (\<lambda>cspace_new.
     set_root_cspace im (get_tcb self) cspace_new src)"

definition set_vspace :: "Image \<Rightarrow> CapabilityData \<Rightarrow> usize \<Rightarrow> CapabilityData \<Rightarrow> unit kprog" where
  "set_vspace im self src src_cap =
     bind_st (lift_st (derive_as PageTable src_cap)) (\<lambda>vspace_new.
     set_root_vspace im (get_tcb self) vspace_new src)"

definition cap_set_ipc_buffer :: "Image \<Rightarrow> CapabilityData \<Rightarrow> usize \<Rightarrow> CapabilityData \<Rightarrow> unit kprog" where
  "cap_set_ipc_buffer im self src src_cap =
     bind_st (lift_st (derive_as Page src_cap)) (\<lambda>page_cap_new.
     set_ipc_buffer im (get_tcb self) page_cap_new src)"

section \<open>Effects\<close>

lemma linked_entry_facts:
  assumes "linked_entry im c parent s = (e, s1)"
  shows "\<exists>m. e = Some \<lparr>ent_cap = c, ent_mdb = m\<rparr>"
    and "thread s1 t = thread s t"
    and "a \<noteq> img_new_entry im \<Longrightarrow> ks_cap s1 a = ks_cap s a"
proof -
  have s1: "s1 = mdb_insert (img_new_entry im) parent (write_entry (img_new_entry im) (new_with_rawcap c) s)"
    and e: "e = slot_at s1 (img_new_entry im)"
    using assms by (auto simp: linked_entry_def Let_def)
  have cap: "ks_cap s1 = (ks_cap s)(img_new_entry im := Some c)"
    by (simp add: s1) (simp add: write_entry_def new_with_rawcap_def)
  then show "\<exists>m. e = Some \<lparr>ent_cap = c, ent_mdb = m\<rparr>" by (simp add: e slot_at_def)
  show "a \<noteq> img_new_entry im \<Longrightarrow> ks_cap s1 a = ks_cap s a" using cap by simp
  show "thread s1 t = thread s t"
    by (simp add: s1 mdb_insert_def set_next_def Let_def write_entry_def thread_def set_node_def set_node1_def
        split: option.splits)
qed

text \<open>
  C29: Configuring a fresh thread gives it copies of the root CNode and page table capabilities,
  and leaves every other thread and every capability slot as they were.
\<close>

theorem tcb_configure:
  assumes "root_cnode (thread s (get_tcb c)) = None" and "vspace (thread s (get_tcb c)) = None"
  shows "\<exists>s' e f. bind_st (set_cspace im c src1 c1) (\<lambda>_. set_vspace im c src2 c2) s = (Ok (), s')
    \<and> root_cnode (thread s' (get_tcb c)) = Some e \<and> ent_cap e = c1
    \<and> vspace (thread s' (get_tcb c)) = Some f \<and> ent_cap f = c2
    \<and> (\<forall>t. t \<noteq> get_tcb c \<longrightarrow> thread s' t = thread s t)
    \<and> (\<forall>a. a \<noteq> img_new_entry im \<longrightarrow> ks_cap s' a = ks_cap s a)"
proof -
  let ?t = "get_tcb c"
  obtain e s1 where e: "linked_entry im c1 src1 s = (e, s1)" by fastforce
  note f1 = linked_entry_facts [OF e]
  let ?s1 = "update_thread ?t (\<lambda>i. i\<lparr>root_cnode := e\<rparr>) s1"
  obtain f s2 where f: "linked_entry im c2 src2 ?s1 = (f, s2)" by fastforce
  note f2 = linked_entry_facts [OF f]
  let ?s2 = "update_thread ?t (\<lambda>i. i\<lparr>vspace := f\<rparr>) s2"
  have 1: "set_cspace im c src1 c1 s = (Ok (), ?s1)"
    using assms(1) e by (simp add: set_cspace_def set_root_cspace_def bind_st_def assert_run_def)
  have "set_vspace im c src2 c2 ?s1 = (Ok (), ?s2)"
    using assms(2) f f1(2) by (simp add: set_vspace_def set_root_vspace_def bind_st_def assert_run_def)
  with 1 have "bind_st (set_cspace im c src1 c1) (\<lambda>_. set_vspace im c src2 c2) s = (Ok (), ?s2)" by simp
  moreover have "thread ?s2 t = thread s t" if "t \<noteq> ?t" for t using that f1(2) f2(2) by simp
  moreover have "ks_cap ?s2 a = ks_cap s a" if "a \<noteq> img_new_entry im" for a using that f1(3) f2(3) by simp
  ultimately show ?thesis using f1(1) f2(1,2) by (fastforce simp: thread_update)
qed

text \<open>A thread that already has a root CNode cannot be configured again: the kernel panics.\<close>

theorem tcb_reconfigure_panics:
  assumes "root_cnode (thread s (get_tcb c)) \<noteq> None"
  shows "set_cspace im c src src_cap s = (Panic AssertFailed, s)"
  using assms by (auto simp: set_cspace_def set_root_cspace_def bind_st_def assert_run_def)

text \<open>
  The entry of the source is linked to the address of the local variable, not to
  the thread. The next derivation reuses the variable: afterwards the first
  source still points to it, while its back link names the second source.
\<close>

lemma linked_entry_links:
  assumes "linked_entry im c parent s = (e, s1)" and "kernel_addr parent" and "kernel_addr (img_new_entry im)"
    and "parent \<noteq> img_new_entry im"
  shows "get_next s1 parent = Some (img_new_entry im)" and "get_prev s1 (img_new_entry im) = Some parent"
    and "a \<noteq> parent \<Longrightarrow> a \<noteq> img_new_entry im \<Longrightarrow> get_next s1 a = get_next s a"
proof -
  let ?l = "img_new_entry im" and ?s = "write_entry (img_new_entry im) (new_with_rawcap c) s"
  have s1: "s1 = mdb_insert ?l parent ?s" using assms(1) by (auto simp: linked_entry_def Let_def)
  show "get_next s1 parent = Some ?l" "get_prev s1 ?l = Some parent"
    using mdb_insert_splices(1) [of ?l parent ?s] assms(2-4) by (auto simp: s1 mdb_neighbours_def)
  have w: "get_next ?s b = get_next s b" if "b \<noteq> ?l" for b
    using that by (simp add: get_next_def get_node_def mdb_word_def write_entry_def)
  show "get_next s1 a = get_next s a" if "a \<noteq> parent" "a \<noteq> ?l"
    using that w [OF that(2)] assms(2,3) get_node_kernel_addr [of ?s parent True]
    by (auto simp: s1 mdb_insert_def get_next_def set_next_def Let_def split: option.splits)
qed

theorem derivation_links_clash:
  assumes "root_cnode (thread s (get_tcb c)) = None" and "vspace (thread s (get_tcb c)) = None"
    and "kernel_addr src1" and "kernel_addr src2" and "kernel_addr (img_new_entry im)"
    and "src1 \<noteq> src2" and "src1 \<noteq> img_new_entry im" and "src2 \<noteq> img_new_entry im"
  shows "\<exists>s'. bind_st (set_cspace im c src1 c1) (\<lambda>_. set_vspace im c src2 c2) s = (Ok (), s')
    \<and> get_next s' src1 = Some (img_new_entry im) \<and> get_prev s' (img_new_entry im) = Some src2"
proof -
  let ?t = "get_tcb c" and ?l = "img_new_entry im"
  have upd: "get_next (update_thread t f u) a = get_next u a" "get_prev (update_thread t f u) a = get_prev u a" for t f u a
    by (simp_all add: get_next_def get_prev_def get_node_def mdb_word_def)
  obtain e s1 where e: "linked_entry im c1 src1 s = (e, s1)" by fastforce
  let ?s1 = "update_thread ?t (\<lambda>i. i\<lparr>root_cnode := e\<rparr>) s1"
  obtain f s2 where f: "linked_entry im c2 src2 ?s1 = (f, s2)" by fastforce
  note l1 = linked_entry_links [OF e assms(3,5,7)] and l2 = linked_entry_links [OF f assms(4,5,8)]
  have "bind_st (set_cspace im c src1 c1) (\<lambda>_. set_vspace im c src2 c2) s
      = (Ok (), update_thread ?t (\<lambda>i. i\<lparr>vspace := f\<rparr>) s2)"
    using assms(1,2) e f linked_entry_facts(2) [OF e]
    by (simp add: set_cspace_def set_root_cspace_def set_vspace_def set_root_vspace_def bind_st_def assert_run_def)
  moreover have "get_next s2 src1 = Some ?l" using l2(3) [OF assms(6,7)] l1(1) upd(1) by simp
  ultimately show ?thesis using l2(2) upd by simp
qed

text \<open>
  C30: Writing the registers of a thread and resuming it queues the thread behind the others and
  makes it start with these registers, and changes no other thread.
\<close>

theorem tcb_start:
  assumes "run_queue s xs" and "get_tcb c \<notin> set xs" and "loose (ks_tcb s) (get_tcb c)"
    and "s' = make_runnable c (set_registers c regs s)"
  shows "run_queue s' (xs @ [get_tcb c]) \<and> registers (thread s' (get_tcb c)) = regs
    \<and> status (thread s' (get_tcb c)) = Runnable \<and> (\<forall>t. t \<noteq> get_tcb c \<longrightarrow> thread s' t = thread s t)"
proof -
  let ?s = "set_registers c regs s"
  have "run_queue ?s xs" using assms(1) by (simp add: set_registers_def run_queue_def)
  then have "run_queue s' (xs @ [get_tcb c])"
    unfolding assms(4) make_runnable_def
    by (rule run_queue_resume) (use assms(2,3) in \<open>simp_all add: set_registers_def\<close>)
  then show ?thesis by (simp add: assms(4) make_runnable_def set_registers_def thread_resume_def)
qed

lemma set_register_last:
  "reg_index (registers (thread (set_register c (regs @ [(r, v)]) s) (get_tcb c))) r = v"
  by (simp add: set_register_def)

end
