(* ===== verification/Syscall.thy ===== *)
theory Syscall
  imports Untyped_Cap Tcb_Cap
begin

text \<open>
  System calls (\<^verbatim>\<open>kernel/src/syscall.rs\<close>): the call decodes its label, resolves
  the capability pointer in the root CNode of the current thread, dispatches on
  the type of the capability found, and reports the outcome in the registers of
  the caller. \<open>rp\<close> names the thread whose register file the handler was given.
  The arms of \<open>handle_invocation\<close> are definitions of their own. The diagnostic
  messages of the kernel are left out; the console holds the characters written
  by the users.
\<close>

section \<open>Lookups of the handler\<close>

text \<open>
  \<open>lookup_entry_mut(..)?.as_mut().ok_or(SlotIsEmpty)?\<close>, followed by the
  conversion to a capability of the wanted type.
\<close>

definition lookup_entry :: "kstate \<Rightarrow> CapabilityData \<Rightarrow> usize \<Rightarrow> u32 \<Rightarrow> (usize \<times> CapabilityData) kres" where
  "lookup_entry s root p d =
     bind_run (lookup_entry_mut s root p d) (\<lambda>a.
     bind_run (ok_or (slot_at s a) (kerr SlotIsEmpty)) (\<lambda>e.
     Ok (a, ent_cap e)))"

definition lookup_cap :: "kstate \<Rightarrow> CapabilityData \<Rightarrow> usize \<Rightarrow> u32 \<Rightarrow> CapabilityType \<Rightarrow> (usize \<times> CapabilityData) kres" where
  "lookup_cap s root p d k =
     bind_run (lookup_entry s root p d) (\<lambda>(a, c).
     bind_run (try_ref_as k c) (\<lambda>c'.
     Ok (a, c')))"

definition reading :: "(kstate \<Rightarrow> 'a kres) \<Rightarrow> 'a kprog" where
  "reading f s = (f s, s)"

lemma reading_apply [simp, run_simps]: "reading f s = (f s, s)"
  by (simp add: reading_def)

section \<open>The arms of the dispatch\<close>

definition invoke_untyped :: "Image \<Rightarrow> CapabilityData \<Rightarrow> usize \<Rightarrow> CapabilityData \<Rightarrow> Registers \<Rightarrow> usize option kprog" where
  "invoke_untyped im root slot cap reg =
     (let dest_cnode_ptr = rg_a3 reg;
          index_and_depth = rg_a4 reg;
          user_size_and_num = rg_a5 reg;
          dest_depth = (ucast index_and_depth :: u32);
          index = drop_bit 32 index_and_depth;
          user_size = drop_bit 32 user_size_and_num;
          num = (ucast user_size_and_num :: u32)
      in bind_st (lift_st (cap_try_from_u8 (ucast (rg_a6 reg)))) (\<lambda>new_type.
         bind_st (reading (\<lambda>s. lookup_cap s root dest_cnode_ptr dest_depth CNode)) (\<lambda>(_, dest_cnode_cap).
         bind_st (reading (get_writable dest_cnode_cap num (ucast index))) (\<lambda>dest_cnode.
         bind_st (lift_st (try_ref_as Untyped cap)) (\<lambda>src_cap.
         bind_st (invoke_retype im slot src_cap dest_cnode user_size (ucast num) new_type) (\<lambda>_.
         pure_st None))))))"

definition place_entry :: "usize \<Rightarrow> usize \<Rightarrow> kstate \<Rightarrow> kstate" where
  "place_entry local dest s = (case slot_at s local of Some e \<Rightarrow> write_entry dest e s | None \<Rightarrow> s)"

definition invoke_cnode ::
  "Image \<Rightarrow> CapabilityData \<Rightarrow> CapabilityData \<Rightarrow> InvLabel \<Rightarrow> Registers \<Rightarrow> usize option kprog" where
  "invoke_cnode im root cap inv_label reg =
     (let src_index = rg_a3 reg;
          src_depth = (ucast (drop_bit 32 (rg_a4 reg)) :: u32);
          dest_depth = (ucast (rg_a4 reg) :: u32);
          dest_index = rg_a5 reg
      in bind_st (lift_st (try_ref_as CNode cap)) (\<lambda>dest_root.
         bind_st (reading (\<lambda>s. lookup_entry s root src_index src_depth)) (\<lambda>(src_slot, src_cap).
         bind_st (reading (\<lambda>s. lookup_entry_mut s dest_root dest_index dest_depth)) (\<lambda>dest_slot.
         bind_st (reading (\<lambda>s. ensure (slot_at s dest_slot = None) (kerr NotEmptySlot))) (\<lambda>_.
         bind_st (lift_st (derive src_cap)) (\<lambda>raw_cap.
         let new_cap = (if inv_label = CNodeMint then set_cap_dep_val raw_cap (rg_a6 reg) else raw_cap);
             local = img_new_slot im
         in bind_st (modify_st (write_entry local (new_with_rawcap new_cap))) (\<lambda>_.
            bind_st (modify_st (if inv_label = CNodeMove
                                then (\<lambda>s. write_none src_slot (mdb_replace local src_slot s))
                                else mdb_insert local src_slot)) (\<lambda>_.
            bind_st (modify_st (place_entry local dest_slot)) (\<lambda>_.
            pure_st None)))))))))"

definition invoke_tcb ::
  "Image \<Rightarrow> CapabilityData \<Rightarrow> CapabilityData \<Rightarrow> usize option \<Rightarrow> InvLabel \<Rightarrow> Registers \<Rightarrow> usize option kprog" where
  "invoke_tcb im root cap ipc_buf inv_label reg =
     bind_st (lift_st (try_ref_as Tcb cap)) (\<lambda>tcb_cap.
     case inv_label of
       TcbConfigure \<Rightarrow>
         bind_st (reading (\<lambda>s. lookup_two_entries_mut s root (rg_a3 reg) (ucast (rg_a4 reg))
                                 (rg_a5 reg) (ucast (rg_a6 reg)))) (\<lambda>(cnode_slot, vspace_slot).
         bind_st (reading (\<lambda>s. bind_run (ok_or (slot_at s cnode_slot) (kerr SlotIsEmpty)) (\<lambda>e.
                               try_ref_as CNode (ent_cap e)))) (\<lambda>cspace_cap.
         bind_st (reading (\<lambda>s. bind_run (ok_or (slot_at s vspace_slot) (kerr SlotIsEmpty)) (\<lambda>e.
                               try_ref_as PageTable (ent_cap e)))) (\<lambda>vspace_cap.
         bind_st (set_cspace im tcb_cap cnode_slot cspace_cap) (\<lambda>_.
         bind_st (set_vspace im tcb_cap vspace_slot vspace_cap) (\<lambda>_.
         pure_st None)))))
     | TcbWriteReg \<Rightarrow>
         bind_st (lift_st (ok_or ipc_buf (kerr InvalidOperation))) (\<lambda>buf.
         bind_st (reading (\<lambda>s. map_err (\<lambda>_. kerr InvalidOperation) (read_as (ks_buf s buf)))) (\<lambda>regs.
         bind_st (modify_st (set_registers tcb_cap regs)) (\<lambda>_.
         pure_st None)))
     | TcbSetIpcBuffer \<Rightarrow>
         bind_st (reading (\<lambda>s. lookup_cap s root (rg_a3 reg) (ucast (rg_a4 reg)) Page)) (\<lambda>(page_slot, page_cap).
         bind_st (cap_set_ipc_buffer im tcb_cap page_slot page_cap) (\<lambda>_.
         pure_st None))
     | TcbResume \<Rightarrow>
         bind_st (modify_st (make_runnable tcb_cap)) (\<lambda>_.
         pure_st None)
     | _ \<Rightarrow> lift_st (Err (kerr UnknownInvocation)))"

definition request_if :: "bool \<Rightarrow> unit kprog" where
  "request_if b = (if b then modify_st require_schedule else pure_st ())"

definition invoke_notification :: "CapabilityData \<Rightarrow> usize \<Rightarrow> InvLabel \<Rightarrow> usize option kprog" where
  "invoke_notification cap current_tcb inv_label =
     bind_st (lift_st (try_ref_as Notification cap)) (\<lambda>notify_cap.
     case inv_label of
       NotifySend \<Rightarrow> bind_st (ntfn_cap_send notify_cap) (\<lambda>_. pure_st None)
     | NotifyWait \<Rightarrow> bind_st (ntfn_cap_wait notify_cap current_tcb) (\<lambda>b. bind_st (request_if b) (\<lambda>_. pure_st None))
     | _ \<Rightarrow> lift_st (Err (kerr UnknownInvocation)))"

definition invoke_endpoint :: "CapabilityData \<Rightarrow> usize \<Rightarrow> InvLabel \<Rightarrow> usize option kprog" where
  "invoke_endpoint cap current_tcb inv_label =
     bind_st (lift_st (try_ref_as EndPoint cap)) (\<lambda>ep_cap.
     case inv_label of
       EpSend \<Rightarrow> bind_st (ep_cap_send ep_cap current_tcb) (\<lambda>b. bind_st (request_if b) (\<lambda>_. pure_st None))
     | EpRecv \<Rightarrow> bind_st (ep_cap_recv ep_cap current_tcb) (\<lambda>b. bind_st (request_if b) (\<lambda>_. pure_st None))
     | _ \<Rightarrow> lift_st (Err (kerr UnknownInvocation)))"

definition invoke_page ::
  "CapabilityData \<Rightarrow> usize \<Rightarrow> CapabilityData \<Rightarrow> InvLabel \<Rightarrow> Registers \<Rightarrow> usize option kprog" where
  "invoke_page root slot cap inv_label reg =
     bind_st (lift_st (try_ref_as Page cap)) (\<lambda>page_cap.
     case inv_label of
       PageMap \<Rightarrow>
         bind_st (lift_st (ensure (is_aligned (rg_a5 reg) PAGE_SIZE) (kerr_val NotAligned (ucast PAGE_SIZE)))) (\<lambda>_.
         bind_st (reading (\<lambda>s. lookup_cap s root (rg_a3 reg) (ucast (rg_a4 reg)) PageTable)) (\<lambda>(_, root_page_table).
         bind_st (page_cap_map page_cap root_page_table (rg_a5 reg) (PAGE_U OR get_user_flags (rg_a6 reg))) (\<lambda>c'.
         bind_st (modify_st (write_cap slot c')) (\<lambda>_.
         pure_st None))))
     | PageUnMap \<Rightarrow>
         bind_st (reading (\<lambda>s. lookup_cap s root (rg_a3 reg) (ucast (rg_a4 reg)) PageTable)) (\<lambda>(_, root_page_table).
         bind_st (page_cap_unmap page_cap root_page_table) (\<lambda>c'.
         bind_st (modify_st (write_cap slot c')) (\<lambda>_.
         pure_st None)))
     | _ \<Rightarrow> lift_st (Err (kerr UnknownInvocation)))"

definition invoke_page_table ::
  "Image \<Rightarrow> CapabilityData \<Rightarrow> usize \<Rightarrow> CapabilityData \<Rightarrow> InvLabel \<Rightarrow> Registers \<Rightarrow> usize option kprog" where
  "invoke_page_table im root slot cap inv_label reg =
     bind_st (lift_st (try_ref_as PageTable cap)) (\<lambda>page_table_cap.
     case inv_label of
       PageTableMap \<Rightarrow>
         bind_st (lift_st (ensure (is_aligned (rg_a5 reg) PAGE_SIZE) (kerr_val NotAligned (ucast PAGE_SIZE)))) (\<lambda>_.
         bind_st (reading (\<lambda>s. lookup_cap s root (rg_a3 reg) (ucast (rg_a4 reg)) PageTable)) (\<lambda>(_, root_page_table).
         bind_st (page_table_cap_map page_table_cap root_page_table (rg_a5 reg)) (\<lambda>(v, c').
         bind_st (modify_st (write_cap slot c')) (\<lambda>_.
         pure_st (Some (of_nat v))))))
     | PageTableUnMap \<Rightarrow> lift_st (Panic Unimplemented)
     | PageTableMakeRoot \<Rightarrow>
         bind_st (make_as_root im page_table_cap) (\<lambda>c'.
         bind_st (modify_st (write_cap slot c')) (\<lambda>_.
         pure_st None))
     | _ \<Rightarrow> lift_st (Err (kerr UnknownInvocation)))"

section \<open>The handlers\<close>

definition handle_invocation :: "Image \<Rightarrow> usize \<Rightarrow> usize \<Rightarrow> InvLabel \<Rightarrow> usize \<Rightarrow> usize option kprog" where
  "handle_invocation im cap_ptr depth inv_label rp s =
     (let current_tcb = ks_current s;
          ipc_buf = ipc_buffer_ref (thread s current_tcb);
          reg = registers (thread s rp)
      in bind_st (lift_st (ok_or (root_cnode (thread s current_tcb)) (kerr CapNotFound))) (\<lambda>root_entry.
         let root = cap_replicate (ent_cap root_entry)
         in bind_st (reading (\<lambda>s. lookup_entry s root cap_ptr (ucast depth))) (\<lambda>(slot, cap).
            bind_st (lift_st (get_cap_type cap)) (\<lambda>ty.
            case ty of
              Untyped \<Rightarrow> invoke_untyped im root slot cap reg
            | CNode \<Rightarrow> invoke_cnode im root cap inv_label reg
            | Tcb \<Rightarrow> invoke_tcb im root cap ipc_buf inv_label reg
            | Notification \<Rightarrow> invoke_notification cap current_tcb inv_label
            | EndPoint \<Rightarrow> invoke_endpoint cap current_tcb inv_label
            | Page \<Rightarrow> invoke_page root slot cap inv_label reg
            | PageTable \<Rightarrow> invoke_page_table im root slot cap inv_label reg))) s)"

definition putchar :: "u8 \<Rightarrow> kstate \<Rightarrow> kstate" where
  "putchar ch s = s\<lparr>ks_console := ks_console s @ [ch]\<rparr>"

definition dispatch :: "Image \<Rightarrow> usize \<Rightarrow> usize \<Rightarrow> usize option kprog" where
  "dispatch im syscall_n rp s =
     (let reg = registers (thread s rp)
      in case inv_label_try_from (rg_a2 reg) of
           Ok inv_label \<Rightarrow>
             if syscall_n = syscall_no_usize Print
             then (case inv_label of
                     PutChar \<Rightarrow> (Ok None, putchar (ucast (rg_a0 reg)) s)
                   | CNodeTraverse \<Rightarrow>
                       (case root_cnode (thread s (ks_current s)) of
                          Some e \<Rightarrow> bind_st (print_traverse (ent_cap e)) (\<lambda>_. pure_st None) s
                        | None \<Rightarrow> (Err (kerr CapNotFound), s))
                   | _ \<Rightarrow> (Err (kerr UnknownSysCall), s))
             else handle_invocation im (rg_a0 reg) (rg_a1 reg) inv_label rp s
         | _ \<Rightarrow> (Err (kerr UnknownInvocation), s))"

definition finish_syscall :: "usize option kres \<Rightarrow> Registers \<Rightarrow> Registers" where
  "finish_syscall ret r =
     (case ret of
        Err e \<Rightarrow> r\<lparr>rg_a0 := err_kind_usize (e_kind e), rg_a1 := ucast (e_val e)\<rparr>
      | Ok (Some val) \<Rightarrow> r\<lparr>rg_a0 := 0, rg_a1 := val\<rparr>
      | _ \<Rightarrow> r\<lparr>rg_a0 := 0\<rparr>)"

definition handle_syscall :: "Image \<Rightarrow> usize \<Rightarrow> usize \<Rightarrow> unit kprog" where
  "handle_syscall im syscall_n rp s =
     (case dispatch im syscall_n rp s of
        (Panic p, s1) \<Rightarrow> (Panic p, s1)
      | (Hang, s1) \<Rightarrow> (Hang, s1)
      | (ret, s1) \<Rightarrow>
          let s2 = update_registers rp (finish_syscall ret) s1
          in case (add_ck (rg_sepc (registers (thread s2 rp))) 4 :: usize kres) of
               Ok pc \<Rightarrow> (Ok (), update_registers rp (\<lambda>r. r\<lparr>rg_sepc := pc\<rparr>) s2)
             | _ \<Rightarrow> (Panic ArithOverflow, s2))"

section \<open>A failed call changes nothing\<close>

text \<open>
  \<open>clean m\<close>: when \<open>m\<close> returns an error, the state is the one it started from.
  \<open>no_err m\<close>: \<open>m\<close> returns no error.
\<close>

definition clean :: "'a kprog \<Rightarrow> bool" where
  "clean m \<longleftrightarrow> (\<forall>s e s'. m s = (Err e, s') \<longrightarrow> s' = s)"

definition no_err :: "'a kprog \<Rightarrow> bool" where
  "no_err m \<longleftrightarrow> (\<forall>s e s'. m s \<noteq> (Err e, s'))"

named_theorems clean_intros "rules that show a program clean"

lemma clean_reading [clean_intros]: "(\<And>x. clean (f x)) \<Longrightarrow> clean (bind_st (reading g) f)"
  by (auto simp: clean_def bind_st_eq_Err)

lemma clean_lift [clean_intros]: "(\<And>x. clean (f x)) \<Longrightarrow> clean (bind_st (lift_st r) f)"
  by (auto simp: clean_def bind_st_eq_Err)

lemma clean_lift_st [clean_intros]: "clean (lift_st r)"
  by (simp add: clean_def)

lemma clean_then: "clean m \<Longrightarrow> (\<And>x. no_err (f x)) \<Longrightarrow> clean (bind_st m f)"
  by (auto simp: clean_def no_err_def bind_st_eq_Err)

lemma clean_no_err: "no_err m \<Longrightarrow> clean m"
  by (simp add: clean_def no_err_def)

lemma no_err_bind [clean_intros]: "no_err m \<Longrightarrow> (\<And>x. no_err (f x)) \<Longrightarrow> no_err (bind_st m f)"
  by (auto simp: no_err_def bind_st_eq_Err)

lemma no_err_basic [clean_intros]: "no_err (pure_st x)" "no_err (modify_st f)" "no_err (request_if b)"
  by (simp_all add: no_err_def request_if_def)

lemma clean_modify [clean_intros]: "clean (modify_st f)"
  by (simp add: clean_def)

lemma clean_page_ops:
  "clean (page_cap_map c root v flags)" "clean (page_cap_unmap c root)"
  "clean (page_table_cap_map c root v)" "clean (make_as_root im c)"
  by (auto simp: clean_def dest: page_ops_fail_clean)

lemma clean_invoke_retype: "clean (invoke_retype im src self dest us num k)"
  unfolding clean_def using invoke_retype_clean by blast

lemma no_err_setters [clean_intros]:
  "no_err (set_root_cspace im t c p)" "no_err (set_root_vspace im t c p)" "no_err (set_ipc_buffer im t c p)"
  by (auto simp: no_err_def set_root_cspace_def set_root_vspace_def set_ipc_buffer_def bind_st_eq_Err assert_run_def
      split: prod.splits)

lemma no_err_set_space [clean_intros]:
  "no_err (set_cspace im c src src_cap)" "no_err (set_vspace im c src src_cap)"
  using no_err_setters by (simp_all add: set_cspace_def set_vspace_def no_err_def bind_st_eq_Err)

lemma clean_set_ipc_buffer: "clean (cap_set_ipc_buffer im c src src_cap)"
  unfolding cap_set_ipc_buffer_def by (intro clean_lift clean_no_err no_err_setters)

lemma no_err_wake [clean_intros]: "no_err (wake_up_thread t)" "no_err (block_thread t)"
  by (auto simp: no_err_def wake_up_thread_def block_thread_def bind_st_eq_Err assert_run_def)

lemma no_err_ipc [clean_intros]:
  "no_err (ep_send ep t)" "no_err (ep_recv ep t)" "no_err (send_signal np v)" "no_err (wait_signal np t)"
  using no_err_wake
  by (auto simp: no_err_def ep_send_def ep_recv_def send_signal_def wait_signal_def Let_def bind_st_eq_Err
      split: prod.splits option.splits)

lemma no_err_cap_ipc [clean_intros]:
  "no_err (ep_cap_send c t)" "no_err (ep_cap_recv c t)" "no_err (ntfn_cap_send c)" "no_err (ntfn_cap_wait c t)"
  by (auto simp: ep_cap_send_def ep_cap_recv_def ntfn_cap_send_def ntfn_cap_wait_def intro!: clean_intros)

lemmas clean_ops [clean_intros] =
  clean_page_ops [THEN clean_then] clean_invoke_retype [THEN clean_then] clean_set_ipc_buffer [THEN clean_then]
  no_err_set_space [THEN clean_no_err, THEN clean_then] no_err_cap_ipc [THEN clean_no_err, THEN clean_then]
  clean_modify [THEN clean_then]

lemma clean_split [clean_intros]:
  "(\<And>a b. clean (f a b)) \<Longrightarrow> clean (case p of (a, b) \<Rightarrow> f a b)"
  "(\<And>a b. no_err (g a b)) \<Longrightarrow> no_err (case p of (a, b) \<Rightarrow> g a b)"
  by (simp_all split: prod.split)

lemma clean_arms:
  "clean (invoke_untyped im root slot c reg)"
  "clean (invoke_cnode im root c l reg)"
  "clean (invoke_tcb im root c buf l reg)"
  "clean (invoke_notification c t l)"
  "clean (invoke_endpoint c t l)"
  "clean (invoke_page root slot c l reg)"
  "clean (invoke_page_table im root slot c l reg)"
  unfolding invoke_untyped_def invoke_cnode_def invoke_tcb_def invoke_notification_def
    invoke_endpoint_def invoke_page_def invoke_page_table_def Let_def
  by (auto intro!: clean_intros split: InvLabel.split)

lemma handle_invocation_clean:
  assumes "handle_invocation im p d l rp s = (Err e, s')"
  shows "s' = s"
proof -
  let ?cur = "ks_current s" and ?reg = "registers (thread s rp)"
  have "clean (bind_st (lift_st (ok_or (root_cnode (thread s ?cur)) (kerr CapNotFound))) (\<lambda>root_entry.
         let root = cap_replicate (ent_cap root_entry)
         in bind_st (reading (\<lambda>s. lookup_entry s root p (ucast d))) (\<lambda>(slot, cap).
            bind_st (lift_st (get_cap_type cap)) (\<lambda>ty.
            case ty of
              Untyped \<Rightarrow> invoke_untyped im root slot cap ?reg
            | CNode \<Rightarrow> invoke_cnode im root cap l ?reg
            | Tcb \<Rightarrow> invoke_tcb im root cap (ipc_buffer_ref (thread s ?cur)) l ?reg
            | Notification \<Rightarrow> invoke_notification cap ?cur l
            | EndPoint \<Rightarrow> invoke_endpoint cap ?cur l
            | Page \<Rightarrow> invoke_page root slot cap l ?reg
            | PageTable \<Rightarrow> invoke_page_table im root slot cap l ?reg))))"
    unfolding Let_def
    by (intro clean_lift clean_reading clean_split(1)) (simp split: CapabilityType.split add: clean_arms)
  then show ?thesis
    using assms unfolding clean_def handle_invocation_def Let_def by blast
qed

text \<open>
  A system call that fails leaves the whole kernel state as it was: the caller
  sees the error in its registers and nothing else has happened.
\<close>

lemma dispatch_clean:
  assumes "dispatch im n rp s = (Err e, s')"
  shows "s' = s"
proof (cases "inv_label_try_from (rg_a2 (registers (thread s rp)))")
  case (Ok l)
  show ?thesis
  proof (cases "n = syscall_no_usize Print")
    case True
    with Ok assms show ?thesis
      by (cases l) (auto simp: dispatch_def Let_def print_traverse_def bind_st_eq_Err split: option.splits)
  next
    case False
    with Ok assms show ?thesis by (auto simp: dispatch_def Let_def dest: handle_invocation_clean)
  qed
qed (use assms in \<open>simp_all add: dispatch_def Let_def\<close>)

section \<open>No capability is forged\<close>

text \<open>
  The object a capability gives access to, and the objects all capabilities of
  the system give access to: those in slots and those the threads hold.
\<close>

definition cap_object :: "CapabilityData \<Rightarrow> u8 \<times> PhysAddr" where
  "cap_object c = (cap_type c, get_address c)"

definition held_caps :: "ThreadInfo \<Rightarrow> CapabilityData set" where
  "held_caps i = ent_cap ` (set_option (root_cnode i) \<union> set_option (vspace i) \<union> set_option (ipc_buffer i))"

definition cap_objects :: "kstate \<Rightarrow> (u8 \<times> PhysAddr) set" where
  "cap_objects s = cap_object ` (ran (ks_cap s) \<union> (\<Union>t. held_caps (thread s t)))"

definition confined :: "(u8 \<times> PhysAddr) set \<Rightarrow> kstate \<Rightarrow> bool" where
  "confined X s \<longleftrightarrow> cap_objects s \<subseteq> X"

text \<open>\<open>safe X m\<close>: \<open>m\<close> keeps the objects of all capabilities within \<open>X\<close>.\<close>

definition safe :: "(u8 \<times> PhysAddr) set \<Rightarrow> 'a kprog \<Rightarrow> bool" where
  "safe X m \<longleftrightarrow> (\<forall>s r s'. confined X s \<longrightarrow> m s = (Ok r, s') \<longrightarrow> confined X s')"

lemma confined_iff:
  "confined X s \<longleftrightarrow>
     (\<forall>a c. ks_cap s a = Some c \<longrightarrow> cap_object c \<in> X) \<and> (\<forall>t. \<forall>c \<in> held_caps (thread s t). cap_object c \<in> X)"
  by (auto simp: confined_def cap_objects_def ran_def image_subset_iff ball_Un)

lemma safeI_frame:
  assumes "\<And>s r s'. m s = (Ok r, s') \<Longrightarrow> ks_cap s' = ks_cap s"
    and "\<And>s r s' t. m s = (Ok r, s') \<Longrightarrow> held_caps (thread s' t) = held_caps (thread s t)"
  shows "safe X m"
  unfolding safe_def confined_iff using assms by metis

lemma safe_bind: "safe X m \<Longrightarrow> (\<And>x. safe X (f x)) \<Longrightarrow> safe X (bind_st m f)"
  unfolding safe_def bind_st_eq_Ok by meson

lemma safe_pure: "safe X (pure_st x)"
  by (simp add: safe_def)

lemma safe_lift_end: "safe X (lift_st r)"
  by (simp add: safe_def)

lemma safe_lift: "(\<And>x. r = Ok x \<Longrightarrow> safe X (f x)) \<Longrightarrow> safe X (bind_st (lift_st r) f)"
  by (simp add: safe_def bind_st_eq_Ok) blast

lemma safe_reading:
  "(\<And>s x. confined X s \<Longrightarrow> g s = Ok x \<Longrightarrow> safe X (f x)) \<Longrightarrow> safe X (bind_st (reading g) f)"
  by (simp add: safe_def bind_st_eq_Ok) blast

lemma safe_modify:
  "(\<And>s. confined X s \<Longrightarrow> confined X (g s)) \<Longrightarrow> safe X (modify_st g)"
  by (simp add: safe_def)

lemma slot_object: "confined X s \<Longrightarrow> slot_at s a = Some e \<Longrightarrow> cap_object (ent_cap e) \<in> X"
  by (auto simp: confined_iff slot_at_def split: option.splits)

lemma lookup_entry_object:
  "confined X s \<Longrightarrow> lookup_entry s root p d = Ok (a, c) \<Longrightarrow> cap_object c \<in> X"
  by (auto simp: lookup_entry_def ok_or_def dest: slot_object split: option.splits)

lemma lookup_cap_object:
  "confined X s \<Longrightarrow> lookup_cap s root p d k = Ok (a, c) \<Longrightarrow> cap_object c \<in> X"
  by (auto simp: lookup_cap_def try_ref_as_Ok dest: lookup_entry_object)

lemma derive_as_object: "derive_as k c = Ok c' \<Longrightarrow> cap_object c' = cap_object c"
  by (cases k) (auto simp: cap_object_def)

lemma derive_object: "derive c = Ok c' \<Longrightarrow> cap_object c' = cap_object c"
  by (auto simp: derive_def dest: derive_as_object)

lemma dep_val_object [simp]: "cap_object (c\<lparr>cap_dep_val := v\<rparr>) = cap_object c"
  by (simp add: cap_object_def get_address_def)

lemma thread_write_entry [simp]: "thread (write_entry a e s) t = thread s t" "thread (write_cap a c s) t = thread s t"
  "thread (write_none a s) t = thread s t"
  by (simp_all add: write_entry_def write_cap_def write_none_def thread_def)

lemma write_objects:
  assumes "confined X s"
  shows "cap_object (ent_cap e) \<in> X \<Longrightarrow> confined X (write_entry a e s)"
    and "cap_object c \<in> X \<Longrightarrow> confined X (write_cap a c s)"
    and "confined X (write_none a s)"
  using assms by (auto simp: confined_iff) (auto simp: write_entry_def write_cap_def write_none_def split: if_splits)

lemma thread_mdb [simp]: "thread (mdb_insert a b s) t = thread s t" "thread (mdb_replace a b s) t = thread s t"
  by (simp_all add: mdb_insert_def mdb_replace_def set_next_def set_prev_def Let_def thread_def split: option.splits)

lemma mdb_objects [simp]:
  "cap_objects (mdb_insert a b s) = cap_objects s" "cap_objects (mdb_replace a b s) = cap_objects s"
  by (simp_all add: cap_objects_def)

lemma place_entry_objects: "confined X s \<Longrightarrow> confined X (place_entry a b s)"
  by (auto simp: place_entry_def split: option.splits intro!: write_objects(1) dest: slot_object)

lemma update_thread_confined:
  assumes "confined X s" and "\<And>c. c \<in> held_caps (f (thread s t)) \<Longrightarrow> cap_object c \<in> X"
  shows "confined X (update_thread t f s)"
  using assms by (auto simp: confined_iff thread_update)

lemma linked_entry_confined:
  assumes "linked_entry im c p s = (e, s1)" and "confined X s" and "cap_object c \<in> X"
  shows "confined X s1" and "x \<in> set_option e \<Longrightarrow> cap_object (ent_cap x) \<in> X"
proof -
  have s1: "s1 = mdb_insert (img_new_entry im) p (write_entry (img_new_entry im) (new_with_rawcap c) s)"
    using assms(1) by (auto simp: linked_entry_def Let_def)
  have "confined X (write_entry (img_new_entry im) (new_with_rawcap c) s)"
    using assms(2,3) by (intro write_objects(1)) (simp_all add: new_with_rawcap_def)
  then show "confined X s1" by (simp add: s1 confined_def)
  show "x \<in> set_option e \<Longrightarrow> cap_object (ent_cap x) \<in> X"
    using linked_entry_facts(1) [OF assms(1)] assms(3) by auto
qed

lemma held_caps_update:
  "c \<in> held_caps (i\<lparr>root_cnode := e\<rparr>) \<Longrightarrow> c \<in> held_caps i \<or> c \<in> ent_cap ` set_option e"
  "c \<in> held_caps (i\<lparr>vspace := e\<rparr>) \<Longrightarrow> c \<in> held_caps i \<or> c \<in> ent_cap ` set_option e"
  "c \<in> held_caps (i\<lparr>ipc_buffer := e\<rparr>) \<Longrightarrow> c \<in> held_caps i \<or> c \<in> ent_cap ` set_option e"
  by (auto simp: held_caps_def)

lemma safe_setters:
  assumes "cap_object c \<in> X"
  shows "safe X (set_root_cspace im t c p)" "safe X (set_root_vspace im t c p)" "safe X (set_ipc_buffer im t c p)"
proof -
  have *: "confined X (update_thread t (f e) s1)"
    if le: "linked_entry im c p s = (e, s1)" and s: "confined X s"
      and f: "\<And>x i. x \<in> held_caps (f e i) \<Longrightarrow> x \<in> held_caps i \<or> x \<in> ent_cap ` set_option e" for e s s1 f
  proof (rule update_thread_confined)
    show "confined X s1" using linked_entry_confined(1) [OF le s assms] .
    then show "cap_object x \<in> X" if "x \<in> held_caps (f e (thread s1 t))" for x
      using f [OF that] linked_entry_confined(2) [OF le s assms] by (auto simp: confined_iff)
  qed
  show "safe X (set_root_cspace im t c p)"
    using * [where f = "\<lambda>e i. i\<lparr>root_cnode := e\<rparr>", OF _ _ held_caps_update(1)]
    by (auto simp: safe_def set_root_cspace_def bind_st_eq_Ok split: prod.splits)
  show "safe X (set_root_vspace im t c p)"
    using * [where f = "\<lambda>e i. i\<lparr>vspace := e\<rparr>", OF _ _ held_caps_update(2)]
    by (auto simp: safe_def set_root_vspace_def bind_st_eq_Ok split: prod.splits)
  show "safe X (set_ipc_buffer im t c p)"
    using * [where f = "\<lambda>e i. i\<lparr>ipc_buffer := e\<rparr>", OF _ _ held_caps_update(3)]
    by (auto simp: safe_def set_ipc_buffer_def bind_st_eq_Ok split: prod.splits)
qed

lemma safe_set_spaces:
  assumes "cap_object c \<in> X"
  shows "safe X (set_cspace im tc p c)" "safe X (set_vspace im tc p c)" "safe X (cap_set_ipc_buffer im tc p c)"
  unfolding set_cspace_def set_vspace_def cap_set_ipc_buffer_def
  by (intro safe_lift safe_setters; metis derive_as_object assms)+

text \<open>Programs that only touch queues, registers and buffers.\<close>

definition caps_kept :: "kstate \<Rightarrow> kstate \<Rightarrow> bool" where
  "caps_kept s s' \<longleftrightarrow> ks_cap s' = ks_cap s \<and> (\<forall>t. held_caps (thread s' t) = held_caps (thread s t))"

lemma caps_kept_confined: "caps_kept s s' \<Longrightarrow> confined X s \<Longrightarrow> confined X s'"
  by (simp add: caps_kept_def confined_iff)

lemma caps_kept_trans: "caps_kept s t \<Longrightarrow> caps_kept t u \<Longrightarrow> caps_kept s u"
  by (simp add: caps_kept_def)

lemma caps_kept_basic:
  "caps_kept s s" "caps_kept s (set_ep p e s)" "caps_kept s (set_ntfn p n s)" "caps_kept s (set_ipc_msg t b s)"
  "caps_kept s (update_registers t f s)" "caps_kept s (resume t s)" "caps_kept s (update_thread t thread_suspend s)"
  "caps_kept s (ep_queue_push ep t s)" "caps_kept s (require_schedule s)" "caps_kept s (putchar ch s)"
  "caps_kept s (update_thread t (\<lambda>i. i\<lparr>badge := v\<rparr>) s)"
  by (auto simp: caps_kept_def held_caps_def thread_suspend_def thread_resume_def thread_update)
    (simp_all add: set_ep_def set_ntfn_def set_ipc_msg_def update_registers_def resume_def ep_queue_push_def
      require_schedule_def putchar_def thread_def split: option.splits prod.splits)

definition keeps :: "'a kprog \<Rightarrow> bool" where
  "keeps m \<longleftrightarrow> (\<forall>s. caps_kept s (snd (m s)))"

lemma keeps_bind: "keeps m \<Longrightarrow> (\<And>x. keeps (f x)) \<Longrightarrow> keeps (bind_st m f)"
  unfolding keeps_def bind_st_def
  by (auto split: prod.splits run.splits) (metis caps_kept_trans snd_conv)+

lemma keeps_basic:
  "keeps (pure_st x)" "keeps (lift_st r)" "keeps (reading g)"
  "(\<And>s. caps_kept s (h s)) \<Longrightarrow> keeps (modify_st h)" "keeps (\<lambda>s. (q s, s))"
  by (simp_all add: keeps_def caps_kept_basic)

lemma keeps_wake: "keeps (wake_up_thread t)" "keeps (block_thread t)"
  unfolding wake_up_thread_def block_thread_def
  by (intro keeps_bind keeps_basic caps_kept_basic)+

lemma keeps_at: "keeps m \<Longrightarrow> caps_kept s0 s \<Longrightarrow> caps_kept s0 (snd (m s))"
  unfolding keeps_def using caps_kept_trans by blast

lemma pop_from_queue_kept: "pop_from_queue ep st s = (r, s1) \<Longrightarrow> caps_kept s s1"
  by (auto simp: pop_from_queue_def Let_def caps_kept_basic split: if_splits prod.splits)

lemma keeps_ep: "keeps (ep_send ep t)" "keeps (ep_recv ep t)"
proof -
  have b: "keeps (bind_st (block_thread t) (\<lambda>_. bind_st (modify_st (ep_queue_push ep t)) (\<lambda>_. pure_st True)))"
    by (intro keeps_bind keeps_basic(1-4) keeps_wake caps_kept_basic(8))
  have w: "keeps (bind_st (wake_up_thread r) (\<lambda>_. pure_st False))" for r
    by (intro keeps_bind keeps_basic(1-4) keeps_wake)
  have m: "caps_kept s (update_registers r f (set_ipc_msg r bf s1))" if "caps_kept s s1" for s s1 r f bf
    by (rule caps_kept_trans [OF caps_kept_trans [OF that caps_kept_basic(4)] caps_kept_basic(5)])
  have "caps_kept s (snd (ep_send ep t s)) \<and> caps_kept s (snd (ep_recv ep t s))" for s
  proof -
    obtain r1 s1 r2 s2 where p: "pop_from_queue ep EpStSend s = (r1, s1)" "pop_from_queue ep EpStRecv s = (r2, s2)"
      by (metis surj_pair)
    note k = p [THEN pop_from_queue_kept]
    show ?thesis
      using keeps_at [OF b k(1)] keeps_at [OF b k(2)] keeps_at [OF w m [OF k(1)]] keeps_at [OF w m [OF k(2)]]
      by (simp add: ep_send_def ep_recv_def Let_def p split: option.split)
  qed
  then show "keeps (ep_send ep t)" "keeps (ep_recv ep t)" by (simp_all add: keeps_def)
qed

lemma keeps_ntfn: "keeps (send_signal np v)" "keeps (wait_signal np t)"
proof -
  have "caps_kept s (snd (send_signal np v s))" for s
    unfolding send_signal_def Let_def
    by (auto split: prod.split option.split intro!: keeps_at [OF keeps_wake(1)]
        intro: caps_kept_trans caps_kept_basic)
  then show "keeps (send_signal np v)" by (simp add: keeps_def)
  have "caps_kept s (s\<lparr>ks_tcb := fst (ll_push (ks_tcb s) l t), ks_ntfn := n\<rparr>)" for s l n
    by (simp add: caps_kept_def thread_def)
  then have p: "keeps (\<lambda>s1. let (h, q) = ll_push (ks_tcb s1) (wait_queue (ks_ntfn s1 np)) t
              in (Ok True, s1\<lparr>ks_tcb := h,
                     ks_ntfn := (ks_ntfn s1)(np := (ks_ntfn s1 np)\<lparr>wait_queue := q\<rparr>)\<rparr>))"
    by (simp add: keeps_def case_prod_beta)
  have "keeps (bind_st (block_thread t) (\<lambda>_ s1. let (h, q) = ll_push (ks_tcb s1) (wait_queue (ks_ntfn s1 np)) t
              in (Ok True, s1\<lparr>ks_tcb := h,
                     ks_ntfn := (ks_ntfn s1)(np := (ks_ntfn s1 np)\<lparr>wait_queue := q\<rparr>)\<rparr>)))"
    by (intro keeps_bind keeps_wake) (rule p)
  then have "caps_kept s (snd (wait_signal np t s))" for s
    unfolding wait_signal_def Let_def keeps_def
    by (auto intro: caps_kept_trans caps_kept_basic)
  then show "keeps (wait_signal np t)" by (simp add: keeps_def)
qed

lemma safe_keeps: "keeps m \<Longrightarrow> safe X m"
  unfolding keeps_def safe_def by (metis caps_kept_confined snd_conv)

lemma safe_page_ops:
  assumes "cap_object c \<in> X"
  shows "page_cap_map c root v fl s = (Ok c', s') \<Longrightarrow> cap_object c' \<in> X \<and> caps_kept s s'"
    and "page_cap_unmap c root s = (Ok c', s') \<Longrightarrow> cap_object c' \<in> X \<and> caps_kept s s'"
    and "page_table_cap_map c root v s = (Ok (n, c'), s') \<Longrightarrow> cap_object c' \<in> X \<and> caps_kept s s'"
    and "make_as_root im c s = (Ok c', s') \<Longrightarrow> cap_object c' \<in> X \<and> caps_kept s s'"
  using assms
  by (auto simp: page_cap_map_def page_cap_unmap_def page_table_cap_map_def make_as_root_def page_map_def
      page_unmap_def page_table_map_def bind_st_eq_Ok cap_set_mapped_def cap_set_unmapped_def cap_set_root_def
      caps_kept_def set_pte_def copy_global_mapping_def thread_def split: prod.splits if_splits)

lemma try_ref_object: "try_ref_as k c = Ok c' \<Longrightarrow> c' = c"
  by (simp add: try_ref_as_Ok)

lemma safe_page_bind:
  assumes "\<And>s x s'. m s = (Ok x, s') \<Longrightarrow> cap_object (g x) \<in> X \<and> caps_kept s s'"
    and "\<And>x. cap_object (g x) \<in> X \<Longrightarrow> safe X (f x)"
  shows "safe X (bind_st m f)"
  unfolding safe_def bind_st_eq_Ok using assms caps_kept_confined safe_def by metis

lemma safe_write_cap: "cap_object c \<in> X \<Longrightarrow> safe X (modify_st (write_cap a c))"
  by (intro safe_modify write_objects(2))

lemma keeps_request: "keeps (request_if b)"
  by (simp add: request_if_def keeps_def caps_kept_basic)

lemmas keeps_intros = keeps_bind keeps_basic(1-3) keeps_request keeps_ep keeps_ntfn

lemma keeps_cap_ipc:
  "keeps (ep_cap_send c t)" "keeps (ep_cap_recv c t)" "keeps (ntfn_cap_send c)" "keeps (ntfn_cap_wait c t)"
  unfolding ep_cap_send_def ep_cap_recv_def ntfn_cap_send_def ntfn_cap_wait_def
  by (intro keeps_intros keeps_basic(4) caps_kept_basic(11))+

lemma safe_ipc_arms: "safe X (invoke_notification c t l)" "safe X (invoke_endpoint c t l)"
proof -
  have "keeps (invoke_notification c t l)" "keeps (invoke_endpoint c t l)"
    unfolding invoke_notification_def invoke_endpoint_def
    by (auto split: InvLabel.split intro!: keeps_intros keeps_cap_ipc)
  then show "safe X (invoke_notification c t l)" "safe X (invoke_endpoint c t l)" by (auto intro: safe_keeps)
qed

lemma safe_page_arms:
  assumes "cap_object c \<in> X"
  shows "safe X (invoke_page root slot c l reg)" "safe X (invoke_page_table im root slot c l reg)"
proof -
  have w: "safe X (bind_st (modify_st (write_cap slot c')) (\<lambda>_. pure_st r))" if "cap_object c' \<in> X" for c' r
    using that by (intro safe_bind safe_write_cap safe_pure)
  have r: "safe X (bind_st (reading g) (\<lambda>(a, b). f a b))" if "\<And>a b. safe X (f a b)" for g f
    by (rule safe_reading) (use that in \<open>auto split: prod.split\<close>)
  note p = safe_page_ops [OF assms]
  have m: "safe X (bind_st (page_cap_map c rt v fl) (\<lambda>c'. bind_st (modify_st (write_cap slot c')) (\<lambda>_. pure_st None)))"
    "safe X (bind_st (page_cap_unmap c rt) (\<lambda>c'. bind_st (modify_st (write_cap slot c')) (\<lambda>_. pure_st None)))"
    "safe X (bind_st (make_as_root im c) (\<lambda>c'. bind_st (modify_st (write_cap slot c')) (\<lambda>_. pure_st None)))" for rt v fl
    by (rule safe_page_bind [where g = id]; auto dest: p intro: w)+
  have n: "safe X (bind_st (page_table_cap_map c rt v) (\<lambda>(n, c'). bind_st (modify_st (write_cap slot c')) (\<lambda>_. pure_st (Some (of_nat n)))))" for rt v
    by (rule safe_page_bind [where g = snd]) (auto dest: p intro: w)
  show "safe X (invoke_page root slot c l reg)" "safe X (invoke_page_table im root slot c l reg)"
    unfolding invoke_page_def invoke_page_table_def
    by (auto intro!: safe_lift safe_lift_end r m n dest!: try_ref_object split: InvLabel.split)
qed

lemma safe_cnode: "safe X (invoke_cnode im root c l reg)"
  unfolding invoke_cnode_def Let_def
proof (intro safe_lift safe_reading, goal_cases)
  case (1 dest_root s p)
  obtain src_slot src_cap where p: "p = (src_slot, src_cap)" by fastforce
  with 1 have src: "cap_object src_cap \<in> X" using lookup_entry_object by blast
  have "confined X (write_none src_slot (mdb_replace local src_slot s))" if "confined X s" for s local
    using that by (intro write_objects(3)) (simp add: confined_def)
  moreover have "confined X (mdb_insert local src_slot s)" if "confined X s" for s local
    using that by (simp add: confined_def)
  ultimately show ?case
    unfolding p prod.case using src
    by (intro safe_reading safe_lift safe_bind safe_modify safe_pure place_entry_objects write_objects(1))
      (auto simp: new_with_rawcap_def set_cap_dep_val_def dest!: derive_object)
qed

lemma safe_tcb: "safe X (invoke_tcb im root c buf l reg)"
proof -
  have o: "cap_object c' \<in> X"
    if "confined X s" "bind_run (ok_or (slot_at s a) (kerr SlotIsEmpty)) (\<lambda>e. try_ref_as k (ent_cap e)) = Ok c'" for s a k c'
    using that by (auto simp: ok_or_def try_ref_as_Ok dest: slot_object split: option.splits)
  have l: "cap_object c' \<in> X" if "confined X s" "lookup_cap s r p d k = Ok x" "x = (a, c')" for s r p d k x a c'
    using that lookup_cap_object by blast
  show ?thesis
    unfolding invoke_tcb_def set_registers_def make_runnable_def
    by (rule safe_lift, cases l)
      (auto intro!: safe_reading safe_lift safe_bind safe_set_spaces safe_pure safe_lift_end safe_modify
        intro: caps_kept_confined caps_kept_basic dest: o l)
qed

text \<open>The untyped arm adds the objects of the generator, and nothing else.\<close>

lemma set_next_confined [simp]: "confined X (set_next a b s) = confined X s"
  by (simp add: confined_iff thread_def set_next_def)

lemma insert_cap_confined:
  assumes "confined X s" and "cap_object c \<in> X"
  shows "confined X (insert_cap im root p c i s)"
proof -
  let ?s1 = "write_entry (img_entry im) (new_with_rawcap c) s"
  have s1: "confined X ?s1" using assms by (intro write_objects(1)) (simp_all add: new_with_rawcap_def)
  define s3 where "s3 = set_next p (img_entry im)
     (case get_next ?s1 p of Some q \<Rightarrow> set_next (img_entry im) q ?s1 | None \<Rightarrow> ?s1)"
  have s3: "confined X s3" using s1 by (simp add: s3_def split: option.split)
  then show ?thesis
    using slot_object [OF s3] write_objects(1) [OF s3]
    by (simp add: insert_cap_def Let_def s3_def [symmetric] split: option.split)
qed

lemma init_object_confined:
  assumes "init_object k c s = (Ok u, s')" and "confined X s"
  shows "confined X s'"
proof (cases k)
  case Tcb
  have "held_caps (default_thread\<lparr>tid := n\<rparr>) = {}" for n by (simp add: held_caps_def default_thread_def)
  with Tcb show ?thesis
    using assms
    by (auto simp: confined_iff thread_new_def thread_def ListItem_new_def bind_st_eq_Ok split: run.splits if_splits)
qed (use assms in \<open>auto simp: confined_iff thread_def set_ep_def set_ntfn_def zero_page_table_def\<close>)

lemma insert_all_confined:
  assumes "gen_caps k g = Ok cs" and "\<And>c. c \<in> set cs \<Longrightarrow> cap_object c \<in> X" and "confined X s"
    and "insert_all im k src dest i g s = (Ok u, s')"
  shows "confined X s'"
  using assms
proof (induction cs arbitrary: g i s)
  case Nil
  then have "gen_next k g = Ok None" by (auto simp: gen_caps.simps [of k g] split: run.splits option.splits)
  then show ?case using Nil by (simp add: insert_all.simps)
next
  case (Cons c cs)
  then obtain g' where nx: "gen_next k g = Ok (Some (c, g'))" and g': "gen_caps k g' = Ok cs"
    by (auto simp: gen_caps.simps [of k g] split: run.splits option.splits)
  obtain r s1 where r: "init_object k c s = (r, s1)" by fastforce
  with Cons.prems(4) nx obtain v where v: "r = Ok v"
    and rest: "insert_all im k src dest (Suc i) g' (insert_cap im dest src c i s1) = (Ok u, s')"
    by (cases r) (simp_all add: insert_all.simps [of im k src dest i g s])
  have "confined X (insert_cap im dest src c i s1)"
    using init_object_confined [of k c s v s1] r v Cons.prems(2,3) by (intro insert_cap_confined) auto
  then show ?case using Cons.IH [OF g' _ _ rest] Cons.prems(2) by simp
qed

text \<open>The objects an untyped capability can still give rise to.\<close>

definition fresh_objects :: "CapabilityData \<Rightarrow> (u8 \<times> PhysAddr) set" where
  "fresh_objects u = {x. fst x \<in> range cap_type_u8 \<and> unat (get_free_index u) \<le> unat (phys_to_kva (snd x))}"

lemma retype_confined:
  assumes "invoke_retype im src self dest us num k s = (Ok u, s')"
    and "confined X s" and "cap_object self \<in> X" and "fresh_objects self \<subseteq> X"
  shows "confined X s'"
proof -
  have k: "k \<noteq> Untyped" and r: "retype_and_insert im k src self dest us num s = (Ok u, s')"
    using assms(1) by (auto simp: invoke_retype_def split: CapabilityType.splits)
  then obtain self' g where rt: "retype im k self us num = Ok (self', g)"
    and ins: "insert_all im k src dest 0 g (write_cap src self' s) = (Ok u, s')"
    by (auto simp: retype_and_insert_def bind_st_eq_Ok)
  obtain one where one: "get_object_size im k us = Ok one" using retype_size [OF rt] by blast
  note f = retype_facts [OF rt k one]
  note mono = retype_free_index_mono [OF rt k]
  obtain cs where cs: "gen_caps k g = Ok cs"
    "\<forall>j < length cs. obj_addr (cs ! j) = unat (gen_address g) + j * unat (gen_obj_size g)" "\<forall>c \<in> set cs. cap_type c = cap_type_u8 k"
    using gen_caps_regions [OF f(7) k mono(3)] by auto
  have "cap_object c \<in> X" if "c \<in> set cs" for c
  proof -
    obtain j where "j < length cs" "c = cs ! j" using \<open>c \<in> set cs\<close> by (auto simp: in_set_conv_nth)
    then have "unat (get_free_index self) \<le> obj_addr c" using cs(2) mono(1) by simp
    moreover have "cap_type c = cap_type_u8 k" using cs(3) that by blast
    ultimately show ?thesis using assms(4) by (auto simp: fresh_objects_def cap_object_def obj_addr_def)
  qed
  moreover have "cap_type self' = cap_type self"
    using rt f(1) by (auto simp: retype_def Let_def one)
  then have "cap_object self' \<in> X" using assms(3) f(9) by (simp add: cap_object_def)
  ultimately show ?thesis
    by (intro insert_all_confined [OF cs(1) _ _ ins] write_objects(2) [OF assms(2)])
qed

lemma untyped_confined:
  assumes "invoke_untyped im root slot c reg s = (Ok r, s')"
    and "confined X s" and "cap_object c \<in> X" and "fresh_objects c \<subseteq> X"
  shows "confined X s'"
  using assms retype_confined
  by (auto simp: invoke_untyped_def Let_def bind_st_eq_Ok dest!: try_ref_object split: prod.splits)

lemma lookup_entry_slot: "lookup_entry s root p d = Ok (a, c) \<Longrightarrow> ks_cap s a = Some c"
  by (cases "lookup_entry_mut s root p d"; cases "ks_cap s a")
    (simp_all add: lookup_entry_def ok_or_def slot_at_def split: option.splits, force)

lemma handle_invocation_confined:
  assumes "handle_invocation im p d l rp s = (Ok r, s')" and "confined X s"
    and "\<And>a u. ks_cap s a = Some u \<Longrightarrow> cap_type u = cap_type_u8 Untyped \<Longrightarrow> fresh_objects u \<subseteq> X"
  shows "confined X s'"
proof -
  let ?reg = "registers (thread s rp)" and ?cur = "ks_current s"
  let ?arm = "\<lambda>root slot c k. case k of
              Untyped \<Rightarrow> invoke_untyped im root slot c ?reg
            | CNode \<Rightarrow> invoke_cnode im root c l ?reg
            | Tcb \<Rightarrow> invoke_tcb im root c (ipc_buffer_ref (thread s ?cur)) l ?reg
            | Notification \<Rightarrow> invoke_notification c ?cur l
            | EndPoint \<Rightarrow> invoke_endpoint c ?cur l
            | Page \<Rightarrow> invoke_page root slot c l ?reg
            | PageTable \<Rightarrow> invoke_page_table im root slot c l ?reg"
  obtain e where e: "root_cnode (thread s ?cur) = Some e"
    using assms(1) by (cases "root_cnode (thread s ?cur)") (simp_all add: handle_invocation_def Let_def ok_or_def bind_st_def del: bind_st_simps)
  let ?root = "ent_cap e"
  obtain slot c where c: "lookup_entry s ?root p (ucast d) = Ok (slot, c)"
    using assms(1) by (cases "lookup_entry s ?root p (ucast d)") (auto simp: handle_invocation_def Let_def ok_or_def bind_st_def e simp del: bind_st_simps)
  obtain k where k: "get_cap_type c = Ok k"
    using assms(1) by (cases "get_cap_type c") (simp_all add: handle_invocation_def Let_def ok_or_def bind_st_def e c del: bind_st_simps)
  have arm: "?arm ?root slot c k s = (Ok r, s')"
    using assms(1) by (simp add: handle_invocation_def Let_def ok_or_def bind_st_def e c k del: bind_st_simps)
  have o: "cap_object c \<in> X" using lookup_entry_object [OF assms(2) c] .
  have slot: "ks_cap s slot = Some c"
    by (rule lookup_entry_slot [OF c])
  have at: "confined X s'" if "safe X m" "m s = (Ok r, s')" for m :: "usize option kprog"
    using that assms(2) by (auto simp: safe_def)
  show ?thesis
  proof (cases k)
    case Untyped
    then have "fresh_objects c \<subseteq> X" using assms(3) [OF slot] k by (simp add: get_cap_type_Ok)
    with Untyped arm show ?thesis by (simp only: CapabilityType.case) (rule untyped_confined [OF _ assms(2) o])
  next
    case Tcb
    with arm show ?thesis by (simp only: CapabilityType.case) (rule at [OF safe_tcb])
  next
    case EndPoint
    with arm show ?thesis by (simp only: CapabilityType.case) (rule at [OF safe_ipc_arms(2)])
  next
    case CNode
    with arm show ?thesis by (simp only: CapabilityType.case) (rule at [OF safe_cnode])
  next
    case Notification
    with arm show ?thesis by (simp only: CapabilityType.case) (rule at [OF safe_ipc_arms(1)])
  next
    case PageTable
    with arm show ?thesis by (simp only: CapabilityType.case) (rule at [OF safe_page_arms(2) [OF o]])
  next
    case Page
    with arm show ?thesis by (simp only: CapabilityType.case) (rule at [OF safe_page_arms(1) [OF o]])
  qed
qed

lemma dispatch_confined:
  assumes "dispatch im n rp s = (Ok r, s')" and "confined X s"
    and "\<And>a u. ks_cap s a = Some u \<Longrightarrow> cap_type u = cap_type_u8 Untyped \<Longrightarrow> fresh_objects u \<subseteq> X"
  shows "confined X s'"
proof (cases "inv_label_try_from (rg_a2 (registers (thread s rp)))")
  case (Ok l)
  show ?thesis
  proof (cases "n = syscall_no_usize Print")
    case True
    with Ok assms(1) have "s' = s \<or> s' = putchar (ucast (rg_a0 (registers (thread s rp)))) s"
      by (cases l) (auto simp: dispatch_def Let_def print_traverse_def bind_st_eq_Ok split: option.splits)
    then show ?thesis using assms(2) caps_kept_confined [OF caps_kept_basic(10)] by auto
  next
    case False
    with Ok assms(1) have "handle_invocation im (rg_a0 (registers (thread s rp))) (rg_a1 (registers (thread s rp))) l rp s = (Ok r, s')"
      by (simp add: dispatch_def Let_def)
    then show ?thesis by (rule handle_invocation_confined) (use assms in auto)
  qed
qed (use assms(1) in \<open>simp_all add: dispatch_def Let_def\<close>)


section \<open>Capabilities keep a valid type\<close>

text \<open>
  The type of a capability is a number in its word, which the kernel decodes before
  every use. The state is well typed when every capability in a slot or held by a
  thread decodes.
\<close>

definition has_type :: "CapabilityData \<Rightarrow> bool" where
  "has_type c \<longleftrightarrow> (\<exists>k. get_cap_type c = Ok k)"

definition well_typed :: "kstate \<Rightarrow> bool" where
  "well_typed s \<longleftrightarrow> (\<forall>a c. ks_cap s a = Some c \<longrightarrow> has_type c) \<and> (\<forall>t. \<forall>c \<in> held_caps (thread s t). has_type c)"

lemma well_typed_confined: "well_typed s \<longleftrightarrow> confined (range cap_type_u8 \<times> UNIV) s"
  unfolding well_typed_def confined_iff has_type_def get_cap_type_Ok cap_object_def by (auto simp: image_iff)


section \<open>What the caller sees\<close>

lemma update_registers_twice:
  "update_registers t g (update_registers t f s) = update_registers t (\<lambda>r. g (f r)) s"
  by (simp add: update_registers_def update_thread_def thread_def)

lemma handle_syscall_err:
  assumes "dispatch im n rp s = (Err e, s')" and "unat (rg_sepc (registers (thread s rp))) + 4 < 2 ^ 64"
  shows "handle_syscall im n rp s =
     (Ok (), update_registers rp (\<lambda>r. r\<lparr>rg_a0 := err_kind_usize (e_kind e), rg_a1 := ucast (e_val e),
                rg_sepc := rg_sepc r + 4\<rparr>) s)"
proof -
  have "s' = s" using dispatch_clean [OF assms(1)] .
  moreover have "(add_ck (rg_sepc (registers (thread s rp))) 4 :: usize kres) = Ok (rg_sepc (registers (thread s rp)) + 4)"
    using assms(2) by (simp add: add_ck_def)
  ultimately show ?thesis
    using assms(1) by (simp add: handle_syscall_def finish_syscall_def Let_def update_registers_twice)
      (simp add: update_registers_def update_thread_def)
qed

text \<open>
  C2: A system call that fails reports the code of the error in a0 and its value in a1, moves
  the program counter past the call, and changes nothing else of the state of the kernel.
\<close>

theorem failed_call_reported:
  assumes "dispatch im n rp s = (Err e, s')" and "unat (rg_sepc (registers (thread s rp))) + 4 < 2 ^ 64"
  shows "handle_syscall im n rp s =
     (Ok (), update_registers rp (\<lambda>r. r\<lparr>rg_a0 := err_kind_usize (e_kind e), rg_a1 := ucast (e_val e),
                rg_sepc := rg_sepc r + 4\<rparr>) s)"
  using assms by (rule handle_syscall_err)

section \<open>Copying, minting and moving capabilities\<close>

lemma place_entry_caps:
  "ks_cap s local = Some c \<Longrightarrow> ks_cap (place_entry local dest s) = (ks_cap s)(dest := Some c)"
  by (simp add: place_entry_def slot_at_def write_entry_def)

lemma mdb_sched_frame:
  "ks_tcb (mdb_insert a b s) = ks_tcb s" "ks_current (mdb_insert a b s) = ks_current s"
  "ks_requested (mdb_insert a b s) = ks_requested s" "ks_cur_reg_base (mdb_insert a b s) = ks_cur_reg_base s"
  "ks_tcb (mdb_replace a b s) = ks_tcb s" "ks_current (mdb_replace a b s) = ks_current s"
  "ks_requested (mdb_replace a b s) = ks_requested s" "ks_cur_reg_base (mdb_replace a b s) = ks_cur_reg_base s"
  by (simp_all add: mdb_insert_def mdb_replace_def set_next_def set_prev_def Let_def split: option.splits)

lemma invoke_cnode_Ok:
  assumes "get_cap_type c = Ok CNode"
    and "lookup_entry s root (rg_a3 reg) (ucast (drop_bit 32 (rg_a4 reg))) = Ok (src, src_cap)"
    and "lookup_entry_mut s c (rg_a5 reg) (ucast (rg_a4 reg)) = Ok dest" and "ks_cap s dest = None"
    and "derive src_cap = Ok new_cap" and "src \<noteq> img_new_slot im"
  obtains s' where "invoke_cnode im root c l reg s = (Ok None, s')"
    "ks_cap s' = (if l = CNodeMove then (ks_cap s)(src := None) else ks_cap s)
       (img_new_slot im := ks_cap s' (img_new_slot im),
        dest := Some (if l = CNodeMint then set_cap_dep_val new_cap (rg_a6 reg) else new_cap))"
    "ks_tcb s' = ks_tcb s" "ks_current s' = ks_current s" "ks_requested s' = ks_requested s" "ks_cur_reg_base s' = ks_cur_reg_base s"
    "ks_cap s src = Some src_cap" "src \<noteq> dest"
proof -
  let ?l = "img_new_slot im"
  let ?new = "if l = CNodeMint then set_cap_dep_val new_cap (rg_a6 reg) else new_cap"
  let ?s1 = "write_entry ?l (new_with_rawcap ?new) s"
  let ?s2 = "(if l = CNodeMove then (\<lambda>s. write_none src (mdb_replace ?l src s)) else mdb_insert ?l src) ?s1"
  let ?s3 = "place_entry ?l dest ?s2"
  have src: "ks_cap s src = Some src_cap" using lookup_entry_slot [OF assms(2)] .
  then have ne: "src \<noteq> dest" using assms(4) by auto
  have "slot_at s dest = None" using assms(4) by (simp add: slot_at_def)
  moreover have "try_ref_as CNode c = Ok c" using assms(1) by (simp add: try_ref_as_Ok get_cap_type_Ok)
  ultimately have run: "invoke_cnode im root c l reg s = (Ok None, ?s3)"
    using assms(2,3,5) by (simp add: invoke_cnode_def Let_def bind_st_def del: bind_st_simps)
  have s1: "ks_cap ?s1 = (ks_cap s)(?l := Some ?new)"
    by (simp add: write_entry_def new_with_rawcap_def)
  have s2: "ks_cap ?s2 = (if l = CNodeMove then (ks_cap ?s1)(src := None) else ks_cap ?s1)"
    by (simp add: write_none_def)
  have "ks_cap ?s2 ?l = Some ?new" unfolding s2 s1 using assms(6) by simp
  from place_entry_caps [OF this] have "ks_cap ?s3 = (ks_cap ?s2)(dest := Some ?new)" .
  then have c3: "ks_cap ?s3
      = (if l = CNodeMove then (ks_cap s)(?l := Some ?new, src := None) else (ks_cap s)(?l := Some ?new))(dest := Some ?new)"
    unfolding s2 s1 .
  then have l: "ks_cap ?s3 ?l = Some ?new" using assms(6) by (cases "l = CNodeMove") simp_all
  have "ks_cap ?s3 = (if l = CNodeMove then (ks_cap s)(src := None) else ks_cap s)(?l := ks_cap ?s3 ?l, dest := Some ?new)"
    unfolding l c3 using assms(6) by (auto simp: fun_eq_iff)
  moreover have "ks_tcb ?s3 = ks_tcb s" "ks_current ?s3 = ks_current s" "ks_requested ?s3 = ks_requested s" "ks_cur_reg_base ?s3 = ks_cur_reg_base s"
    by (simp_all add: place_entry_def write_entry_def write_none_def mdb_sched_frame split: option.splits)
  ultimately show thesis using that [OF run] src ne by blast
qed

text \<open>
  C28: Copying, minting and moving: the destination receives the derived capability, with the
  value of the caller as its badge when it is minted; the source keeps its capability unless it
  is moved, and no other slot changes.
\<close>

theorem cnode_invocation:
  assumes "get_cap_type c = Ok CNode"
    and "lookup_entry s root (rg_a3 reg) (ucast (drop_bit 32 (rg_a4 reg))) = Ok (src, src_cap)"
    and "lookup_entry_mut s c (rg_a5 reg) (ucast (rg_a4 reg)) = Ok dest" and "ks_cap s dest = None"
    and "derive src_cap = Ok new_cap" and "src \<noteq> img_new_slot im"
  shows "\<exists>s'. invoke_cnode im root c l reg s = (Ok None, s')
    \<and> ks_cap s' dest = Some (if l = CNodeMint then set_cap_dep_val new_cap (rg_a6 reg) else new_cap)
    \<and> ks_cap s' src = (if l = CNodeMove then None else Some src_cap)
    \<and> (\<forall>a. a \<noteq> src \<and> a \<noteq> dest \<and> a \<noteq> img_new_slot im \<longrightarrow> ks_cap s' a = ks_cap s a)"
proof -
  obtain s' where "invoke_cnode im root c l reg s = (Ok None, s')"
    and s': "ks_cap s' = (if l = CNodeMove then (ks_cap s)(src := None) else ks_cap s)
       (img_new_slot im := ks_cap s' (img_new_slot im),
        dest := Some (if l = CNodeMint then set_cap_dep_val new_cap (rg_a6 reg) else new_cap))"
    and src: "ks_cap s src = Some src_cap" "src \<noteq> dest"
    by (rule invoke_cnode_Ok [OF assms])
  moreover have "ks_cap s' dest = Some (if l = CNodeMint then set_cap_dep_val new_cap (rg_a6 reg) else new_cap)"
    by (subst s') simp
  moreover have "ks_cap s' src = (if l = CNodeMove then None else Some src_cap)"
    by (subst s') (use src assms(6) in simp)
  moreover have "ks_cap s' a = ks_cap s a" if "a \<noteq> src" "a \<noteq> dest" "a \<noteq> img_new_slot im" for a
    by (subst s') (use that in simp)
  ultimately show ?thesis by blast
qed

section \<open>Where the checks are missing\<close>

text \<open>The label of an invocation of an untyped capability is not looked at.\<close>

theorem untyped_label_ignored:
  assumes "root_cnode (thread s (ks_current s)) = Some e"
    and "lookup_entry s (ent_cap e) p (ucast d) = Ok (slot, c)" and "get_cap_type c = Ok Untyped"
  shows "handle_invocation im p d l rp s = handle_invocation im p d UntypedRetype rp s"
  using assms by (simp add: handle_invocation_def Let_def ok_or_def bind_st_def del: bind_st_simps)

text \<open>
  Writing the registers of a thread takes the whole register file from the
  buffer of the caller, the supervisor status word included.
\<close>

theorem write_reg_sets_sstatus:
  assumes "get_cap_type c = Ok Tcb" and "34 \<le> length (buf_message (ks_buf s buf))"
  shows "\<exists>s'. invoke_tcb im root c (Some buf) TcbWriteReg reg s = (Ok None, s')
    \<and> registers (thread s' (get_tcb c)) = registers_of_words (buf_message (ks_buf s buf))"
proof -
  have "try_ref_as Tcb c = Ok c" using assms(1) by (simp add: try_ref_as_Ok get_cap_type_Ok)
  moreover have "read_as (ks_buf s buf) = Ok (registers_of_words (buf_message (ks_buf s buf)))"
    using assms(2) by (simp add: read_as_def registers_size_def ensure_def)
  ultimately show ?thesis
    by (simp add: invoke_tcb_def ok_or_def map_err_def set_registers_def)
qed

end
