(* ===== verification/Trap_Entry.thy ===== *)
theory Trap_Entry
  imports Shared_Registers
begin

text \<open>
  The two assembly sequences of \<^verbatim>\<open>kernel/src/handler.rs\<close>: \<open>trap_entry\<close> saves
  the interrupted context into the register file of the current thread, and
  \<open>return_to_user\<close> loads the register file of the thread to run. The machine
  has the general registers, the four control registers the code uses and a
  memory of eight-byte words. The register names are those of the register file.
\<close>

section \<open>The machine\<close>

datatype csr = Sscratch | Sepc | Sstatus | Scause

datatype instr =
    Csrrw Register csr Register
  | Csrr Register csr
  | Csrw csr Register
  | Sd Register usize Register
  | Ld Register usize Register

record hart =
  h_reg :: "Register \<Rightarrow> usize"
  h_csr :: "csr \<Rightarrow> usize"
  h_mem :: "usize \<Rightarrow> usize"

fun exec1 :: "instr \<Rightarrow> hart \<Rightarrow> hart" where
  "exec1 (Csrrw rd c rs) h =
     h\<lparr>h_reg := (h_reg h)(rd := h_csr h c), h_csr := (h_csr h)(c := h_reg h rs)\<rparr>"
| "exec1 (Csrr rd c) h = h\<lparr>h_reg := (h_reg h)(rd := h_csr h c)\<rparr>"
| "exec1 (Csrw c rs) h = h\<lparr>h_csr := (h_csr h)(c := h_reg h rs)\<rparr>"
| "exec1 (Sd rs off base) h = h\<lparr>h_mem := (h_mem h)(h_reg h base + off := h_reg h rs)\<rparr>"
| "exec1 (Ld rd off base) h = h\<lparr>h_reg := (h_reg h)(rd := h_mem h (h_reg h base + off))\<rparr>"

fun exec :: "instr list \<Rightarrow> hart \<Rightarrow> hart" where
  "exec [] h = h"
| "exec (i # is) h = exec is (exec1 i h)"

lemma exec_append [simp]: "exec (is @ js) h = exec js (exec is h)"
  by (induction "is" arbitrary: h) simp_all

section \<open>Layout\<close>

text \<open>\<open>offset_of!(Registers, ..)\<close>, by the order of the fields.\<close>

fun reg_offset :: "Register \<Rightarrow> usize" where
  "reg_offset Ra = 0"
| "reg_offset Sp = 8"
| "reg_offset Gp = 16"
| "reg_offset Tp = 24"
| "reg_offset T0 = 32"
| "reg_offset T1 = 40"
| "reg_offset T2 = 48"
| "reg_offset T3 = 56"
| "reg_offset T4 = 64"
| "reg_offset T5 = 72"
| "reg_offset T6 = 80"
| "reg_offset A0 = 88"
| "reg_offset A1 = 96"
| "reg_offset A2 = 104"
| "reg_offset A3 = 112"
| "reg_offset A4 = 120"
| "reg_offset A5 = 128"
| "reg_offset A6 = 136"
| "reg_offset A7 = 144"
| "reg_offset S0 = 152"
| "reg_offset S1 = 160"
| "reg_offset S2 = 168"
| "reg_offset S3 = 176"
| "reg_offset S4 = 184"
| "reg_offset S5 = 192"
| "reg_offset S6 = 200"
| "reg_offset S7 = 208"
| "reg_offset S8 = 216"
| "reg_offset S9 = 224"
| "reg_offset S10 = 232"
| "reg_offset S11 = 240"
| "reg_offset SCause = 248"
| "reg_offset SStatus = 256"
| "reg_offset SEpc = 264"

text \<open>\<open>CpuVar\<close> holds \<open>sptop\<close> at 0, \<open>sscratch\<close> at 8 and \<open>cur_reg_base\<close> at 16.\<close>

section \<open>The code\<close>

definition trap_entry :: "instr list" where
  "trap_entry =
     [Csrrw Tp Sscratch Tp, Sd T0 8 Tp, Ld T0 16 Tp, Sd Ra (reg_offset Ra) T0,
      Sd Sp (reg_offset Sp) T0, Sd Gp (reg_offset Gp) T0, Sd T1 (reg_offset T1) T0,
      Sd T2 (reg_offset T2) T0, Sd S0 (reg_offset S0) T0, Sd S1 (reg_offset S1) T0,
      Sd A0 (reg_offset A0) T0, Sd A1 (reg_offset A1) T0, Sd A2 (reg_offset A2) T0,
      Sd A3 (reg_offset A3) T0, Sd A4 (reg_offset A4) T0, Sd A5 (reg_offset A5) T0,
      Sd A6 (reg_offset A6) T0, Sd A7 (reg_offset A7) T0, Sd S2 (reg_offset S2) T0,
      Sd S3 (reg_offset S3) T0, Sd S4 (reg_offset S4) T0, Sd S5 (reg_offset S5) T0,
      Sd S6 (reg_offset S6) T0, Sd S7 (reg_offset S7) T0, Sd S8 (reg_offset S8) T0,
      Sd S9 (reg_offset S9) T0, Sd S10 (reg_offset S10) T0, Sd S11 (reg_offset S11) T0,
      Sd T3 (reg_offset T3) T0, Sd T4 (reg_offset T4) T0, Sd T5 (reg_offset T5) T0,
      Sd T6 (reg_offset T6) T0, Csrr A1 Sepc, Sd A1 (reg_offset SEpc) T0, Csrr A1 Sstatus,
      Sd A1 (reg_offset SStatus) T0, Csrrw A1 Sscratch Tp, Sd A1 (reg_offset Tp) T0,
      Ld A1 8 Tp, Sd A1 (reg_offset T0) T0, Ld Sp 0 Tp, Csrr A1 Scause,
      Sd A1 (reg_offset SCause) T0]"

definition return_to_user :: "instr list" where
  "return_to_user =
     [Ld Ra (reg_offset Ra) T0, Ld Sp (reg_offset Sp) T0, Ld Gp (reg_offset Gp) T0,
      Ld Tp (reg_offset Tp) T0, Ld T2 (reg_offset T2) T0, Ld S0 (reg_offset S0) T0,
      Ld S1 (reg_offset S1) T0, Ld A0 (reg_offset A0) T0, Ld A1 (reg_offset A1) T0,
      Ld A2 (reg_offset A2) T0, Ld A3 (reg_offset A3) T0, Ld A4 (reg_offset A4) T0,
      Ld A5 (reg_offset A5) T0, Ld A6 (reg_offset A6) T0, Ld A7 (reg_offset A7) T0,
      Ld S2 (reg_offset S2) T0, Ld S3 (reg_offset S3) T0, Ld S4 (reg_offset S4) T0,
      Ld S5 (reg_offset S5) T0, Ld S6 (reg_offset S6) T0, Ld S7 (reg_offset S7) T0,
      Ld S8 (reg_offset S8) T0, Ld S9 (reg_offset S9) T0, Ld S10 (reg_offset S10) T0,
      Ld S11 (reg_offset S11) T0, Ld T3 (reg_offset T3) T0, Ld T4 (reg_offset T4) T0,
      Ld T5 (reg_offset T5) T0, Ld T6 (reg_offset T6) T0, Ld T1 (reg_offset SEpc) T0,
      Csrw Sepc T1, Ld T1 (reg_offset SStatus) T0, Csrw Sstatus T1, Ld T1 (reg_offset T1) T0,
      Ld T0 (reg_offset T0) T0]"

section \<open>Context save and restore\<close>

definition general :: "Register \<Rightarrow> bool" where
  "general r \<longleftrightarrow> r \<noteq> SCause \<and> r \<noteq> SStatus \<and> r \<noteq> SEpc"

text \<open>The register file at address \<open>base\<close>.\<close>

definition reg_file :: "hart \<Rightarrow> usize \<Rightarrow> Registers" where
  "reg_file h base = registers_of_words (map (\<lambda>i. h_mem h (base + of_nat (8 * i))) [0..<34])"

lemma upt_34:
  "[0..<34] = [0, 1, 2, 3, 4, 5, 6, 7, 8, 9, 10, 11, 12, 13, 14, 15, 16, 17, 18, 19, 20, 21, 22, 23, 24, 25,
     26, 27, 28, 29, 30, 31, 32, 33]"
  by (simp add: upt_rec)

lemma reg_file_index: "reg_index (reg_file h base) r = h_mem h (base + reg_offset r)"
  by (cases r) (simp_all add: reg_file_def registers_of_words_def upt_34)

lemma reg_offset_inj: "reg_offset r = reg_offset q \<longleftrightarrow> r = q"
  by (cases r; cases q) simp_all

abbreviation save_regs :: "Register list \<Rightarrow> instr list" where
  "save_regs rs \<equiv> map (\<lambda>r. Sd r (reg_offset r) T0) rs"

abbreviation load_regs :: "Register list \<Rightarrow> instr list" where
  "load_regs rs \<equiv> map (\<lambda>r. Ld r (reg_offset r) T0) rs"

lemma save_regs_frame [simp]:
  "h_reg (exec (save_regs rs) h) = h_reg h" "h_csr (exec (save_regs rs) h) = h_csr h"
  by (induction rs arbitrary: h) simp_all

lemma save_regs_mem:
  "h_reg h T0 = b \<Longrightarrow> h_mem (exec (save_regs rs) h) (b + reg_offset q)
     = (if q \<in> set rs then h_reg h q else h_mem h (b + reg_offset q))"
  by (induction rs arbitrary: h) (auto simp: reg_offset_inj)

lemma save_regs_other:
  "h_reg h T0 = b \<Longrightarrow> (\<And>r. a \<noteq> b + reg_offset r) \<Longrightarrow> h_mem (exec (save_regs rs) h) a = h_mem h a"
  by (induction rs arbitrary: h) simp_all

lemma load_regs_exec:
  assumes "T0 \<notin> set rs"
  shows "h_reg (exec (load_regs rs) h) q = (if q \<in> set rs then h_mem h (h_reg h T0 + reg_offset q) else h_reg h q)"
    "h_csr (exec (load_regs rs) h) = h_csr h" "h_mem (exec (load_regs rs) h) = h_mem h"
  using assms by (induction rs arbitrary: h) auto

definition saved_regs :: "Register list" where
  "saved_regs = [Ra, Sp, Gp, T1, T2, S0, S1, A0, A1, A2, A3, A4, A5, A6, A7, S2, S3, S4, S5, S6, S7, S8, S9,
     S10, S11, T3, T4, T5, T6]"

definition loaded_regs :: "Register list" where
  "loaded_regs = [Ra, Sp, Gp, Tp, T2, S0, S1, A0, A1, A2, A3, A4, A5, A6, A7, S2, S3, S4, S5, S6, S7, S8, S9,
     S10, S11, T3, T4, T5, T6]"

lemma saved_regs_iff: "r \<in> set saved_regs \<longleftrightarrow> general r \<and> r \<noteq> Tp \<and> r \<noteq> T0"
  by (cases r) (simp_all add: saved_regs_def general_def)

lemma loaded_regs_iff: "r \<in> set loaded_regs \<longleftrightarrow> general r \<and> r \<noteq> T0 \<and> r \<noteq> T1"
  by (cases r) (simp_all add: loaded_regs_def general_def)

lemma trap_entry_blocks:
  "trap_entry = [Csrrw Tp Sscratch Tp, Sd T0 8 Tp, Ld T0 16 Tp] @ save_regs saved_regs @
     [Csrr A1 Sepc, Sd A1 (reg_offset SEpc) T0, Csrr A1 Sstatus, Sd A1 (reg_offset SStatus) T0,
      Csrrw A1 Sscratch Tp, Sd A1 (reg_offset Tp) T0, Ld A1 8 Tp, Sd A1 (reg_offset T0) T0, Ld Sp 0 Tp,
      Csrr A1 Scause, Sd A1 (reg_offset SCause) T0]"
  by (simp add: trap_entry_def saved_regs_def)

lemma return_to_user_blocks:
  "return_to_user = load_regs loaded_regs @
     [Ld T1 (reg_offset SEpc) T0, Csrw Sepc T1, Ld T1 (reg_offset SStatus) T0, Csrw Sstatus T1,
      Ld T1 (reg_offset T1) T0, Ld T0 (reg_offset T0) T0]"
  by (simp add: return_to_user_def loaded_regs_def)

text \<open>The interrupted context: the general registers and three control registers.\<close>

fun context_reg :: "hart \<Rightarrow> Register \<Rightarrow> usize" where
  "context_reg h SEpc = h_csr h Sepc"
| "context_reg h SStatus = h_csr h Sstatus"
| "context_reg h SCause = h_csr h Scause"
| "context_reg h r = h_reg h r"

lemma context_reg_general: "general r \<Longrightarrow> context_reg h r = h_reg h r"
  by (cases r) (simp_all add: general_def)

text \<open>The register file and the processor variables do not overlap.\<close>

definition apart :: "usize \<Rightarrow> usize \<Rightarrow> bool" where
  "apart cv base \<longleftrightarrow> (\<forall>r. base + reg_offset r \<noteq> cv \<and> base + reg_offset r \<noteq> cv + 8 \<and> base + reg_offset r \<noteq> cv + 16)"

lemma trap_entry_exec:
  fixes h defines "cv \<equiv> h_csr h Sscratch" and "h' \<equiv> exec trap_entry h"
  assumes base: "base = h_mem h (cv + 16)" and ap: "apart cv base"
  shows "h_mem h' (base + reg_offset r) = context_reg h r"
    and "h_csr h' = h_csr h" and "h_reg h' Sp = h_mem h cv" and "h_reg h' Tp = cv"
    and "(\<And>r. a \<noteq> base + reg_offset r) \<Longrightarrow> a \<noteq> cv + 8 \<Longrightarrow> h_mem h' a = h_mem h a"
proof -
  define h1 where "h1 = exec [Csrrw Tp Sscratch Tp, Sd T0 8 Tp, Ld T0 16 Tp] h"
  have h1: "h_reg h1 = (h_reg h)(Tp := cv, T0 := base)" "h_csr h1 = (h_csr h)(Sscratch := h_reg h Tp)"
    "h_mem h1 = (h_mem h)(cv + 8 := h_reg h T0)"
    by (simp_all add: h1_def base cv_def)
  define h2 where "h2 = exec (save_regs saved_regs) h1"
  have t0: "h_reg h1 T0 = base" using h1 by simp
  have b: "h_reg h2 = h_reg h1" "h_csr h2 = h_csr h1" by (simp_all add: h2_def)
  note b4 = save_regs_other [OF t0, where rs = saved_regs, folded h2_def]
  have ap': "cv \<noteq> base + reg_offset q" "cv + 8 \<noteq> base + reg_offset q" "base + reg_offset q \<noteq> cv + 8" for q
    using ap by (auto simp: apart_def)
  have h2: "h_mem h2 (cv + 8) = h_reg h T0" "h_mem h2 cv = h_mem h cv" using b4 ap' h1 by auto
  have h2m: "h_mem h2 (base + reg_offset q) = (if q \<in> set saved_regs then h_reg h1 q else h_mem h1 (base + reg_offset q))" for q
    unfolding h2_def by (rule save_regs_mem [OF t0])
  have h': "h' = exec [Csrr A1 Sepc, Sd A1 (reg_offset SEpc) T0, Csrr A1 Sstatus, Sd A1 (reg_offset SStatus) T0,
      Csrrw A1 Sscratch Tp, Sd A1 (reg_offset Tp) T0, Ld A1 8 Tp, Sd A1 (reg_offset T0) T0, Ld Sp 0 Tp,
      Csrr A1 Scause, Sd A1 (reg_offset SCause) T0] h2"
    by (simp only: h'_def trap_entry_blocks exec_append h1_def h2_def)
  have m': "h_mem h' = (h_mem h2)(base + reg_offset SEpc := h_csr h Sepc, base + reg_offset SStatus := h_csr h Sstatus,
      base + reg_offset Tp := h_reg h Tp, base + reg_offset T0 := h_reg h T0, base + reg_offset SCause := h_csr h Scause)"
    using h1 h2(1) ap'(2) by (simp add: h' b del: reg_offset.simps)
  show "h_csr h' = h_csr h" "h_reg h' Sp = h_mem h cv" "h_reg h' Tp = cv"
    using h1 h2(2) ap'(1) by (auto simp: h' b cv_def simp del: reg_offset.simps)
  show "h_mem h' (base + reg_offset r) = context_reg h r"
  proof (cases "r \<in> set saved_regs")
    case True
    then have g: "general r" "r \<noteq> Tp" "r \<noteq> T0" by (simp_all add: saved_regs_iff)
    then have "h_mem h' (base + reg_offset r) = h_reg h r"
      using True h1 h2m [of r] by (simp add: m' reg_offset_inj general_def del: reg_offset.simps)
    then show ?thesis using g(1) by (simp add: context_reg_general)
  next
    case False
    then have "r \<in> {SEpc, SStatus, SCause, Tp, T0}" by (auto simp: saved_regs_iff general_def)
    then show ?thesis by (auto simp: m' reg_offset_inj simp del: reg_offset.simps)
  qed
  show "h_mem h' a = h_mem h a" if "\<And>r. a \<noteq> base + reg_offset r" "a \<noteq> cv + 8"
    using that b4 [OF that(1)] h1 by (simp add: m' del: reg_offset.simps)
qed

lemma return_to_user_exec:
  fixes h defines "h' \<equiv> exec return_to_user h"
  assumes base: "base = h_reg h T0"
  shows "general r \<Longrightarrow> h_reg h' r = h_mem h (base + reg_offset r)"
    and "h_csr h' = (h_csr h)(Sepc := h_mem h (base + reg_offset SEpc), Sstatus := h_mem h (base + reg_offset SStatus))"
    and "h_mem h' = h_mem h"
proof -
  define h1 where "h1 = exec (load_regs loaded_regs) h"
  have "T0 \<notin> set loaded_regs" by (simp add: loaded_regs_iff)
  note b = load_regs_exec [OF this, where h = h, folded h1_def base]
  have h': "h' = exec [Ld T1 (reg_offset SEpc) T0, Csrw Sepc T1, Ld T1 (reg_offset SStatus) T0, Csrw Sstatus T1,
      Ld T1 (reg_offset T1) T0, Ld T0 (reg_offset T0) T0] h1"
    by (simp only: h'_def return_to_user_blocks exec_append h1_def)
  have t0: "h_reg h1 T0 = base" by (simp add: b(1) loaded_regs_iff base)
  have "h_reg h' = (h_reg h1)(T1 := h_mem h (base + reg_offset T1), T0 := h_mem h (base + reg_offset T0))"
    by (simp add: h' t0 b(3) del: reg_offset.simps)
  then show "h_reg h' r = h_mem h (base + reg_offset r)" if "general r"
    using that b(1) [of r] by (auto simp: loaded_regs_iff simp del: reg_offset.simps)
  show "h_csr h' = (h_csr h)(Sepc := h_mem h (base + reg_offset SEpc), Sstatus := h_mem h (base + reg_offset SStatus))"
    "h_mem h' = h_mem h"
    by (simp_all add: h' t0 b(2,3) del: reg_offset.simps)
qed

text \<open>
  C16: A trap stores the complete interrupted context in the register file of the current
  thread, switches to the kernel stack, and changes no other memory than the scratch word of the
  processor variables.
\<close>

theorem trap_saves_context:
  assumes "base = h_mem h (h_csr h Sscratch + 16)" and "apart (h_csr h Sscratch) base"
    and "h' = exec trap_entry h"
  shows "(\<forall>r. reg_index (reg_file h' base) r = context_reg h r)
    \<and> h_reg h' Sp = h_mem h (h_csr h Sscratch) \<and> h_csr h' = h_csr h
    \<and> (\<forall>a. (\<forall>r. a \<noteq> base + reg_offset r) \<and> a \<noteq> h_csr h Sscratch + 8 \<longrightarrow> h_mem h' a = h_mem h a)"
  using trap_entry_exec [OF assms(1,2)] by (simp add: assms(3) reg_file_index)

text \<open>
  C15: A context that is saved on a trap and loaded again on the way back is the same: every
  general register, the program counter and the status word.
\<close>

theorem context_round_trip:
  assumes "base = h_mem h (h_csr h Sscratch + 16)" and "apart (h_csr h Sscratch) base"
    and "h_mem k = h_mem (exec trap_entry h)" and "h_reg k T0 = base" and "h' = exec return_to_user k"
  shows "(\<forall>r. general r \<longrightarrow> h_reg h' r = h_reg h r) \<and> h_csr h' Sepc = h_csr h Sepc \<and> h_csr h' Sstatus = h_csr h Sstatus"
  using trap_entry_exec(1) [OF assms(1,2)] return_to_user_exec [of base k] assms(3-5)
  by (simp add: context_reg_general del: reg_offset.simps)

end
