(* ===== verification/Handler.thy ===== *)
theory Handler
  imports Syscall Trap_Entry
begin

text \<open>
  The trap handler (\<^verbatim>\<open>kernel/src/handler.rs\<close>) and the timer
  (\<^verbatim>\<open>kernel/src/timer.rs\<close>): a timer interrupt counts down the time slice of the
  current thread, a system call is handled, every other cause stops the kernel;
  then the scheduler runs and the chosen thread continues. The cause, the time
  and the interrupted context are inputs from the hardware.
\<close>

section \<open>Causes\<close>

definition SUPREVISORTIMER :: usize where
  "SUPREVISORTIMER = 5"

definition ECALLUSER :: usize where
  "ECALLUSER = 8"

definition set_timer :: "usize \<Rightarrow> usize \<Rightarrow> unit kprog" where
  "set_timer val rd_time =
     bind_st (lift_st (add_ck val rd_time)) (\<lambda>t.
     modify_st (\<lambda>s. s\<lparr>ks_mtimecmp := t\<rparr>))"

definition get_current_reg :: "kstate \<Rightarrow> usize" where
  "get_current_reg s = ks_cur_reg_base s"

definition is_interrupt :: "usize \<Rightarrow> bool" where
  "is_interrupt scause \<longleftrightarrow> drop_bit 63 scause = 1"

definition trap_code :: "usize \<Rightarrow> usize" where
  "trap_code scause = scause AND NOT (push_bit 63 1)"

text \<open>The arms other than the timer and the system call all panic with a message.\<close>

definition handle_trap :: "Image \<Rightarrow> usize \<Rightarrow> usize \<Rightarrow> unit kprog" where
  "handle_trap im scause now =
     bind_st
       (if is_interrupt scause
        then (if trap_code scause = SUPREVISORTIMER
              then bind_st (timer_tick im) (\<lambda>_. set_timer 10000 now)
              else lift_st (Panic ExplicitPanic))
        else (if trap_code scause = ECALLUSER
              then (\<lambda>s. let rp = get_current_reg s;
                            syscall_n = rg_a7 (registers (thread s rp))
                        in handle_syscall im syscall_n rp s)
              else lift_st (Panic ExplicitPanic))) (\<lambda>_.
     modify_st (schedule im))"

text \<open>
  One trip through the kernel: the context is saved for the current thread, the
  trap is handled, and the context of the thread to run is loaded.
\<close>

definition kernel_trap :: "Image \<Rightarrow> Registers \<Rightarrow> usize \<Rightarrow> usize \<Rightarrow> Registers kprog" where
  "kernel_trap im ctx scause now =
     bind_st (modify_st (\<lambda>s. update_registers (ks_cur_reg_base s) (\<lambda>_. ctx\<lparr>rg_scause := scause\<rparr>) s)) (\<lambda>_.
     bind_st (handle_trap im scause now) (\<lambda>_.
     gets_st (\<lambda>s. registers (thread s (ks_current s)))))"

definition timer_cause :: usize where
  "timer_cause = 0x8000000000000005"

section \<open>Which causes stop the kernel\<close>

lemma timer_cause_is [simp]: "is_interrupt timer_cause" "trap_code timer_cause = SUPREVISORTIMER"
  by (simp_all add: is_interrupt_def trap_code_def timer_cause_def SUPREVISORTIMER_def)

text \<open>
  Every exception of user code except a system call stops the whole kernel.
\<close>

theorem user_fault_panics:
  assumes "\<not> is_interrupt scause" and "trap_code scause \<noteq> ECALLUSER"
  shows "handle_trap im scause now s = (Panic ExplicitPanic, s)"
  using assms by (simp add: handle_trap_def)

section \<open>Timer interrupts\<close>

lemma set_timer_Ok:
  assumes "unat now + 10000 < 2 ^ 64"
  shows "set_timer 10000 now s = (Ok (), s\<lparr>ks_mtimecmp := 10000 + now\<rparr>)"
proof -
  have "(add_ck 10000 now :: usize kres) = Ok (10000 + now)"
    using assms by (intro add_ck_fits) simp
  then show ?thesis by (simp add: set_timer_def)
qed

lemma mtimecmp_frame [simp]:
  "thread (s\<lparr>ks_mtimecmp := t\<rparr>) u = thread s u"
  "run_queue (s\<lparr>ks_mtimecmp := t\<rparr>) xs = run_queue s xs"
  by (simp_all add: thread_def run_queue_def)

text \<open>The slice of the running thread is positive, unless a schedule is already requested.\<close>

definition slice_ok :: "Image \<Rightarrow> kstate \<Rightarrow> bool" where
  "slice_ok im s \<longleftrightarrow> ks_current s = img_idle_thread im \<or> 0 < time_slice (thread s (ks_current s))"

lemma timer_trap_step:
  assumes "slice_ok im s" and "unat now + 10000 < 2 ^ 64"
  obtains u where "timer_tick im s = (Ok (), u)"
    and "handle_trap im timer_cause now s = (Ok (), schedule im (u\<lparr>ks_mtimecmp := 10000 + now\<rparr>))"
proof -
  have "\<exists>u. timer_tick im s = (Ok (), u)"
  proof (cases "ks_current s = img_idle_thread im")
    case True
    then show ?thesis by (simp add: timer_tick_def)
  next
    case False
    with assms(1) have "1 \<le> time_slice (thread s (ks_current s))"
      by (simp add: slice_ok_def word_le_nat_alt word_less_nat_alt)
    then show ?thesis by (simp add: timer_tick_def Let_def sub_ck_def)
  qed
  then obtain u where u: "timer_tick im s = (Ok (), u)" ..
  then have "handle_trap im timer_cause now s = (Ok (), schedule im (u\<lparr>ks_mtimecmp := 10000 + now\<rparr>))"
    using set_timer_Ok [OF assms(2)] by (simp add: handle_trap_def)
  with u show thesis by (rule that)
qed

lemma sched_pop_thread: "sched_pop s = (r, t) \<Longrightarrow> thread t u = thread s u"
  by (auto simp: sched_pop_def thread_def split: prod.splits)

lemma set_timeout_registers [simp]: "registers (set_timeout n i) = registers i"
  by (simp add: set_timeout_def)

lemma schedule_registers: "registers (thread (schedule im s) t) = registers (thread s t)"
proof -
  obtain r u where p: "sched_pop s = (r, u)" by fastforce
  have "thread u v = thread s v" for v by (rule sched_pop_thread [OF p])
  then show ?thesis
    by (auto simp: schedule_def Let_def p thread_update split: option.splits)
qed

lemma timer_tick_registers:
  "timer_tick im s = (r, u) \<Longrightarrow> registers (thread u t) = registers (thread s t) \<and> ks_current u = ks_current s"
  by (auto simp: timer_tick_def Let_def thread_update split: if_splits run.splits)


lemma schedule_slice_ok:
  assumes "run_queue s xs" and "ks_current s \<notin> set xs"
    and "ks_requested s \<or> slice_ok im s"
  shows "slice_ok im (schedule im s)"
proof (cases "ks_requested s")
  case False
  then show ?thesis using assms(3) by (simp add: schedule_idle_request)
next
  case req: True
  show ?thesis
  proof (cases xs)
    case Nil
    with assms(1) have "run_queue s []" by simp
    with req show ?thesis
      by (cases "is_runnable (thread s (ks_current s))")
        (simp_all add: schedule_Nil_runnable schedule_Nil_blocked slice_ok_def set_timeout_def TASK_QUANTUM_def TICK_HZ_def)
  next
    case (Cons x ys)
    with assms have "run_queue s (x # ys)" "ks_current s \<noteq> x" by auto
    from schedule_head [OF req this] show ?thesis by (simp add: slice_ok_def)
  qed
qed

text \<open>
  C18: A timer interrupt never panics: the slice of the running thread is positive whenever no
  schedule is pending, so the count down does not underflow, and this stays so.
\<close>

theorem timer_trap_safe:
  assumes "slice_ok im s" and "unat now + 10000 < 2 ^ 64"
    and "run_queue s xs" and "ks_current s \<notin> set xs"
  shows "\<exists>s'. handle_trap im timer_cause now s = (Ok (), s') \<and> slice_ok im s'"
proof -
  obtain u where u: "timer_tick im s = (Ok (), u)"
    and h: "handle_trap im timer_cause now s = (Ok (), schedule im (u\<lparr>ks_mtimecmp := 10000 + now\<rparr>))"
    using timer_trap_step [OF assms(1,2)] by metis
  have "ks_current u = ks_current s" using timer_tick_registers [OF u] by simp
  moreover have "run_queue u xs" using assms(3) u
    by (auto simp: timer_tick_def Let_def run_queue_def split: if_splits run.splits)
  moreover have "ks_requested u \<or> slice_ok im u"
    using u assms(1) by (auto simp: timer_tick_def Let_def slice_ok_def word_gt_0 split: if_splits run.splits)
  ultimately have "slice_ok im (schedule im (u\<lparr>ks_mtimecmp := 10000 + now\<rparr>))"
    using assms(4) by (intro schedule_slice_ok) (auto simp: slice_ok_def)
  then show ?thesis using h by blast
qed

text \<open>A sequence of timer interrupts at the given times.\<close>

fun ticks :: "Image \<Rightarrow> usize list \<Rightarrow> unit kprog" where
  "ticks im [] = pure_st ()"
| "ticks im (t # ts) = bind_st (handle_trap im timer_cause t) (\<lambda>_. ticks im ts)"

lemma tick_counts:
  assumes "ks_current s \<noteq> img_idle_thread im" and "time_slice (thread s (ks_current s)) = of_nat (Suc n)"
    and "Suc n < 2 ^ 64" and "\<not> ks_requested s" and "unat t + 10000 < 2 ^ 64" and "run_queue s xs"
  shows "\<exists>u. handle_trap im timer_cause t s = (Ok (), schedule im u) \<and> ks_current u = ks_current s
    \<and> time_slice (thread u (ks_current s)) = of_nat n \<and> run_queue u xs \<and> ks_requested u = (n = 0)"
proof -
  let ?c = "ks_current s"
  have "unat (of_nat (Suc n) :: usize) = Suc n" using assms(3) by (simp add: unsigned_of_nat take_bit_nat_eq_self del: of_nat_Suc)
  then have le: "(1::usize) \<le> of_nat (Suc n)" and pos: "0 < (of_nat (Suc n) :: usize)"
    by (simp_all add: word_le_nat_alt word_less_nat_alt del: of_nat_Suc)
  have z: "(of_nat n :: usize) = 0 \<longleftrightarrow> n = 0"
    using assms(3) by (auto simp: word_of_nat_eq_0_iff dest: dvd_imp_le)
  have slice: "slice_ok im s" using assms(2) pos by (simp add: slice_ok_def)
  obtain u where u: "timer_tick im s = (Ok (), u)"
    and h: "handle_trap im timer_cause t s = (Ok (), schedule im (u\<lparr>ks_mtimecmp := 10000 + t\<rparr>))"
    using timer_trap_step [OF slice assms(5)] by metis
  have sub: "(sub_ck (of_nat (Suc n)) 1 :: usize kres) = Ok (of_nat n)"
    using le by (simp add: sub_ck_def)
  have "u = (let s1 = update_thread ?c (\<lambda>i. i\<lparr>time_slice := of_nat n\<rparr>) s in if n = 0 then require_schedule s1 else s1)"
    using u assms(1,2) sub z by (simp add: timer_tick_def Let_def split: if_splits)
  then have "ks_current u = ?c \<and> time_slice (thread u ?c) = of_nat n \<and> run_queue u xs \<and> ks_requested u = (n = 0)"
    using assms(4,6) by (auto simp: Let_def run_queue_def split: if_splits)
  then show ?thesis using h by (intro exI [of _ "u\<lparr>ks_mtimecmp := 10000 + t\<rparr>"]) simp
qed

text \<open>
  C17: A waiting thread is not starved: when the slice of the running thread is used up by timer
  interrupts, the first thread of the run queue runs, with a full slice.
\<close>

theorem queue_head_runs:
  assumes "time_slice (thread s (ks_current s)) = of_nat (length ts)" and "ts \<noteq> []" and "length ts < 2 ^ 64"
    and "ks_current s \<noteq> img_idle_thread im" and "\<not> ks_requested s"
    and "run_queue s (x # xs)" and "ks_current s \<noteq> x"
    and "\<forall>t \<in> set ts. unat t + 10000 < 2 ^ 64"
  shows "\<exists>s'. ticks im ts s = (Ok (), s') \<and> ks_current s' = x \<and> time_slice (thread s' x) = 20"
  using assms
proof (induction ts arbitrary: s)
  case (Cons t ts)
  have "time_slice (thread s (ks_current s)) = of_nat (Suc (length ts))" using Cons.prems(1) by simp
  from tick_counts [OF Cons.prems(4) this _ Cons.prems(5) _ Cons.prems(6), of t] Cons.prems(3,8)
  obtain u where u: "handle_trap im timer_cause t s = (Ok (), schedule im u)" "ks_current u = ks_current s"
    "time_slice (thread u (ks_current s)) = of_nat (length ts)" "run_queue u (x # xs)" "ks_requested u = (length ts = 0)"
    by auto
  show ?case
  proof (cases "ts = []")
    case True
    then have "ks_current (schedule im u) = x \<and> time_slice (thread (schedule im u) x) = 20"
      using schedule_head [of u x xs im] u Cons.prems(7) by simp
    with True u(1) show ?thesis by simp
  next
    case False
    then have "schedule im u = u" using u(5) by (simp add: schedule_idle_request)
    with u(1) False Cons.IH [of u] u Cons.prems show ?thesis by simp
  qed
qed simp

end
