(* ===== verification/Zoea_Syscall.thy ===== *)
theory Zoea_Syscall
  imports Handler
begin

text \<open>
  The system call stubs of the user library (\<^verbatim>\<open>libzoea/src/syscall.rs\<close>) and its
  writer (\<^verbatim>\<open>libzoea/src/lib.rs\<close>). A stub puts its arguments into registers, traps
  into the kernel, and reads the outcome from \<open>a0\<close> and \<open>a1\<close> when it is scheduled
  again. The user program is the current thread; of its registers only those that a
  stub writes matter, and the others keep the values they had on the last return
  from the kernel.
\<close>

section \<open>The trap\<close>

type_synonym SysCallFailed = "ErrKind \<times> u16"
type_synonym 'a uprog = "(kstate, 'a, SysCallFailed) prog"

definition user_regs :: "kstate \<Rightarrow> Registers" where
  "user_regs s = registers (thread s (ks_current s))"

text \<open>
  \<^verbatim>\<open>ecall\<close> with the register file \<open>ctx\<close>. When another thread is scheduled, the call has
  not come back. The clock is read by the timer interrupt only.
\<close>

definition ecall :: "Image \<Rightarrow> Registers \<Rightarrow> Registers uprog" where
  "ecall im ctx s =
     (case kernel_trap im ctx ECALLUSER 0 s of
        (Ok r, s') \<Rightarrow> (if ks_current s' = ks_current s then Ok r else Hang, s')
      | (Err _, s') \<Rightarrow> (Hang, s')
      | (Panic p, s') \<Rightarrow> (Panic p, s')
      | (Hang, s') \<Rightarrow> (Hang, s'))"

definition call_regs ::
  "usize \<Rightarrow> u32 \<Rightarrow> InvLabel \<Rightarrow> usize \<Rightarrow> usize \<Rightarrow> usize \<Rightarrow> usize \<Rightarrow> SysCallNo \<Rightarrow> Registers \<Rightarrow> Registers" where
  "call_regs cptr cdepth inv_label arg3 arg4 arg5 arg6 sysno r =
     r\<lparr>rg_a0 := cptr, rg_a1 := ucast cdepth, rg_a2 := inv_label_usize inv_label, rg_a3 := arg3, rg_a4 := arg4,
       rg_a5 := arg5, rg_a6 := arg6, rg_a7 := syscall_no_usize sysno\<rparr>"

definition call_result :: "Registers \<Rightarrow> (usize, SysCallFailed) run" where
  "call_result r =
     (let is_error = rg_a0 r;
          val = rg_a1 r
      in if is_error = 0 then Ok val
         else let e_kind = (case err_kind_try_from is_error of Ok k \<Rightarrow> k | _ \<Rightarrow> UnknownSysCall)
              in Err (e_kind, ucast val))"

definition syscall ::
  "Image \<Rightarrow> usize \<Rightarrow> u32 \<Rightarrow> InvLabel \<Rightarrow> usize \<Rightarrow> usize \<Rightarrow> usize \<Rightarrow> usize \<Rightarrow> SysCallNo \<Rightarrow> usize uprog" where
  "syscall im cptr cdepth inv_label arg3 arg4 arg5 arg6 sysno =
     bind_st (gets_st user_regs) (\<lambda>r.
     bind_st (ecall im (call_regs cptr cdepth inv_label arg3 arg4 arg5 arg6 sysno r)) (\<lambda>r'.
     lift_st (call_result r')))"

section \<open>The stubs\<close>

definition put_char :: "Image \<Rightarrow> u8 \<Rightarrow> usize uprog" where
  "put_char im ch = syscall im (ucast ch) 0 PutChar 0 0 0 0 Print"

definition traverse :: "Image \<Rightarrow> usize uprog" where
  "traverse im = syscall im 0 0 CNodeTraverse 0 0 0 0 Print"

text \<open>Two numbers of 32 bits in one register.\<close>

definition pack32 :: "u32 \<Rightarrow> u32 \<Rightarrow> usize" where
  "pack32 hi lo = push_bit 32 (ucast hi) OR ucast lo"

definition untyped_retype ::
  "Image \<Rightarrow> usize \<Rightarrow> u32 \<Rightarrow> usize \<Rightarrow> u32 \<Rightarrow> u32 \<Rightarrow> u32 \<Rightarrow> u32 \<Rightarrow> CapabilityType \<Rightarrow> usize uprog" where
  "untyped_retype im cptr cdepth dest_ptr dest_depth index user_size num ty =
     (let index_and_depth = pack32 index dest_depth;
          user_size_and_num = pack32 user_size num
      in syscall im cptr cdepth UntypedRetype dest_ptr index_and_depth user_size_and_num (ucast (cap_type_u8 ty)) Call)"

text \<open>\<open>buffer\<close> is the frame of the IPC buffer, which the program shares with the kernel.\<close>

definition write_reg :: "Image \<Rightarrow> usize \<Rightarrow> u32 \<Rightarrow> Registers \<Rightarrow> usize \<Rightarrow> usize uprog" where
  "write_reg im cptr cdepth register buffer =
     bind_st (\<lambda>s. case write_as (ks_buf s buffer) register of
                    Ok b \<Rightarrow> (Ok (), s\<lparr>ks_buf := (ks_buf s)(buffer := b)\<rparr>)
                  | _ \<Rightarrow> (Err (InvalidOperation, 0), s)) (\<lambda>_.
     syscall im cptr cdepth TcbWriteReg 0 0 0 0 Call)"

definition set_ipc_buffer_call :: "Image \<Rightarrow> usize \<Rightarrow> u32 \<Rightarrow> usize \<Rightarrow> u32 \<Rightarrow> usize uprog" where
  "set_ipc_buffer_call im cptr cdepth page_cap_ptr page_depth =
     syscall im cptr cdepth TcbSetIpcBuffer page_cap_ptr (ucast page_depth) 0 0 Call"

definition configure_tcb :: "Image \<Rightarrow> usize \<Rightarrow> u32 \<Rightarrow> usize \<Rightarrow> u32 \<Rightarrow> usize \<Rightarrow> u32 \<Rightarrow> usize uprog" where
  "configure_tcb im cptr cdepth cnode_ptr cnode_depth vspace_ptr vspace_depth =
     syscall im cptr cdepth TcbConfigure cnode_ptr (ucast cnode_depth) vspace_ptr (ucast vspace_depth) Call"

definition resume_tcb :: "Image \<Rightarrow> usize \<Rightarrow> u32 \<Rightarrow> usize uprog" where
  "resume_tcb im cptr cdepth = syscall im cptr cdepth TcbResume 0 0 0 0 Call"

definition send_signal_call :: "Image \<Rightarrow> usize \<Rightarrow> u32 \<Rightarrow> usize uprog" where
  "send_signal_call im cptr cdepth = syscall im cptr cdepth NotifySend 0 0 0 0 Send"

definition recv_signal :: "Image \<Rightarrow> usize \<Rightarrow> u32 \<Rightarrow> usize uprog" where
  "recv_signal im cptr cdepth = syscall im cptr cdepth NotifyWait 0 0 0 0 Recv"

definition cnode_copy :: "Image \<Rightarrow> usize \<Rightarrow> u32 \<Rightarrow> usize \<Rightarrow> u32 \<Rightarrow> usize \<Rightarrow> u32 \<Rightarrow> usize uprog" where
  "cnode_copy im cptr cdepth dest_index dest_depth src_index src_depth =
     (let depth = pack32 src_depth dest_depth
      in syscall im cptr cdepth CNodeCopy src_index depth dest_index 0 Call)"

definition cnode_mint :: "Image \<Rightarrow> usize \<Rightarrow> u32 \<Rightarrow> usize \<Rightarrow> u32 \<Rightarrow> usize \<Rightarrow> u32 \<Rightarrow> usize \<Rightarrow> usize uprog" where
  "cnode_mint im cptr cdepth dest_index dest_depth src_index src_depth cap_val =
     (let depth = pack32 src_depth dest_depth
      in syscall im cptr cdepth CNodeMint src_index depth dest_index cap_val Call)"

definition cnode_move :: "Image \<Rightarrow> usize \<Rightarrow> u32 \<Rightarrow> u32 \<Rightarrow> usize \<Rightarrow> usize \<Rightarrow> u32 \<Rightarrow> usize uprog" where
  "cnode_move im cptr cdepth dest_depth dest_index src_index src_depth =
     (let depth = pack32 src_depth dest_depth
      in syscall im cptr cdepth CNodeMove src_index depth dest_index 0 Call)"

definition map_page :: "Image \<Rightarrow> usize \<Rightarrow> u32 \<Rightarrow> usize \<Rightarrow> u32 \<Rightarrow> usize \<Rightarrow> usize \<Rightarrow> usize uprog" where
  "map_page im cptr cdepth dest_ptr dest_depth vaddr flags =
     syscall im cptr cdepth PageMap dest_ptr (ucast dest_depth) vaddr flags Call"

definition unmap_page :: "Image \<Rightarrow> usize \<Rightarrow> u32 \<Rightarrow> usize \<Rightarrow> u32 \<Rightarrow> usize uprog" where
  "unmap_page im cptr cdepth dest_ptr dest_depth =
     syscall im cptr cdepth PageUnMap dest_ptr (ucast dest_depth) 0 0 Call"

definition map_page_table :: "Image \<Rightarrow> usize \<Rightarrow> u32 \<Rightarrow> usize \<Rightarrow> u32 \<Rightarrow> usize \<Rightarrow> usize uprog" where
  "map_page_table im cptr cdepth dest_ptr dest_depth vaddr =
     syscall im cptr cdepth PageTableMap dest_ptr (ucast dest_depth) vaddr 0 Call"

definition make_page_table_root :: "Image \<Rightarrow> usize \<Rightarrow> u32 \<Rightarrow> usize uprog" where
  "make_page_table_root im cptr cdepth = syscall im cptr cdepth PageTableMakeRoot 0 0 0 0 Call"

definition send_ipc :: "Image \<Rightarrow> usize \<Rightarrow> u32 \<Rightarrow> usize uprog" where
  "send_ipc im cptr cdepth = syscall im cptr cdepth EpSend 0 0 0 0 Send"

definition recv_ipc :: "Image \<Rightarrow> usize \<Rightarrow> u32 \<Rightarrow> usize uprog" where
  "recv_ipc im cptr cdepth = syscall im cptr cdepth EpRecv 0 0 0 0 Recv"

text \<open>
  \<open>SyscallWriter::write_str\<close> on the bytes of the string; every failure is the one value
  of \<open>fmt::Error\<close>.
\<close>

fun write_str :: "Image \<Rightarrow> u8 list \<Rightarrow> (kstate, unit, unit) prog" where
  "write_str im [] = pure_st ()"
| "write_str im (ch # chs) =
     bind_st (\<lambda>s. case put_char im ch s of (r, s') \<Rightarrow> (map_err (\<lambda>_. ()) r, s')) (\<lambda>_.
     write_str im chs)"

section \<open>What a call comes back with\<close>

text \<open>The state in which the kernel handles the call.\<close>

definition trapped :: "Registers \<Rightarrow> kstate \<Rightarrow> kstate" where
  "trapped ctx s = update_registers (ks_current s) (\<lambda>_. ctx\<lparr>rg_scause := ECALLUSER\<rparr>) s"

lemma ecall_cause: "\<not> is_interrupt ECALLUSER" "trap_code ECALLUSER = ECALLUSER"
  by (simp_all add: is_interrupt_def trap_code_def ECALLUSER_def)

lemma update_registers_requested [simp]: "ks_requested (update_registers t f s) = ks_requested s"
  by (simp add: update_registers_def update_thread_def)

lemma trapped_thread [simp]:
  "registers (thread (trapped ctx s) (ks_current s)) = ctx\<lparr>rg_scause := ECALLUSER\<rparr>"
  "ks_current (trapped ctx s) = ks_current s" "ks_requested (trapped ctx s) = ks_requested s"
  "ks_cur_reg_base (trapped ctx s) = ks_cur_reg_base s"
  by (simp_all add: trapped_def)

lemma ecall_eq:
  assumes "ks_cur_reg_base s = ks_current s" and "handle_syscall im (rg_a7 ctx) (ks_current s) (trapped ctx s) = (Ok (), t)"
    and "\<not> ks_requested t" and "ks_current t = ks_current s"
  shows "ecall im ctx s = (Ok (registers (thread t (ks_current s))), t)"
proof -
  have "handle_trap im ECALLUSER 0 (trapped ctx s) = (Ok (), t)"
    using assms by (simp add: handle_trap_def ecall_cause get_current_reg_def bind_st_def Let_def schedule_idle_request)
  moreover have "update_registers (ks_cur_reg_base s) (\<lambda>_. ctx\<lparr>rg_scause := ECALLUSER\<rparr>) s = trapped ctx s"
    by (simp add: trapped_def assms(1))
  ultimately show ?thesis using assms(4) by (simp add: ecall_def kernel_trap_def)
qed

text \<open>The kind of an error as the library reports it.\<close>

definition seen_kind :: "ErrKind \<Rightarrow> ErrKind" where
  "seen_kind k = (if k = NotRootPageTable then UnknownSysCall else k)"

lemma call_result_error:
  "call_result (r\<lparr>rg_a0 := err_kind_usize k, rg_a1 := ucast (v :: u16), rg_sepc := pc\<rparr>) = Err (seen_kind k, v)"
proof -
  have "(ucast (ucast v :: usize) :: u16) = v" by (rule bit_word_eqI) (auto simp: bit_simps)
  then show ?thesis by (cases k) (simp_all add: call_result_def seen_kind_def err_kind_try_from_def)
qed

text \<open>
  C37: A call of the user library that the kernel refuses comes back with the kind and the value
  of the error of the kernel, except that the kind NotRootPageTable reads as UnknownSysCall, and
  the state of the kernel is as before but for the registers of the caller.
\<close>

theorem syscall_error:
  assumes "ks_cur_reg_base s = ks_current s" and "\<not> ks_requested s"
    and "unat (rg_sepc (user_regs s)) + 4 < 2 ^ 64"
    and "dispatch im (syscall_no_usize sysno) (ks_current s)
           (trapped (call_regs p d l a3 a4 a5 a6 sysno (user_regs s)) s) = (Err e, t)"
  shows "\<exists>ctx. syscall im p d l a3 a4 a5 a6 sysno s =
    (Err (seen_kind (e_kind e), e_val e), update_registers (ks_current s) (\<lambda>_. ctx) s)"
proof -
  let ?c = "call_regs p d l a3 a4 a5 a6 sysno (user_regs s)" and ?u = "ks_current s"
  let ?s = "trapped ?c s" and ?f = "\<lambda>r. r\<lparr>rg_a0 := err_kind_usize (e_kind e), rg_a1 := ucast (e_val e), rg_sepc := rg_sepc r + 4\<rparr>"
  have "rg_sepc (registers (thread ?s ?u)) = rg_sepc (user_regs s)" by (simp add: call_regs_def)
  then have h: "handle_syscall im (syscall_no_usize sysno) ?u ?s = (Ok (), update_registers ?u ?f ?s)"
    using assms(3) by (intro handle_syscall_err [OF assms(4)]) simp
  have "ecall im ?c s = (Ok (registers (thread (update_registers ?u ?f ?s) ?u)), update_registers ?u ?f ?s)"
    by (rule ecall_eq) (use assms h in \<open>simp_all add: call_regs_def\<close>)
  then have "syscall im p d l a3 a4 a5 a6 sysno s = (Err (seen_kind (e_kind e), e_val e), update_registers ?u ?f ?s)"
    by (simp add: syscall_def call_result_error)
  then show ?thesis by (auto simp: trapped_def update_registers_twice)
qed


lemma handle_syscall_ok:
  assumes "dispatch im n rp s = (Ok v, t)" and "unat (rg_sepc (registers (thread t rp))) + 4 < 2 ^ 64"
  shows "handle_syscall im n rp s = (Ok (), update_registers rp (\<lambda>r. finish_syscall (Ok v) (r\<lparr>rg_sepc := rg_sepc r + 4\<rparr>)) t)"
proof -
  have f: "rg_sepc (finish_syscall (Ok v) r) = rg_sepc r" "finish_syscall (Ok v) (r\<lparr>rg_sepc := pc\<rparr>) = (finish_syscall (Ok v) r)\<lparr>rg_sepc := pc\<rparr>"
    for r pc by (simp_all add: finish_syscall_def split: option.splits)
  have "(add_ck (rg_sepc (registers (thread t rp))) 4 :: usize kres) = Ok (rg_sepc (registers (thread t rp)) + 4)"
    using assms(2) by (simp add: add_ck_def)
  then show ?thesis
    using assms(1) by (simp add: handle_syscall_def Let_def update_registers_twice f)
      (simp add: update_registers_def update_thread_def)
qed

lemma syscall_ok:
  assumes "ks_cur_reg_base s = ks_current s"
    and "dispatch im (syscall_no_usize sysno) (ks_current s)
           (trapped (call_regs p d l a3 a4 a5 a6 sysno (user_regs s)) s) = (Ok v, t)"
    and "ks_current t = ks_current s" and "\<not> ks_requested t" and "unat (rg_sepc (user_regs t)) + 4 < 2 ^ 64"
  shows "syscall im p d l a3 a4 a5 a6 sysno s =
    (Ok (case v of Some x \<Rightarrow> x | None \<Rightarrow> rg_a1 (user_regs t)),
     update_registers (ks_current s) (\<lambda>r. finish_syscall (Ok v) (r\<lparr>rg_sepc := rg_sepc r + 4\<rparr>)) t)"
proof -
  let ?c = "call_regs p d l a3 a4 a5 a6 sysno (user_regs s)" and ?u = "ks_current s"
  let ?f = "\<lambda>r. finish_syscall (Ok v) (r\<lparr>rg_sepc := rg_sepc r + 4\<rparr>)"
  have a7: "rg_a7 ?c = syscall_no_usize sysno" by (simp add: call_regs_def)
  have h: "handle_syscall im (rg_a7 ?c) ?u (trapped ?c s) = (Ok (), update_registers ?u ?f t)"
    using assms(5) unfolding a7 by (intro handle_syscall_ok [OF assms(2)]) (simp add: user_regs_def assms(3))
  have "ecall im ?c s = (Ok (registers (thread (update_registers ?u ?f t) ?u)), update_registers ?u ?f t)"
    by (rule ecall_eq [OF assms(1) h]) (use assms(3,4) in simp_all)
  then show ?thesis
    by (simp add: syscall_def call_result_def finish_syscall_def user_regs_def assms(3) split: option.splits)
qed

section \<open>Arguments\<close>

lemma pack32_decode [simp]:
  "ucast (pack32 hi lo) = lo" "drop_bit 32 (pack32 hi lo) = ucast hi"
proof -
  have b: "bit hi n \<Longrightarrow> n < 32" "bit lo n \<Longrightarrow> n < 32" for n using bit_imp_le_length [of hi n] bit_imp_le_length [of lo n] by simp_all
  show "ucast (pack32 hi lo) = lo" unfolding pack32_def by (rule bit_word_eqI) (auto simp: bit_simps)
  show "drop_bit 32 (pack32 hi lo) = ucast hi" unfolding pack32_def by (rule bit_word_eqI) (use b in \<open>fastforce simp: bit_simps\<close>)
qed

lemma ucast_u32 [simp]: "ucast (ucast (w :: u32) :: usize) = w"
  by (rule bit_word_eqI) (auto simp: bit_simps)

lemma ucast_u8 [simp]: "ucast (ucast (w :: u8) :: usize) = w"
  by (rule bit_word_eqI) (auto simp: bit_simps)

lemma cap_try_from_u8_of [simp]: "cap_try_from_u8 (cap_type_u8 k) = Ok k"
  by (cases k) (simp_all add: cap_try_from_u8_def cap_type_try_from_def map_err_def)

lemma bind_lift_Ok: "bind_st (lift_st (Ok x)) f = f x"
  by (rule ext) simp


section \<open>Printing\<close>

lemma thread_putchar [simp]: "thread (putchar ch s) u = thread s u" "ks_current (putchar ch s) = ks_current s"
  "ks_requested (putchar ch s) = ks_requested s" "ks_cur_reg_base (putchar ch s) = ks_cur_reg_base s"
  by (simp_all add: putchar_def thread_def)

lemma console_update [simp]: "ks_console (update_registers t f s) = ks_console s" "ks_console (trapped c s) = ks_console s"
  by (simp_all add: trapped_def update_registers_def update_thread_def)

text \<open>
  C38: Writing a string through the user library succeeds and appends exactly its bytes to the
  console.
\<close>

theorem write_str_prints:
  assumes "ks_cur_reg_base s = ks_current s" and "\<not> ks_requested s"
    and "unat (rg_sepc (user_regs s)) + 4 * length chs < 2 ^ 64"
  shows "\<exists>s'. write_str im chs s = (Ok (), s') \<and> ks_console s' = ks_console s @ chs"
  using assms
proof (induction chs arbitrary: s)
  case (Cons ch chs)
  let ?r = "user_regs s" and ?u = "ks_current s"
  let ?c = "call_regs (ucast ch) 0 PutChar 0 0 0 0 Print ?r" and ?f = "\<lambda>r. finish_syscall (Ok None) (r\<lparr>rg_sepc := rg_sepc r + 4\<rparr>)"
  let ?t = "putchar ch (trapped ?c s)"
  let ?s = "update_registers ?u ?f ?t"
  have d: "dispatch im (syscall_no_usize Print) ?u (trapped ?c s) = (Ok None, ?t)"
    by (simp add: dispatch_def Let_def call_regs_def inv_label_try_from_def)
  have u: "user_regs ?t = ?c\<lparr>rg_scause := ECALLUSER\<rparr>" by (simp add: user_regs_def)
  have pc: "put_char im ch s = (Ok (rg_a1 (user_regs ?t)), ?s)"
    unfolding put_char_def using syscall_ok [OF Cons.prems(1) d] Cons.prems u by (simp add: call_regs_def)
  have "unat (rg_sepc (user_regs ?s)) + 4 * length chs < 2 ^ 64"
    using Cons.prems(3) by (simp add: user_regs_def finish_syscall_def call_regs_def unat_word_ariths)
  then obtain s' where "write_str im chs ?s = (Ok (), s')" "ks_console s' = ks_console ?s @ chs"
    using Cons.IH [of ?s] Cons.prems by auto
  then show ?case using pc by (auto simp: bind_st_def putchar_def)
qed simp

end
