(* ===== verification/Zoea_Caps.thy ===== *)
theory Zoea_Caps
  imports Zoea_Syscall
begin

text \<open>
  The typed capabilities of the user library (\<^verbatim>\<open>libzoea/src/caps.rs\<close>). A capability
  of the library is a path into the capability space of the program, a pointer and
  its number of bits, together with what the library knows about the object. The
  traits become arguments: the capability type and the function \<open>from_retype\<close> of the
  new object, and the functions that copy and mint the data. A method that changes
  its receiver returns the new one.
\<close>

section \<open>Objects\<close>

record 'k Capability =
  cap_ptr :: usize
  cap_depth :: u32
  cap_data :: 'k

record Untyped_obj =
  uo_is_device :: bool
  uo_size_bits :: usize

record CNode_obj =
  co_radix :: u32
  co_cursor :: usize

record PageTable_obj =
  po_mapped_address :: usize
  po_is_root :: bool
  po_is_mapped :: bool

record PageFlags =
  pf_is_writable :: bool
  pf_is_readable :: bool
  pf_is_executable :: bool

record Page_obj =
  go_mapped_address :: usize
  go_is_mapped :: bool
  go_rights :: PageFlags

definition page_flags_usize :: "PageFlags \<Rightarrow> usize" where
  "page_flags_usize value =
     (let write = (if pf_is_writable value then 0x02 else 0x00);
          read = (if pf_is_readable value then 0x04 else 0x00);
          exec = (if pf_is_executable value then 0x01 else 0x00)
      in write OR read OR exec)"

definition readonly :: PageFlags where
  "readonly = \<lparr>pf_is_writable = False, pf_is_readable = True, pf_is_executable = False\<rparr>"

definition writeonly :: PageFlags where
  "writeonly = \<lparr>pf_is_writable = True, pf_is_readable = False, pf_is_executable = False\<rparr>"

definition executable :: PageFlags where
  "executable = \<lparr>pf_is_writable = False, pf_is_readable = True, pf_is_executable = True\<rparr>"

definition all_flags :: PageFlags where
  "all_flags = \<lparr>pf_is_writable = True, pf_is_readable = True, pf_is_executable = True\<rparr>"

definition readandwrite :: PageFlags where
  "readandwrite = \<lparr>pf_is_writable = True, pf_is_readable = True, pf_is_executable = False\<rparr>"

definition never :: PageFlags where
  "never = \<lparr>pf_is_writable = False, pf_is_readable = False, pf_is_executable = False\<rparr>"

text \<open>The functions \<open>from_retype\<close>; the objects without data are the unit value.\<close>

definition untyped_from_retype :: "usize \<Rightarrow> bool \<Rightarrow> Untyped_obj" where
  "untyped_from_retype user_size dev = \<lparr>uo_is_device = dev, uo_size_bits = user_size\<rparr>"

definition cnode_from_retype :: "usize \<Rightarrow> bool \<Rightarrow> CNode_obj" where
  "cnode_from_retype user_size _ = \<lparr>co_radix = ucast user_size, co_cursor = 0\<rparr>"

definition page_table_from_retype :: "usize \<Rightarrow> bool \<Rightarrow> PageTable_obj" where
  "page_table_from_retype _ _ = \<lparr>po_mapped_address = 0, po_is_root = False, po_is_mapped = False\<rparr>"

definition page_from_retype :: "usize \<Rightarrow> bool \<Rightarrow> Page_obj" where
  "page_from_retype _ _ = \<lparr>go_mapped_address = 0, go_is_mapped = False, go_rights = never\<rparr>"

definition unit_from_retype :: "usize \<Rightarrow> bool \<Rightarrow> unit" where
  "unit_from_retype _ _ = ()"

text \<open>The constants \<open>OBJECT_SIZE\<close> of the objects of fixed size.\<close>

fun OBJECT_SIZE :: "CapabilityType \<Rightarrow> usize" where
  "OBJECT_SIZE PageTable = 4096"
| "OBJECT_SIZE Page = 4096"
| "OBJECT_SIZE _ = 0"

section \<open>Slots\<close>

record CSlot_path =
  sl_pptr :: usize
  sl_depth :: u32
  sl_radix :: u32
  sl_index :: u32

definition get_cap_ptr :: "CSlot_path \<Rightarrow> (usize \<times> u32, SysCallFailed) run" where
  "get_cap_ptr slot =
     bind_run (add_ck (sl_depth slot) (sl_radix slot)) (\<lambda>new_depth.
     bind_run (shl_ck (sl_pptr slot) (unat (sl_radix slot))) (\<lambda>p.
     bind_run (add_ck p (ucast (sl_index slot))) (\<lambda>new_pptr.
     Ok (new_pptr, new_depth))))"

definition get_size :: "CNode_obj Capability \<Rightarrow> (usize, SysCallFailed) run" where
  "get_size self = pow2_ck (unat (co_radix (cap_data self)))"

definition get_slot :: "CNode_obj Capability \<Rightarrow> (CSlot_path \<times> CNode_obj Capability, SysCallFailed) run" where
  "get_slot self =
     bind_run (get_size self) (\<lambda>size.
     if size \<le> co_cursor (cap_data self) then Err (NoEnoughSlot, 0)
     else bind_run (add_ck (co_cursor (cap_data self)) 1) (\<lambda>cursor.
          Ok (\<lparr>sl_pptr = cap_ptr self, sl_depth = cap_depth self, sl_radix = co_radix (cap_data self),
               sl_index = ucast (co_cursor (cap_data self))\<rparr>,
              self\<lparr>cap_data := (cap_data self)\<lparr>co_cursor := cursor\<rparr>\<rparr>)))"

section \<open>Untyped memory\<close>

definition from_untyped_info :: "u32 \<Rightarrow> UntypedInfo \<Rightarrow> Untyped_obj Capability" where
  "from_untyped_info root_radix info =
     \<lparr>cap_ptr = ui_idx info, cap_depth = root_radix,
      cap_data = \<lparr>uo_is_device = ui_is_device info, uo_size_bits = ui_bits info\<rparr>\<rparr>"

definition retype_single ::
  "Image \<Rightarrow> CapabilityType \<Rightarrow> (usize \<Rightarrow> bool \<Rightarrow> 'k) \<Rightarrow> Untyped_obj Capability \<Rightarrow> CSlot_path \<Rightarrow> usize \<Rightarrow> 'k Capability uprog" where
  "retype_single im ty from_retype self slot user_size =
     (let num = 1
      in bind_st (untyped_retype im (cap_ptr self) (cap_depth self) (sl_pptr slot) (sl_depth slot) (sl_index slot)
                    (ucast user_size) num ty) (\<lambda>_.
         let new_c = from_retype user_size (uo_is_device (cap_data self))
         in bind_st (lift_st (get_cap_ptr slot)) (\<lambda>(p, d).
            pure_st \<lparr>cap_ptr = p, cap_depth = d, cap_data = new_c\<rparr>)))"

definition retype_single_with_fixed_size ::
  "Image \<Rightarrow> CapabilityType \<Rightarrow> (usize \<Rightarrow> bool \<Rightarrow> 'k) \<Rightarrow> Untyped_obj Capability \<Rightarrow> CSlot_path \<Rightarrow> 'k Capability uprog" where
  "retype_single_with_fixed_size im ty from_retype self slot =
     (let user_size = OBJECT_SIZE ty in retype_single im ty from_retype self slot user_size)"

section \<open>CNodes\<close>

definition copy ::
  "Image \<Rightarrow> ('k \<Rightarrow> 'k) \<Rightarrow> CNode_obj Capability \<Rightarrow> 'k Capability \<Rightarrow> ('k Capability \<times> CNode_obj Capability) uprog" where
  "copy im copy_data self cap =
     bind_st (lift_st (get_slot self)) (\<lambda>(slot, self').
     let depth = sl_radix slot;
         index = ucast (sl_index slot)
     in bind_st (lift_st (get_cap_ptr slot)) (\<lambda>(dest_ptr, dest_depth).
        bind_st (cnode_copy im (cap_ptr self') (cap_depth self') index depth (cap_ptr cap) (cap_depth cap)) (\<lambda>_.
        pure_st (\<lparr>cap_ptr = dest_ptr, cap_depth = dest_depth, cap_data = copy_data (cap_data cap)\<rparr>, self'))))"

definition delete :: "CNode_obj Capability \<Rightarrow> 'k Capability \<Rightarrow> unit uprog" where
  "delete self cap = pure_st ()"

definition mint ::
  "Image \<Rightarrow> ('k \<Rightarrow> usize \<Rightarrow> 'k) \<Rightarrow> CNode_obj Capability \<Rightarrow> 'k Capability \<Rightarrow> usize
     \<Rightarrow> ('k Capability \<times> CNode_obj Capability) uprog" where
  "mint im mint_data self cap cap_val =
     bind_st (lift_st (get_slot self)) (\<lambda>(slot, self').
     bind_st (lift_st (get_cap_ptr slot)) (\<lambda>(dest_ptr, dest_depth).
     bind_st (cnode_mint im (cap_ptr self') (cap_depth self') dest_ptr dest_depth (cap_ptr cap) (cap_depth cap) cap_val) (\<lambda>_.
     pure_st (\<lparr>cap_ptr = dest_ptr, cap_depth = dest_depth, cap_data = mint_data (cap_data cap) cap_val\<rparr>, self'))))"

text \<open>The implementations of \<open>copy_data\<close> and \<open>mint_data\<close> return the data they are given.\<close>

definition copy_data :: "'k \<Rightarrow> 'k" where
  "copy_data k = k"

definition mint_data :: "'k \<Rightarrow> usize \<Rightarrow> 'k" where
  "mint_data k _ = k"

section \<open>Page tables and pages\<close>

definition page_table_map_call ::
  "Image \<Rightarrow> PageTable_obj Capability \<Rightarrow> PageTable_obj Capability \<Rightarrow> usize \<Rightarrow> usize uprog" where
  "page_table_map_call im self root_table vaddr =
     map_page_table im (cap_ptr self) (cap_depth self) (cap_ptr root_table) (cap_depth root_table) vaddr"

definition make_as_root_call :: "Image \<Rightarrow> PageTable_obj Capability \<Rightarrow> PageTable_obj Capability uprog" where
  "make_as_root_call im self =
     bind_st (make_page_table_root im (cap_ptr self) (cap_depth self)) (\<lambda>_.
     pure_st (self\<lparr>cap_data := (cap_data self)\<lparr>po_is_mapped := True\<rparr>\<rparr>))"

definition page_map_call ::
  "Image \<Rightarrow> Page_obj Capability \<Rightarrow> PageTable_obj Capability \<Rightarrow> usize \<Rightarrow> PageFlags \<Rightarrow> Page_obj Capability uprog" where
  "page_map_call im self root_table vaddr flags =
     bind_st (map_page im (cap_ptr self) (cap_depth self) (cap_ptr root_table) (cap_depth root_table) vaddr
                (page_flags_usize flags)) (\<lambda>_.
     pure_st (self\<lparr>cap_data := \<lparr>go_mapped_address = vaddr, go_is_mapped = True, go_rights = flags\<rparr>\<rparr>))"

definition page_unmap_call :: "Image \<Rightarrow> Page_obj Capability \<Rightarrow> PageTable_obj Capability \<Rightarrow> Page_obj Capability uprog" where
  "page_unmap_call im self root_table =
     bind_st (unmap_page im (cap_ptr self) (cap_depth self) (cap_ptr root_table) (cap_depth root_table)) (\<lambda>_.
     pure_st (self\<lparr>cap_data := \<lparr>go_mapped_address = 0, go_is_mapped = False, go_rights = never\<rparr>\<rparr>))"

section \<open>Threads, endpoints and notifications\<close>

definition tcb_set_ipc_buffer :: "Image \<Rightarrow> unit Capability \<Rightarrow> Page_obj Capability \<Rightarrow> unit uprog" where
  "tcb_set_ipc_buffer im self page_cap =
     bind_st (set_ipc_buffer_call im (cap_ptr self) (cap_depth self) (cap_ptr page_cap) (cap_depth page_cap)) (\<lambda>_.
     pure_st ())"

definition tcb_write_regs :: "Image \<Rightarrow> unit Capability \<Rightarrow> Registers \<Rightarrow> usize \<Rightarrow> unit uprog" where
  "tcb_write_regs im self regs ipc_buf =
     bind_st (write_reg im (cap_ptr self) (cap_depth self) regs ipc_buf) (\<lambda>_.
     pure_st ())"

definition tcb_configure_call ::
  "Image \<Rightarrow> unit Capability \<Rightarrow> CNode_obj Capability \<Rightarrow> PageTable_obj Capability \<Rightarrow> unit uprog" where
  "tcb_configure_call im self cnode root_vspace =
     bind_st (configure_tcb im (cap_ptr self) (cap_depth self) (cap_ptr cnode) (cap_depth cnode)
                (cap_ptr root_vspace) (cap_depth root_vspace)) (\<lambda>_.
     pure_st ())"

definition tcb_resume :: "Image \<Rightarrow> unit Capability \<Rightarrow> unit uprog" where
  "tcb_resume im self = bind_st (resume_tcb im (cap_ptr self) (cap_depth self)) (\<lambda>_. pure_st ())"

definition endpoint_send :: "Image \<Rightarrow> unit Capability \<Rightarrow> unit uprog" where
  "endpoint_send im self = bind_st (send_ipc im (cap_ptr self) (cap_depth self)) (\<lambda>_. pure_st ())"

definition recive :: "Image \<Rightarrow> unit Capability \<Rightarrow> usize uprog" where
  "recive im self = recv_ipc im (cap_ptr self) (cap_depth self)"

definition notification_send :: "Image \<Rightarrow> unit Capability \<Rightarrow> unit uprog" where
  "notification_send im self = bind_st (send_signal_call im (cap_ptr self) (cap_depth self)) (\<lambda>_. pure_st ())"

definition notification_wait :: "Image \<Rightarrow> unit Capability \<Rightarrow> usize uprog" where
  "notification_wait im self = recv_signal im (cap_ptr self) (cap_depth self)"

section \<open>The flags of a page\<close>

text \<open>The kernel grants exactly the rights that the flags of the library name.\<close>

lemma page_flags_granted:
  "get_user_flags (page_flags_usize f) =
     (if pf_is_executable f then PAGE_X else 0) OR (if pf_is_writable f then PAGE_W else 0)
     OR (if pf_is_readable f then PAGE_R else 0)"
  by (cases "pf_is_executable f"; cases "pf_is_writable f"; cases "pf_is_readable f")
    (simp_all add: get_user_flags_def page_flags_usize_def Let_def)

section \<open>Paths\<close>

lemma get_cap_ptr_Ok:
  assumes "unat (sl_depth sl) + unat (sl_radix sl) < 64" and "unat (sl_pptr sl) < 2 ^ unat (sl_depth sl)"
    and "unat (sl_index sl) < 2 ^ unat (sl_radix sl)"
  obtains p d where "get_cap_ptr sl = Ok (p, d)" "unat p = unat (sl_pptr sl) * 2 ^ unat (sl_radix sl) + unat (sl_index sl)"
    "unat d = unat (sl_depth sl) + unat (sl_radix sl)"
proof -
  let ?p = "unat (sl_pptr sl)" and ?d = "unat (sl_depth sl)" and ?r = "unat (sl_radix sl)" and ?i = "unat (sl_index sl)"
  have "Suc ?p * 2 ^ ?r \<le> 2 ^ ?d * 2 ^ ?r" using assms(2) by (intro mult_right_mono) simp_all
  also have "\<dots> = 2 ^ (?d + ?r)" by (simp add: power_add)
  also have "\<dots> \<le> 2 ^ 63" using assms(1) by (intro power_increasing) simp_all
  finally have le: "?p * 2 ^ ?r + 2 ^ ?r \<le> 2 ^ 63" by simp
  have "unat (push_bit ?r (sl_pptr sl)) = ?p * 2 ^ ?r"
    using le by (simp only: unsigned_push_bit_eq) (simp add: push_bit_eq_mult take_bit_nat_eq_self)
  moreover have "unat (ucast (sl_index sl) :: usize) = ?i"
    using unat_less_exp [of "sl_index sl"] by (simp add: unsigned_ucast_eq take_bit_nat_eq_self)
  ultimately show thesis
    using that [of "push_bit ?r (sl_pptr sl) + ucast (sl_index sl)" "sl_depth sl + sl_radix sl"] assms le
    by (simp add: get_cap_ptr_def add_ck_def shl_ck_def unat_word_ariths)
qed

text \<open>The first bits of a longer pointer lead along the path of the shorter one.\<close>

lemma cspace_slot_extend:
  assumes "i < 2 ^ r" and "unat (radix c) \<le> d"
  shows "cspace_slot c (p * 2 ^ r + i) (d + r) = cspace_slot c p d"
proof -
  have "d + r - unat (radix c) = r + (d - unat (radix c))" using assms(2) by simp
  then have "(p * 2 ^ r + i) div 2 ^ (d + r - unat (radix c)) = (p * 2 ^ r + i) div 2 ^ r div 2 ^ (d - unat (radix c))"
    by (simp only: power_add div_mult2_eq)
  moreover have "(p * 2 ^ r + i) div 2 ^ r = p" using assms(1) by simp
  ultimately show ?thesis by (simp add: cspace_slot_def)
qed

lemma resolves_extend:
  assumes "resolves s c p d a" and "slot_at s a = Some e" and "get_cap_type (ent_cap e) = Ok CNode"
    and "unat (radix (ent_cap e)) = r" and "0 < r" and "i < 2 ^ r"
  shows "resolves s c (p * 2 ^ r + i) (d + r) (slot_addr (cnode_base (ent_cap e)) i)"
  using assms
proof (induction rule: resolves.induct)
  case (here c d p)
  then have d: "d = unat (radix c)" by (auto simp: walk_ends_def)
  have "walk_ends s x 0" for x by (simp add: walk_ends_def split: option.splits)
  then have "resolves s (ent_cap e) (p * 2 ^ r + i) r (cspace_slot (ent_cap e) (p * 2 ^ r + i) r)"
    using here.prems(3) by (intro resolves.here) simp_all
  moreover have "cspace_slot (ent_cap e) (p * 2 ^ r + i) r = slot_addr (cnode_base (ent_cap e)) i"
    using here.prems(3,5) by (simp add: cspace_slot_def)
  ultimately show ?case
    using here.prems here.hyps(1) d cspace_slot_extend [OF here.prems(5) here.hyps(1)] by (intro resolves.down [of c]) simp_all
next
  case (down c d p e' a)
  have "d + r - unat (radix c) = d - unat (radix c) + r" using down.hyps(1) by simp
  then show ?case
    using down.IH [OF down.prems] down.hyps cspace_slot_extend [OF down.prems(5), of c d p]
    by (intro resolves.down [of c _ _ _ e']) simp_all
qed

lemma resolves_entry:
  assumes "resolves s c (unat p) (unat d) a" and "unat d < 64"
  shows "lookup_entry_mut s c p d = Ok a"
  using resolves_lookup [OF assms(1) refl refl assms(2)] by (simp add: lookup_entry_mut_def)

lemma get_slot_Ok:
  assumes "unat (co_cursor (cap_data cn)) < 2 ^ unat (co_radix (cap_data cn))" and "unat (co_radix (cap_data cn)) \<le> 32"
  obtains sl cn' where "get_slot cn = Ok (sl, cn')" "sl_pptr sl = cap_ptr cn" "sl_depth sl = cap_depth cn"
    "sl_radix sl = co_radix (cap_data cn)" "unat (sl_index sl) = unat (co_cursor (cap_data cn))"
    "cn' = cn\<lparr>cap_data := (cap_data cn)\<lparr>co_cursor := co_cursor (cap_data cn) + 1\<rparr>\<rparr>"
    "unat (co_cursor (cap_data cn')) = Suc (unat (co_cursor (cap_data cn)))"
proof -
  let ?k = "co_cursor (cap_data cn)" and ?r = "unat (co_radix (cap_data cn))"
  have "(2 :: nat) ^ ?r \<le> 2 ^ 32" using assms(2) by (intro power_increasing) simp_all
  then have k: "unat ?k < 2 ^ 32" using assms(1) by linarith
  have sz: "get_size cn = Ok (2 ^ ?r)" "unat ((2 :: usize) ^ ?r) = 2 ^ ?r"
    using assms(2) by (simp_all add: get_size_def pow2_ck_def unat_pow2)
  have "\<not> 2 ^ ?r \<le> ?k" using assms(1) sz(2) by (simp add: word_le_nat_alt)
  moreover have "(add_ck ?k 1 :: (usize, SysCallFailed) run) = Ok (?k + 1)" "unat (?k + 1) = Suc (unat ?k)"
    using k by (simp_all add: add_ck_def unat_word_ariths)
  moreover have "unat (ucast ?k :: u32) = unat ?k" using k by (simp add: unsigned_ucast_eq take_bit_nat_eq_self)
  ultimately show thesis using that by (simp add: get_slot_def sz)
qed

text \<open>
  The library and the kernel agree on a CNode capability \<open>cn\<close>: the path of the
  capability leads to a slot with a CNode of that radix, the path has room for one
  more index, and the cursor is at a slot of the node.
\<close>

definition node_known :: "kstate \<Rightarrow> CapabilityData \<Rightarrow> CNode_obj Capability \<Rightarrow> CapabilityData \<Rightarrow> bool" where
  "node_known s root cn c \<longleftrightarrow>
     (\<exists>a e. resolves s root (unat (cap_ptr cn)) (unat (cap_depth cn)) a \<and> slot_at s a = Some e \<and> ent_cap e = c)
     \<and> get_cap_type c = Ok CNode \<and> radix c = co_radix (cap_data cn)
     \<and> 0 < unat (radix c) \<and> unat (radix c) \<le> 32 \<and> unat (cap_depth cn) + unat (radix c) < 64
     \<and> unat (cap_ptr cn) < 2 ^ unat (cap_depth cn) \<and> unat (co_cursor (cap_data cn)) < 2 ^ unat (radix c)"

lemma slot_path:
  assumes "node_known s root cn c"
  obtains sl p d where
    "get_slot cn = Ok (sl, cn\<lparr>cap_data := (cap_data cn)\<lparr>co_cursor := co_cursor (cap_data cn) + 1\<rparr>\<rparr>)" "get_cap_ptr sl = Ok (p, d)"
    "sl_radix sl = radix c" "unat (sl_index sl) = unat (co_cursor (cap_data cn))" "unat d < 64"
    "sl_pptr sl = cap_ptr cn" "sl_depth sl = cap_depth cn"
    "resolves s root (unat p) (unat d) (slot_addr (cnode_base c) (unat (co_cursor (cap_data cn))))"
proof -
  let ?k = "unat (co_cursor (cap_data cn))"
  obtain a e where r: "resolves s root (unat (cap_ptr cn)) (unat (cap_depth cn)) a" "slot_at s a = Some e" "ent_cap e = c"
    and c: "get_cap_type c = Ok CNode" "radix c = co_radix (cap_data cn)" "0 < unat (radix c)" "unat (radix c) \<le> 32"
      "unat (cap_depth cn) + unat (radix c) < 64" "unat (cap_ptr cn) < 2 ^ unat (cap_depth cn)" "?k < 2 ^ unat (radix c)"
    using assms by (auto simp: node_known_def)
  obtain sl cn' where sl: "get_slot cn = Ok (sl, cn')" "sl_pptr sl = cap_ptr cn" "sl_depth sl = cap_depth cn" "sl_radix sl = radix c"
      "unat (sl_index sl) = ?k" "cn' = cn\<lparr>cap_data := (cap_data cn)\<lparr>co_cursor := co_cursor (cap_data cn) + 1\<rparr>\<rparr>"
    by (rule get_slot_Ok [of cn]) (use c in auto)
  obtain p d where pd: "get_cap_ptr sl = Ok (p, d)" "unat p = unat (cap_ptr cn) * 2 ^ unat (radix c) + ?k" "unat d = unat (cap_depth cn) + unat (radix c)"
    by (rule get_cap_ptr_Ok [of sl]) (use c sl in auto)
  have "resolves s root (unat p) (unat d) (slot_addr (cnode_base c) ?k)"
    using resolves_extend [OF r(1,2) _ refl] c r(3) pd by simp
  then show thesis using that [of sl p d] sl pd c by simp
qed

text \<open>
  The slot that the library takes next is the one at which the kernel arrives when it
  resolves the path that the library computes for it.
\<close>

theorem get_cap_ptr_resolves:
  assumes "node_known s root cn c"
  shows "\<exists>sl cn' p d. get_slot cn = Ok (sl, cn') \<and> get_cap_ptr sl = Ok (p, d)
    \<and> lookup_entry_mut s root p d = Ok (slot_addr (cnode_base c) (unat (co_cursor (cap_data cn))))
    \<and> co_cursor (cap_data cn') = co_cursor (cap_data cn) + 1"
proof -
  obtain sl p d where g: "get_slot cn = Ok (sl, cn\<lparr>cap_data := (cap_data cn)\<lparr>co_cursor := co_cursor (cap_data cn) + 1\<rparr>\<rparr>)"
      "get_cap_ptr sl = Ok (p, d)"
    and r: "resolves s root (unat p) (unat d) (slot_addr (cnode_base c) (unat (co_cursor (cap_data cn))))" "unat d < 64"
    by (rule slot_path [OF assms])
  from g resolves_entry [OF r] show ?thesis by simp
qed

section \<open>Copying a capability\<close>

text \<open>A path through occupied slots stays when slots are filled.\<close>

lemma slot_at_cap: "slot_at s a = Some e \<Longrightarrow> ks_cap s a = Some (ent_cap e)"
  by (auto simp: slot_at_def split: option.splits)

lemma cap_slot_at: "ks_cap s a = Some c \<Longrightarrow> \<exists>e. slot_at s a = Some e \<and> ent_cap e = c"
  by (simp add: slot_at_def)

lemma resolves_mono:
  assumes "resolves s c p d a" and "ks_cap s a = Some x" and "\<And>b y. ks_cap s b = Some y \<Longrightarrow> ks_cap s' b = Some y"
  shows "resolves s' c p d a"
  using assms(1,2)
proof (induction rule: resolves.induct)
  case (here c d p)
  have "ks_cap s' (cspace_slot c p d) = Some x" using here.prems by (rule assms(3))
  then have "walk_ends s' (cspace_slot c p d) (d - unat (radix c))"
    using here.hyps(2) here.prems by (simp add: walk_ends_def slot_at_def)
  with here.hyps(1) show ?case by (rule resolves.here)
next
  case (down c d p e a)
  obtain e' where e': "slot_at s' (cspace_slot c p d) = Some e'" and c: "ent_cap e' = ent_cap e"
    using cap_slot_at [OF assms(3) [OF slot_at_cap [OF down.hyps(2)]]] by blast
  show ?case
    by (rule resolves.down [OF down.hyps(1) e']) (simp_all only: c down.hyps(3) down.IH [OF down.prems])
qed

lemma node_known_mono:
  assumes "node_known s root cn c" and "\<And>b y. ks_cap s b = Some y \<Longrightarrow> ks_cap s' b = Some y"
  shows "node_known s' root cn c"
proof -
  obtain a e where a: "resolves s root (unat (cap_ptr cn)) (unat (cap_depth cn)) a" "slot_at s a = Some e" "ent_cap e = c"
    using assms(1) by (auto simp: node_known_def)
  note k = slot_at_cap [OF a(2)]
  obtain e' where "slot_at s' a = Some e'" "ent_cap e' = c" using cap_slot_at [OF assms(2) [OF k]] a(3) by blast
  then show ?thesis using assms(1) resolves_mono [OF a(1) k assms(2)] unfolding node_known_def by blast
qed

text \<open>The program is the running thread, and its capability space is rooted at \<open>root\<close>.\<close>

definition user_runs :: "kstate \<Rightarrow> CapabilityData \<Rightarrow> bool" where
  "user_runs s root \<longleftrightarrow>
     ks_cur_reg_base s = ks_current s \<and> \<not> ks_requested s \<and> unat (rg_sepc (user_regs s)) + 4 < 2 ^ 64
     \<and> (\<exists>e. root_cnode (thread s (ks_current s)) = Some e \<and> ent_cap e = root)"

text \<open>The path of the capability \<open>cap\<close> leads to the slot \<open>a\<close>, which holds \<open>c\<close>.\<close>

definition cap_known :: "kstate \<Rightarrow> CapabilityData \<Rightarrow> 'k Capability \<Rightarrow> usize \<Rightarrow> CapabilityData \<Rightarrow> bool" where
  "cap_known s root cap a c \<longleftrightarrow>
     resolves s root (unat (cap_ptr cap)) (unat (cap_depth cap)) a \<and> unat (cap_depth cap) < 64 \<and> ks_cap s a = Some c"

lemma cap_known_lookup:
  assumes "cap_known s root cap a c"
  shows "lookup_entry s root (cap_ptr cap) (cap_depth cap) = Ok (a, c)"
  using assms resolves_entry [of s root "cap_ptr cap" "cap_depth cap" a]
  by (simp add: cap_known_def lookup_entry_def slot_at_def)

lemma cap_known_mono:
  assumes "cap_known s root cap a c" and "\<And>b y. ks_cap s b = Some y \<Longrightarrow> ks_cap s' b = Some y"
  shows "cap_known s' root cap a c"
  using assms resolves_mono [of s root _ _ a c s'] by (simp add: cap_known_def)

lemma trapped_caps [simp]: "ks_cap (trapped ctx s) = ks_cap s" "root_cnode (thread (trapped ctx s) (ks_current s)) = root_cnode (thread s (ks_current s))"
  by (simp_all add: trapped_def update_registers_def update_thread_def thread_def)

text \<open>A call of a capability that the kernel finds, of any type, reaches the arm of that type.\<close>

lemma dispatch_invocation:
  assumes "user_runs s root" and "cap_known s root cap a c" and "get_cap_type c = Ok ty"
    and "sysno \<noteq> Print"
    and "ctx = call_regs (cap_ptr cap) (cap_depth cap) l a3 a4 a5 a6 sysno (user_regs s)"
  shows "dispatch im (syscall_no_usize sysno) (ks_current s) (trapped ctx s) =
    (case ty of
       Untyped \<Rightarrow> invoke_untyped im root a c (ctx\<lparr>rg_scause := ECALLUSER\<rparr>)
     | CNode \<Rightarrow> invoke_cnode im root c l (ctx\<lparr>rg_scause := ECALLUSER\<rparr>)
     | Tcb \<Rightarrow> invoke_tcb im root c (ipc_buffer_ref (thread (trapped ctx s) (ks_current s))) l (ctx\<lparr>rg_scause := ECALLUSER\<rparr>)
     | Notification \<Rightarrow> invoke_notification c (ks_current s) l
     | EndPoint \<Rightarrow> invoke_endpoint c (ks_current s) l
     | Page \<Rightarrow> invoke_page root a c l (ctx\<lparr>rg_scause := ECALLUSER\<rparr>)
     | PageTable \<Rightarrow> invoke_page_table im root a c l (ctx\<lparr>rg_scause := ECALLUSER\<rparr>)) (trapped ctx s)"
    (is "_ = ?arm (trapped ctx s)")
proof -
  obtain e where e: "root_cnode (thread s (ks_current s)) = Some e" "ent_cap e = root" using assms(1) by (auto simp: user_runs_def)
  have "cap_known (trapped ctx s) root cap a c" by (rule cap_known_mono [OF assms(2)]) simp
  note lk = cap_known_lookup [OF this]
  have "inv_label_try_from (inv_label_usize l) = Ok l" by (cases l) (simp_all add: inv_label_try_from_def)
  moreover have "syscall_no_usize sysno \<noteq> syscall_no_usize Print" using assms(4) by (cases sysno) simp_all
  moreover have "rg_a0 ctx = cap_ptr cap" "ucast (rg_a1 ctx) = cap_depth cap" "rg_a2 ctx = inv_label_usize l"
    by (simp_all add: assms(5) call_regs_def)
  moreover have "handle_invocation im (cap_ptr cap) (rg_a1 ctx) l (ks_current s) (trapped ctx s) = (?arm :: usize option kprog) (trapped ctx s)"
    if d: "ucast (rg_a1 ctx) = cap_depth cap"
    using e by (simp add: handle_invocation_def Let_def d lk assms(3) ok_or_def)
  ultimately show ?thesis by (simp add: dispatch_def Let_def)
qed

lemma resolves_cong:
  assumes "resolves s c p d a" and "\<And>x. slot_at s' x = slot_at s x"
  shows "resolves s' c p d a"
  using assms(1)
  by (induction rule: resolves.induct) (simp_all add: resolves.here resolves.down walk_ends_def assms(2))

lemma slot_at_trapped [simp]: "slot_at (trapped ctx s) x = slot_at s x"
  by (simp add: slot_at_def trapped_def update_registers_def update_thread_def split: option.splits)

lemma node_known_cap:
  assumes "node_known s root cn c"
  obtains na where "cap_known s root cn na c"
  using assms slot_at_cap [of s] unfolding node_known_def cap_known_def by (metis add_lessD1)

lemma syscall_known_Ok:
  assumes "user_runs s root" and "cap_known s root cap a c" and "get_cap_type c = Ok CNode"
    and "ctx = call_regs (cap_ptr cap) (cap_depth cap) l a3 a4 a5 a6 Call (user_regs s)"
    and "invoke_cnode im root c l (ctx\<lparr>rg_scause := ECALLUSER\<rparr>) (trapped ctx s) = (Ok None, t)"
    and "ks_tcb t = ks_tcb (trapped ctx s)" and "ks_current t = ks_current s" and "\<not> ks_requested t"
  obtains v s' where "syscall im (cap_ptr cap) (cap_depth cap) l a3 a4 a5 a6 Call s = (Ok v, s')" "ks_cap s' = ks_cap t"
proof -
  have u: "ks_cur_reg_base s = ks_current s" "unat (rg_sepc (user_regs s)) + 4 < 2 ^ 64" using assms(1) by (auto simp: user_runs_def)
  have "user_regs t = ctx\<lparr>rg_scause := ECALLUSER\<rparr>"
    using assms(6,7) trapped_thread(1) [of ctx s] by (simp add: user_regs_def thread_def)
  then have p: "unat (rg_sepc (user_regs t)) + 4 < 2 ^ 64" using u(2) by (simp add: assms(4) call_regs_def)
  have d: "dispatch im (syscall_no_usize Call) (ks_current s) (trapped ctx s) = (Ok None, t)"
    using dispatch_invocation [OF assms(1-3) _ assms(4), of im] assms(5) by simp
  show thesis
    using that syscall_ok [OF u(1) d [unfolded assms(4)] assms(7,8) p]
    by (simp add: update_registers_def update_thread_def)
qed

text \<open>
  A copy or mint call whose destination the kernel finds at the empty slot \<open>dest\<close> of
  the node \<open>c\<close>.
\<close>

lemma cnode_call_Ok:
  assumes run: "user_runs s root" and cn: "cap_known s root cn na c" "get_cap_type c = Ok CNode"
    and src: "cap_known s root src a src_cap" "derive src_cap = Ok new_cap" and new: "ks_cap s (img_new_slot im) = None"
    and dest: "resolves s c (unat di) (unat dd) dest" "unat dd < 64" "ks_cap s dest = None"
    and l: "l \<noteq> CNodeMove"
  obtains v s' where "syscall im (cap_ptr cn) (cap_depth cn) l (cap_ptr src) (pack32 (cap_depth src) dd) di val Call s = (Ok v, s')"
    "ks_cap s' = (ks_cap s)(img_new_slot im := ks_cap s' (img_new_slot im),
       dest := Some (if l = CNodeMint then set_cap_dep_val new_cap val else new_cap))"
proof -
  define ctx where "ctx = call_regs (cap_ptr cn) (cap_depth cn) l (cap_ptr src) (pack32 (cap_depth src) dd) di val Call (user_regs s)"
  let ?t = "trapped ctx s" and ?reg = "ctx\<lparr>rg_scause := ECALLUSER\<rparr>"
  have "cap_known ?t root src a src_cap" by (rule cap_known_mono [OF src(1)]) simp
  from cap_known_lookup [OF this] have l1: "lookup_entry ?t root (rg_a3 ?reg) (ucast (drop_bit 32 (rg_a4 ?reg))) = Ok (a, src_cap)"
    by (simp add: ctx_def call_regs_def)
  have "resolves ?t c (unat di) (unat dd) dest" using dest(1) by (rule resolves_cong) simp
  from resolves_entry [OF this dest(2)] have l2: "lookup_entry_mut ?t c (rg_a5 ?reg) (ucast (rg_a4 ?reg)) = Ok dest"
    by (simp add: ctx_def call_regs_def)
  have ne: "a \<noteq> img_new_slot im" using src(1) new by (auto simp: cap_known_def)
  have e: "ks_cap ?t dest = None" using dest(3) by simp
  have a6: "rg_a6 ?reg = val" by (simp add: ctx_def call_regs_def)
  obtain t where iv: "invoke_cnode im root c l ?reg ?t = (Ok None, t)"
    and kc: "ks_cap t = (if l = CNodeMove then (ks_cap ?t)(a := None) else ks_cap ?t)(img_new_slot im := ks_cap t (img_new_slot im),
       dest := Some (if l = CNodeMint then set_cap_dep_val new_cap (rg_a6 ?reg) else new_cap))"
    and fr: "ks_tcb t = ks_tcb ?t" "ks_current t = ks_current ?t" "ks_requested t = ks_requested ?t"
    by (rule invoke_cnode_Ok [OF cn(2) l1 l2 e src(2) ne, of l])
  have nr: "ks_current t = ks_current s" "\<not> ks_requested t" using fr run by (simp_all add: user_runs_def)
  obtain v s' where sc: "syscall im (cap_ptr cn) (cap_depth cn) l (cap_ptr src) (pack32 (cap_depth src) dd) di val Call s = (Ok v, s')"
    and ks': "ks_cap s' = ks_cap t"
    by (rule syscall_known_Ok [OF run cn ctx_def iv fr(1) nr])
  show thesis by (rule that [OF sc], subst ks', subst kc) (simp add: l a6 ks')
qed

text \<open>
  C35: Copying a capability through the user library: the call returns a capability whose path
  leads to the next free slot of the node and finds the derived capability there, the node has
  moved on by one slot, and no capability anywhere was lost.
\<close>

theorem copy_delivers:
  assumes "user_runs s root" and "node_known s root cn c" and "cap_known s root src a src_cap"
    and "derive src_cap = Ok new_cap" and "ks_cap s (img_new_slot im) = None"
    and "ks_cap s (slot_addr (cnode_base c) (unat (co_cursor (cap_data cn)))) = None"
  shows "\<exists>new cn' s'. copy im copy_data cn src s = (Ok (new, cn'), s')
    \<and> lookup_entry s' root (cap_ptr new) (cap_depth new) = Ok (slot_addr (cnode_base c) (unat (co_cursor (cap_data cn))), new_cap)
    \<and> cap_data new = cap_data src \<and> co_cursor (cap_data cn') = co_cursor (cap_data cn) + 1
    \<and> (\<forall>b y. ks_cap s b = Some y \<longrightarrow> ks_cap s' b = Some y)"
proof -
  let ?k = "co_cursor (cap_data cn)"
  let ?dest = "slot_addr (cnode_base c) (unat ?k)"
  obtain sl p d where g: "get_slot cn = Ok (sl, cn\<lparr>cap_data := (cap_data cn)\<lparr>co_cursor := ?k + 1\<rparr>\<rparr>)" "get_cap_ptr sl = Ok (p, d)"
    and sl: "sl_radix sl = radix c" "unat (sl_index sl) = unat ?k" and dd: "unat d < 64"
    by (rule slot_path [OF assms(2)])
  obtain na where cnk: "cap_known s root cn na c" by (rule node_known_cap [OF assms(2)])
  have c: "get_cap_type c = Ok CNode" "unat ?k < 2 ^ unat (radix c)" "unat (radix c) \<le> 32" using assms(2) by (auto simp: node_known_def)
  have "unat (ucast (sl_index sl) :: usize) = unat ?k"
    using sl(2) unat_less_exp [of ?k] by (simp add: unsigned_ucast_eq take_bit_nat_eq_self)
  moreover have "cspace_slot c (unat ?k) (unat (radix c)) = ?dest" using c(2) by (simp add: cspace_slot_def)
  moreover have "resolves s c (unat ?k) (unat (radix c)) (cspace_slot c (unat ?k) (unat (radix c)))"
    by (rule resolves.here) (simp_all add: walk_ends_def split: option.splits)
  ultimately have r: "resolves s c (unat (ucast (sl_index sl) :: usize)) (unat (sl_radix sl)) ?dest" by (simp add: sl(1))
  obtain v s' where sc: "syscall im (cap_ptr cn) (cap_depth cn) CNodeCopy (cap_ptr src) (pack32 (cap_depth src) (sl_radix sl))
       (ucast (sl_index sl)) 0 Call s = (Ok v, s')"
    and kc: "ks_cap s' = (ks_cap s)(img_new_slot im := ks_cap s' (img_new_slot im),
       ?dest := Some (if CNodeCopy = CNodeMint then set_cap_dep_val new_cap 0 else new_cap))"
    by (rule cnode_call_Ok [OF assms(1) cnk c(1) assms(3-5) r _ assms(6), of CNodeCopy 0]) (use c(3) sl(1) in simp_all)
  have keep: "ks_cap s' b = Some y" if "ks_cap s b = Some y" for b y by (subst kc) (use that assms(5,6) in auto)
  have new: "ks_cap s' ?dest = Some new_cap" by (subst kc) simp
  have "node_known s' root cn c" using assms(2) keep by (rule node_known_mono)
  then have "resolves s' root (unat p) (unat d) ?dest" by (rule slot_path) (use g in simp)
  from resolves_entry [OF this dd] new have lk: "lookup_entry s' root p d = Ok (?dest, new_cap)"
    by (simp add: lookup_entry_def slot_at_def)
  have "copy im copy_data cn src s = (Ok (\<lparr>cap_ptr = p, cap_depth = d, cap_data = cap_data src\<rparr>,
      cn\<lparr>cap_data := (cap_data cn)\<lparr>co_cursor := ?k + 1\<rparr>\<rparr>), s')"
    using g sc by (simp add: copy_def cnode_copy_def Let_def copy_data_def)
  then show ?thesis using lk keep by auto
qed

text \<open>
  Minting passes the whole path of the new slot to a lookup that starts at the node
  itself. The capability ends up in another slot, unless the path happens to lead back
  to the node, as it does for the root CNode that holds a capability to itself.
\<close>

theorem mint_misplaces:
  assumes "user_runs s root" and "node_known s root cn c" and "cap_known s root src a src_cap"
    and "derive src_cap = Ok new_cap" and "ks_cap s (img_new_slot im) = None"
    and "q = (unat (cap_ptr cn) * 2 ^ unat (radix c) + unat (co_cursor (cap_data cn))) div 2 ^ unat (cap_depth cn) mod 2 ^ unat (radix c)"
    and "ks_cap s (slot_addr (cnode_base c) q) = None"
  shows "\<exists>new cn' s'. mint im mint_data cn src val s = (Ok (new, cn'), s')
    \<and> ks_cap s' (slot_addr (cnode_base c) q) = Some (set_cap_dep_val new_cap val)
    \<and> (\<forall>b. b \<noteq> slot_addr (cnode_base c) q \<and> b \<noteq> img_new_slot im \<longrightarrow> ks_cap s' b = ks_cap s b)"
proof -
  let ?k = "co_cursor (cap_data cn)" and ?dest = "slot_addr (cnode_base c) q"
  obtain na where cnk: "cap_known s root cn na c" by (rule node_known_cap [OF assms(2)])
  have c: "get_cap_type c = Ok CNode" "unat ?k < 2 ^ unat (radix c)" "unat (radix c) \<le> 32" "radix c = co_radix (cap_data cn)"
      "unat (cap_depth cn) + unat (radix c) < 64" "unat (cap_ptr cn) < 2 ^ unat (cap_depth cn)"
    using assms(2) by (auto simp: node_known_def)
  obtain sl cn' where sl: "get_slot cn = Ok (sl, cn')" "sl_pptr sl = cap_ptr cn" "sl_depth sl = cap_depth cn" "sl_radix sl = radix c"
      "unat (sl_index sl) = unat ?k" "cap_ptr cn' = cap_ptr cn" "cap_depth cn' = cap_depth cn"
    by (rule get_slot_Ok [of cn]) (use c in auto)
  obtain p d where pd: "get_cap_ptr sl = Ok (p, d)" "unat p = unat (cap_ptr cn) * 2 ^ unat (radix c) + unat ?k"
      "unat d = unat (cap_depth cn) + unat (radix c)"
    by (rule get_cap_ptr_Ok [of sl]) (use c sl in auto)
  have "cspace_slot c (unat p) (unat d) = ?dest" by (simp add: cspace_slot_def pd assms(6))
  then have r: "resolves s c (unat p) (unat d) ?dest"
    using resolves.here [of c "unat d" s "unat p"] assms(7) pd(3) by (simp add: walk_ends_def slot_at_def)
  obtain v s' where "syscall im (cap_ptr cn) (cap_depth cn) CNodeMint (cap_ptr src) (pack32 (cap_depth src) d) p val Call s = (Ok v, s')"
    and kc: "ks_cap s' = (ks_cap s)(img_new_slot im := ks_cap s' (img_new_slot im),
       ?dest := Some (if CNodeMint = CNodeMint then set_cap_dep_val new_cap val else new_cap))"
    by (rule cnode_call_Ok [OF assms(1) cnk c(1) assms(3-5) r _ assms(7), of CNodeMint val]) (use c(5) pd(3) in simp_all)
  then have "mint im mint_data cn src val s = (Ok (\<lparr>cap_ptr = p, cap_depth = d, cap_data = cap_data src\<rparr>, cn'), s')"
    using sl pd by (simp add: mint_def cnode_mint_def Let_def mint_data_def)
  moreover have "ks_cap s' ?dest = Some (set_cap_dep_val new_cap val)" by (subst kc) simp
  moreover have "ks_cap s' b = ks_cap s b" if "b \<noteq> ?dest" "b \<noteq> img_new_slot im" for b by (subst kc) (use that in simp)
  ultimately show ?thesis by blast
qed

end
