(* ===== verification/Elf.thy ===== *)
theory Elf
  imports Shared_Types
begin

text \<open>
  ELF images (\<^verbatim>\<open>shared/src/elf.rs\<close> and \<^verbatim>\<open>shared/src/elf/def.rs\<close>). The code casts the
  address of the image to the header types, so the structures are read from the
  bytes of memory, in little-endian order at the offsets of \<open>repr(C)\<close>. The image
  is behind shared references for the whole run and does not change. Fields that
  hold an enum of the source are kept as the number read. The loader is generic
  in the trait \<open>ProgramMapper\<close>; its two functions are arguments here.
\<close>

section \<open>Reading structures from memory\<close>

fun read_le :: "(usize \<Rightarrow> u8) \<Rightarrow> usize \<Rightarrow> nat \<Rightarrow> 'l::len word" where
  "read_le m a 0 = 0"
| "read_le m a (Suc n) = ucast (m a) OR push_bit 8 (read_le m (a + 1) n)"

definition EI_DENT :: nat where
  "EI_DENT = 16"

record Elf64Hdr =
  e_ident :: "u8 list"
  e_type :: u16
  e_machine :: u16
  e_version :: u32
  e_entry :: usize
  e_phoff :: usize
  e_shoff :: usize
  e_flags :: u32
  e_ehsize :: u16
  e_phentsize :: u16
  e_phnum :: u16
  e_shentsize :: u16
  e_shnum :: u16
  e_shstrndx :: u16

definition read_hdr :: "(usize \<Rightarrow> u8) \<Rightarrow> usize \<Rightarrow> Elf64Hdr" where
  "read_hdr m a =
     \<lparr>e_ident = map (\<lambda>i. m (a + of_nat i)) [0..<EI_DENT],
      e_type = read_le m (a + 16) 2, e_machine = read_le m (a + 18) 2, e_version = read_le m (a + 20) 4,
      e_entry = read_le m (a + 24) 8, e_phoff = read_le m (a + 32) 8, e_shoff = read_le m (a + 40) 8,
      e_flags = read_le m (a + 48) 4, e_ehsize = read_le m (a + 52) 2, e_phentsize = read_le m (a + 54) 2,
      e_phnum = read_le m (a + 56) 2, e_shentsize = read_le m (a + 58) 2, e_shnum = read_le m (a + 60) 2,
      e_shstrndx = read_le m (a + 62) 2\<rparr>"

record Elf64Phdr =
  p_type :: u32
  p_flags :: u32
  p_offset :: usize
  p_vaddr :: usize
  p_paddr :: usize
  p_filesz :: usize
  p_memsz :: usize
  p_align :: usize

definition read_phdr :: "(usize \<Rightarrow> u8) \<Rightarrow> usize \<Rightarrow> Elf64Phdr" where
  "read_phdr m a =
     \<lparr>p_type = read_le m a 4, p_flags = read_le m (a + 4) 4, p_offset = read_le m (a + 8) 8,
      p_vaddr = read_le m (a + 16) 8, p_paddr = read_le m (a + 24) 8, p_filesz = read_le m (a + 32) 8,
      p_memsz = read_le m (a + 40) 8, p_align = read_le m (a + 48) 8\<rparr>"

definition phdr_size :: usize where
  "phdr_size = 56"

definition shdr_size :: usize where
  "shdr_size = 64"

definition get_sheader :: "Elf64Hdr \<Rightarrow> usize \<Rightarrow> u16 \<Rightarrow> usize option" where
  "get_sheader h elf_header_addr idx =
     (if e_shnum h \<le> idx then None
      else Some (elf_header_addr + e_shoff h + ucast idx * shdr_size))"

section \<open>The identification\<close>

datatype ElfClass = ClassNone | Class32 | Class64 | ClassNum

datatype ElfData = DataNone | TwoLsb | TwoMsb

datatype ElfVersion = VersionNone | Current

definition is_elf :: "u8 list \<Rightarrow> bool" where
  "is_elf d \<longleftrightarrow> d ! 0 = 0x7f \<and> d ! 1 = 0x45 \<and> d ! 2 = 0x4c \<and> d ! 3 = 0x46"

definition elfclass :: "u8 list \<Rightarrow> (ElfClass, 'e) run" where
  "elfclass d =
     (if d ! 4 = 0 then Ok ClassNone else if d ! 4 = 1 then Ok Class32
      else if d ! 4 = 2 then Ok Class64 else Panic ExplicitPanic)"

definition elfdata :: "u8 list \<Rightarrow> (ElfData, 'e) run" where
  "elfdata d =
     (if d ! 5 = 0 then Ok DataNone else if d ! 5 = 1 then Ok TwoLsb
      else if d ! 5 = 2 then Ok TwoMsb else Panic ExplicitPanic)"

definition elfversion :: "u8 list \<Rightarrow> (ElfVersion, 'e) run" where
  "elfversion d =
     (if d ! 6 = 0 then Ok VersionNone else if d ! 6 = 1 then Ok Current else Panic ExplicitPanic)"

section \<open>Segments\<close>

datatype ProgramType = PtNull | PtLoad | PtDynamic | PtInterp | PtNote | PtShlib | PtPhdr | PtTls

fun program_type_u32 :: "ProgramType \<Rightarrow> u32" where
  "program_type_u32 PtNull = 0"
| "program_type_u32 PtLoad = 1"
| "program_type_u32 PtDynamic = 2"
| "program_type_u32 PtInterp = 3"
| "program_type_u32 PtNote = 4"
| "program_type_u32 PtShlib = 5"
| "program_type_u32 PtPhdr = 6"
| "program_type_u32 PtTls = 7"

datatype ProgramFlags = PfX | PfW | PfR

fun program_flags_u32 :: "ProgramFlags \<Rightarrow> u32" where
  "program_flags_u32 PfX = 1"
| "program_flags_u32 PfW = 2"
| "program_flags_u32 PfR = 4"

definition is_executable :: "u32 \<Rightarrow> bool" where
  "is_executable flags \<longleftrightarrow> program_flags_u32 PfX AND flags = program_flags_u32 PfX"

definition is_writable :: "u32 \<Rightarrow> bool" where
  "is_writable flags \<longleftrightarrow> program_flags_u32 PfW AND flags = program_flags_u32 PfW"

definition is_readable :: "u32 \<Rightarrow> bool" where
  "is_readable flags \<longleftrightarrow> program_flags_u32 PfR AND flags = program_flags_u32 PfR"

section \<open>The iterator over program headers\<close>

text \<open>\<open>ph_addr\<close> is the address of the header that the iterator borrows.\<close>

record PHeaders =
  ph_addr :: usize
  ph_index :: u16

definition pheaders_new :: "usize \<Rightarrow> PHeaders" where
  "pheaders_new a = \<lparr>ph_addr = a, ph_index = 0\<rparr>"

definition pheaders_next :: "(usize \<Rightarrow> u8) \<Rightarrow> PHeaders \<Rightarrow> (((Elf64Phdr \<times> usize) \<times> PHeaders) option, 'e) run" where
  "pheaders_next m it =
     (let h = read_hdr m (ph_addr it)
      in if e_phnum h \<le> ph_index it then Ok None
         else let phdr = read_phdr m (ph_addr it + e_phoff h + ucast (ph_index it) * phdr_size);
                  p_start_addr = ph_addr it + p_offset phdr
              in bind_run (add_ck (ph_index it) 1) (\<lambda>i.
                 Ok (Some ((phdr, p_start_addr), it\<lparr>ph_index := i\<rparr>))))"

lemma pheaders_next_Ok:
  assumes "ph_index it < e_phnum (read_hdr m (ph_addr it))"
  shows "pheaders_next m it =
     Ok (Some ((read_phdr m (ph_addr it + e_phoff (read_hdr m (ph_addr it)) + ucast (ph_index it) * phdr_size),
                ph_addr it + p_offset (read_phdr m (ph_addr it + e_phoff (read_hdr m (ph_addr it)) + ucast (ph_index it) * phdr_size))),
               it\<lparr>ph_index := ph_index it + 1\<rparr>))"
proof -
  have "unat (ph_index it) + 1 < 2 ^ 16"
    using assms unat_less_exp [of "e_phnum (read_hdr m (ph_addr it))"] by (simp add: word_less_nat_alt)
  then show ?thesis using assms by (simp add: pheaders_next_def Let_def add_ck_def)
qed

lemma pheaders_next_end:
  "e_phnum (read_hdr m (ph_addr it)) \<le> ph_index it \<Longrightarrow> pheaders_next m it = Ok None"
  by (simp add: pheaders_next_def Let_def)

lemma pheaders_next_index:
  assumes "pheaders_next m it = Ok (Some (x, it'))"
  shows "ph_addr it' = ph_addr it" and "unat (ph_index it') = Suc (unat (ph_index it))"
    and "unat (ph_index it) < unat (e_phnum (read_hdr m (ph_addr it)))"
  using assms by (auto simp: pheaders_next_def Let_def add_ck_Ok word_less_nat_alt word_le_nat_alt split: if_splits)

lemma pheaders_next_decreases:
  assumes "pheaders_next m it = Ok (Some (x, it'))"
  shows "unat (e_phnum (read_hdr m (ph_addr it'))) - unat (ph_index it')
    < unat (e_phnum (read_hdr m (ph_addr it))) - unat (ph_index it)"
  using pheaders_next_index [OF assms] by simp

section \<open>Loading an image\<close>

text \<open>
  A mapper takes the address of the segment, the address of its bytes, its size
  in memory and in the file, and its flags.
\<close>

type_synonym ('f, 's, 'e) mapper = "usize \<Rightarrow> usize \<Rightarrow> usize \<Rightarrow> usize \<Rightarrow> 'f \<Rightarrow> ('s, unit, 'e) prog"

definition elf_map_program ::
  "(u32 \<Rightarrow> 'f) \<Rightarrow> ('f, 's, 'e) mapper \<Rightarrow> Elf64Phdr \<Rightarrow> usize \<Rightarrow> ('s, unit, 'e) prog" where
  "elf_map_program get_flags map_program p_header p_start_addr =
     (if p_type p_header \<noteq> program_type_u32 PtLoad then pure_st ()
      else map_program (p_vaddr p_header) p_start_addr (p_memsz p_header) (p_filesz p_header)
             (get_flags (p_flags p_header)))"

function map_self_from ::
  "(u32 \<Rightarrow> 'f) \<Rightarrow> ('f, 's, 'e) mapper \<Rightarrow> (usize \<Rightarrow> u8) \<Rightarrow> PHeaders \<Rightarrow> ('s, unit, 'e) prog" where
  "map_self_from get_flags map_program m it =
     (case pheaders_next m it of
        Ok None \<Rightarrow> pure_st ()
      | Ok (Some ((p_header, p_start_addr), it')) \<Rightarrow>
          bind_st (elf_map_program get_flags map_program p_header p_start_addr) (\<lambda>_.
          map_self_from get_flags map_program m it')
      | Err e \<Rightarrow> lift_st (Err e)
      | Panic p \<Rightarrow> lift_st (Panic p)
      | Hang \<Rightarrow> lift_st Hang)"
  by pat_completeness auto
termination
  by (relation "measure (\<lambda>(_, _, m, it). unat (e_phnum (read_hdr m (ph_addr it))) - unat (ph_index it))")
    (auto dest: pheaders_next_decreases)

declare map_self_from.simps [simp del]

definition map_self ::
  "(u32 \<Rightarrow> 'f) \<Rightarrow> ('f, 's, 'e) mapper \<Rightarrow> (usize \<Rightarrow> u8) \<Rightarrow> usize \<Rightarrow> ('s, unit, 'e) prog" where
  "map_self get_flags map_program m a = map_self_from get_flags map_program m (pheaders_new a)"

section \<open>What is loaded\<close>

text \<open>The program headers of an image, and the sequential run of a list of programs.\<close>

definition program_headers :: "(usize \<Rightarrow> u8) \<Rightarrow> usize \<Rightarrow> Elf64Phdr list" where
  "program_headers m a =
     (let h = read_hdr m a
      in map (\<lambda>i. read_phdr m (a + e_phoff h + of_nat i * phdr_size)) [0..<unat (e_phnum h)])"

fun run_all :: "('s, unit, 'e) prog list \<Rightarrow> ('s, unit, 'e) prog" where
  "run_all [] = pure_st ()"
| "run_all (p # ps) = bind_st p (\<lambda>_. run_all ps)"

definition loadable :: "Elf64Phdr \<Rightarrow> bool" where
  "loadable p \<longleftrightarrow> p_type p = program_type_u32 PtLoad"

lemma bind_pure_st: "bind_st (pure_st x) f = f x"
  by (rule ext) simp

lemma map_self_from_run:
  assumes "i + k = unat (e_phnum (read_hdr m a))"
  shows "map_self_from gf mp m \<lparr>ph_addr = a, ph_index = of_nat i\<rparr>
    = run_all (map (\<lambda>p. mp (p_vaddr p) (a + p_offset p) (p_memsz p) (p_filesz p) (gf (p_flags p)))
        (filter loadable (drop i (program_headers m a))))"
  using assms
proof (induction k arbitrary: i)
  case 0
  then show ?case
    by (subst map_self_from.simps) (simp add: pheaders_next_end program_headers_def Let_def)
next
  case (Suc k)
  let ?n = "unat (e_phnum (read_hdr m a))"
  let ?it = "\<lparr>ph_addr = a, ph_index = of_nat i\<rparr>"
  let ?p = "read_phdr m (a + e_phoff (read_hdr m a) + of_nat i * phdr_size)"
  have i: "i < 2 ^ 16" using unat_less_exp [of "e_phnum (read_hdr m a)"] Suc.prems by simp
  then have ui: "unat (of_nat i :: u16) = i" by (simp add: unat_of_nat take_bit_nat_eq_self)
  have uc: "(ucast (of_nat i :: u16) :: usize) = of_nat i"
    using i by (simp add: word_unat_eq_iff unsigned_ucast_eq ui unat_of_nat take_bit_nat_eq_self)
  have lt: "ph_index ?it < e_phnum (read_hdr m (ph_addr ?it))"
    using Suc.prems ui by (simp add: word_less_nat_alt)
  have nx: "(of_nat i :: u16) + 1 = of_nat (Suc i)" by simp
  have d: "drop i (program_headers m a) = ?p # drop (Suc i) (program_headers m a)"
    using Suc.prems by (simp add: program_headers_def Let_def Cons_nth_drop_Suc [symmetric])
  have IH: "map_self_from gf mp m \<lparr>ph_addr = a, ph_index = of_nat (Suc i)\<rparr>
    = run_all (map (\<lambda>p. mp (p_vaddr p) (a + p_offset p) (p_memsz p) (p_filesz p) (gf (p_flags p)))
        (filter loadable (drop (Suc i) (program_headers m a))))"
    using Suc.IH [of "Suc i"] Suc.prems by (simp del: of_nat_Suc)
  show ?case
    by (subst map_self_from.simps, subst pheaders_next_Ok [OF lt])
       (simp add: uc nx d IH elf_map_program_def loadable_def bind_pure_st del: of_nat_Suc)
qed

section \<open>Loaders of segments\<close>

text \<open>
  The contract of a mapper with the loader. The mapper keeps an invariant \<open>inv\<close>;
  \<open>content\<close> is what the new program can read, and \<open>bytes\<close> is the memory that holds
  the image. A successful call for a segment that \<open>fits\<close> provides every byte of the
  segment and takes away nothing that was there. The loader then provides every byte
  of every loadable segment.
\<close>

locale segment_loader =
  fixes get_flags :: "u32 \<Rightarrow> 'f"
    and map_program :: "('f, 's, 'e) mapper"
    and inv :: "'s \<Rightarrow> bool"
    and content :: "'s \<Rightarrow> usize \<Rightarrow> u8 option"
    and bytes :: "usize \<Rightarrow> u8"
    and fits :: "usize \<Rightarrow> usize \<Rightarrow> usize \<Rightarrow> usize \<Rightarrow> bool"
  assumes segment_inv:
      "inv s \<Longrightarrow> fits v p ms fs \<Longrightarrow> map_program v p ms fs (get_flags fl) s = (Ok (), t) \<Longrightarrow> inv t"
    and segment_keeps:
      "inv s \<Longrightarrow> fits v p ms fs \<Longrightarrow> map_program v p ms fs (get_flags fl) s = (Ok (), t) \<Longrightarrow>
       content s u = Some y \<Longrightarrow> content t u = Some y"
    and segment_loads:
      "inv s \<Longrightarrow> fits v p ms fs \<Longrightarrow> map_program v p ms fs (get_flags fl) s = (Ok (), t) \<Longrightarrow>
       k < unat ms \<Longrightarrow> content t (v + of_nat k) = Some (if k < unat fs then bytes (p + of_nat k) else 0)"
begin

lemma segments_load:
  assumes "inv s" and "\<And>p. p \<in> set ps \<Longrightarrow> fits (p_vaddr p) (a + p_offset p) (p_memsz p) (p_filesz p)"
    and "run_all (map (\<lambda>p. map_program (p_vaddr p) (a + p_offset p) (p_memsz p) (p_filesz p) (get_flags (p_flags p))) ps) s = (Ok (), t)"
  shows "inv t" and "content s u = Some y \<Longrightarrow> content t u = Some y"
    and "p \<in> set ps \<Longrightarrow> k < unat (p_memsz p) \<Longrightarrow>
      content t (p_vaddr p + of_nat k) = Some (if k < unat (p_filesz p) then bytes (a + p_offset p + of_nat k) else 0)"
proof -
  have "inv t \<and> (\<forall>u y. content s u = Some y \<longrightarrow> content t u = Some y)
    \<and> (\<forall>p \<in> set ps. \<forall>k < unat (p_memsz p).
         content t (p_vaddr p + of_nat k) = Some (if k < unat (p_filesz p) then bytes (a + p_offset p + of_nat k) else 0))"
    using assms
  proof (induction ps arbitrary: s)
    case (Cons q qs)
    obtain s1 where one: "map_program (p_vaddr q) (a + p_offset q) (p_memsz q) (p_filesz q) (get_flags (p_flags q)) s = (Ok (), s1)"
      and rest: "run_all (map (\<lambda>p. map_program (p_vaddr p) (a + p_offset p) (p_memsz p) (p_filesz p) (get_flags (p_flags p))) qs) s1 = (Ok (), t)"
      using Cons.prems(3) by (auto simp: bind_st_eq_Ok)
    note seg = Cons.prems(1) Cons.prems(2) [of q, simplified] one
    have IH: "inv t" "\<And>u y. content s1 u = Some y \<Longrightarrow> content t u = Some y"
      "\<And>p k. p \<in> set qs \<Longrightarrow> k < unat (p_memsz p) \<Longrightarrow>
         content t (p_vaddr p + of_nat k) = Some (if k < unat (p_filesz p) then bytes (a + p_offset p + of_nat k) else 0)"
      using Cons.IH [OF segment_inv [OF seg] Cons.prems(2) rest] by auto
    then show ?case using segment_keeps [OF seg] segment_loads [OF seg] by simp
  qed simp
  then show "inv t" and "content s u = Some y \<Longrightarrow> content t u = Some y"
    and "p \<in> set ps \<Longrightarrow> k < unat (p_memsz p) \<Longrightarrow>
      content t (p_vaddr p + of_nat k) = Some (if k < unat (p_filesz p) then bytes (a + p_offset p + of_nat k) else 0)"
    by blast+
qed

lemma map_self_segments:
  assumes "inv s"
    and "\<And>p. p \<in> set (program_headers m a) \<Longrightarrow> loadable p \<Longrightarrow> fits (p_vaddr p) (a + p_offset p) (p_memsz p) (p_filesz p)"
    and "map_self get_flags map_program m a s = (Ok (), t)"
  shows "inv t" and "p \<in> set (program_headers m a) \<Longrightarrow> loadable p \<Longrightarrow> k < unat (p_memsz p) \<Longrightarrow>
      content t (p_vaddr p + of_nat k) = Some (if k < unat (p_filesz p) then bytes (a + p_offset p + of_nat k) else 0)"
proof -
  have "run_all (map (\<lambda>p. map_program (p_vaddr p) (a + p_offset p) (p_memsz p) (p_filesz p) (get_flags (p_flags p)))
      (filter loadable (program_headers m a))) s = (Ok (), t)"
    using map_self_from_run [of 0 "unat (e_phnum (read_hdr m a))" m a get_flags map_program] assms(3)
    by (simp add: map_self_def pheaders_new_def)
  note l = segments_load [OF assms(1) _ this]
  show "inv t" using l(1) assms(2) by simp
  show "p \<in> set (program_headers m a) \<Longrightarrow> loadable p \<Longrightarrow> k < unat (p_memsz p) \<Longrightarrow>
      content t (p_vaddr p + of_nat k) = Some (if k < unat (p_filesz p) then bytes (a + p_offset p + of_nat k) else 0)"
    using l(3) [of p k] assms(2) by simp
qed

end

text \<open>
  C33: Loading an ELF image calls the mapper once for every loadable program header, in the
  order of the headers, with the address, source, sizes and flags of that header, and stops at
  the first failure.
\<close>

theorem map_self_loads:
  "map_self gf mp m a =
     run_all (map (\<lambda>p. mp (p_vaddr p) (a + p_offset p) (p_memsz p) (p_filesz p) (gf (p_flags p)))
       (filter loadable (program_headers m a)))"
  using map_self_from_run [of 0 "unat (e_phnum (read_hdr m a))" m a gf mp]
  by (simp add: map_self_def pheaders_new_def)

end
