(* ===== verification/Root_Server.thy ===== *)
theory Root_Server
  imports Zoea_Caps Elf
begin

text \<open>
  The first user program (\<^verbatim>\<open>rootserver/src/\<close>): the capabilities it finds in the boot
  information, its loader for a second program, and its main function. A call that
  suspends the program does not come back in this model (the outcome \<open>Hang\<close>), so the
  definitions say what the program does up to the first call that blocks it.
\<close>

section \<open>Memory of the program\<close>

text \<open>
  The program reads and writes at the addresses of its own address space; \<open>user_kva\<close>
  is where the kernel sees the byte, when the page is mapped for the user with the
  right \<open>need\<close>. Any other access faults, and the kernel stops.
\<close>

definition user_table :: "kstate \<Rightarrow> usize" where
  "user_table s = (case vspace (thread s (ks_current s)) of Some e \<Rightarrow> get_pagetable (ent_cap e) | None \<Rightarrow> 0)"

definition user_kva :: "usize \<Rightarrow> kstate \<Rightarrow> usize \<Rightarrow> usize option" where
  "user_kva need s v =
     (case translate s (user_table s) v of
        Some w \<Rightarrow> if w AND (need OR PAGE_U) = need OR PAGE_U
                  then Some (phys_to_kva (pte_get_address w) + take_bit 12 v) else None
      | None \<Rightarrow> None)"

definition user_store :: "usize \<Rightarrow> u8 list \<Rightarrow> unit uprog" where
  "user_store v bs s =
     (let places = map (\<lambda>k. user_kva PAGE_W s (v + of_nat k)) [0..<length bs]
      in if None \<in> set places then (Panic ExplicitPanic, s)
         else (Ok (), s\<lparr>ks_byte := fold (\<lambda>(a, b) m. m(a := b)) (zip (map the places) bs) (ks_byte s)\<rparr>))"

definition user_load :: "usize \<Rightarrow> nat \<Rightarrow> u8 list uprog" where
  "user_load v n s =
     (let places = map (\<lambda>k. user_kva PAGE_R s (v + of_nat k)) [0..<n]
      in if None \<in> set places then (Panic ExplicitPanic, s)
         else (Ok (map (\<lambda>a. ks_byte s (the a)) places), s))"

text \<open>\<open>ptr::copy\<close> reads the whole source before it writes.\<close>

definition user_copy :: "usize \<Rightarrow> usize \<Rightarrow> usize \<Rightarrow> unit uprog" where
  "user_copy src dst n = bind_st (user_load src (unat n)) (user_store dst)"

text \<open>The bytes of a word, the lowest first.\<close>

definition word_bytes :: "usize \<Rightarrow> u8 list" where
  "word_bytes w = map (\<lambda>k. ucast (drop_bit (8 * k) w)) [0..<8]"

section \<open>Boot information (boot\_info.rs)\<close>

definition ROOT_CNODE_RADIX :: u32 where "ROOT_CNODE_RADIX = 18"

text \<open>The array has 32 elements, so that the first one exists.\<close>

definition get_untyped :: "BootInfo \<Rightarrow> Untyped_obj Capability" where
  "get_untyped info = from_untyped_info ROOT_CNODE_RADIX (bi_untyped_infos info ! 0)"

definition get_root_cnode :: "BootInfo \<Rightarrow> CNode_obj Capability" where
  "get_root_cnode info =
     \<lparr>cap_ptr = bi_root_cnode_idx info, cap_depth = ROOT_CNODE_RADIX,
      cap_data = \<lparr>co_radix = ROOT_CNODE_RADIX, co_cursor = bi_first_empty_idx info\<rparr>\<rparr>"

definition get_root_vspace :: "BootInfo \<Rightarrow> PageTable_obj Capability" where
  "get_root_vspace info =
     \<lparr>cap_ptr = bi_root_vspace_idx info, cap_depth = ROOT_CNODE_RADIX,
      cap_data = \<lparr>po_mapped_address = 0, po_is_root = True, po_is_mapped = True\<rparr>\<rparr>"

section \<open>The loader (elf.rs)\<close>

record ElfProgramMapper =
  em_cnode :: "CNode_obj Capability"
  em_ut :: "Untyped_obj Capability"
  em_root_table :: "PageTable_obj Capability"
  em_target_root_vspace :: "PageTable_obj Capability"
  em_free_address :: usize

type_synonym 'a mprog = "(kstate \<times> ElfProgramMapper, 'a, SysCallFailed) prog"

definition on_kernel :: "'a uprog \<Rightarrow> 'a mprog" where
  "on_kernel m x = (case m (fst x) of (r, s) \<Rightarrow> (r, (s, snd x)))"

definition mapper_slot :: "CSlot_path mprog" where
  "mapper_slot x =
     (case get_slot (em_cnode (snd x)) of
        Ok (slot, cn) \<Rightarrow> (Ok slot, (fst x, (snd x)\<lparr>em_cnode := cn\<rparr>))
      | Err e \<Rightarrow> (Err e, x)
      | Panic p \<Rightarrow> (Panic p, x)
      | Hang \<Rightarrow> (Hang, x))"

definition em_get_flags :: "u32 \<Rightarrow> PageFlags" where
  "em_get_flags flag =
     \<lparr>pf_is_writable = is_writable flag, pf_is_readable = is_readable flag, pf_is_executable = is_executable flag\<rparr>"

definition em_new_table :: "Image \<Rightarrow> PageTable_obj Capability mprog" where
  "em_new_table im =
     bind_st mapper_slot (\<lambda>table_slot.
     bind_st (gets_st (\<lambda>x. em_ut (snd x))) (\<lambda>ut.
     on_kernel (retype_single_with_fixed_size im PageTable page_table_from_retype ut table_slot)))"

text \<open>
  One round of the loop: a new table is made and mapped. The result is the level at
  which it was mapped; a failed mapping is ignored, and the loop goes on.
\<close>

definition if_ok :: "('s, 'a, 'e) prog \<Rightarrow> ('s, 'a option, 'e) prog" where
  "if_ok m x =
     (case m x of
        (Ok v, y) \<Rightarrow> (Ok (Some v), y)
      | (Err _, y) \<Rightarrow> (Ok None, y)
      | (Panic p, y) \<Rightarrow> (Panic p, y)
      | (Hang, y) \<Rightarrow> (Hang, y))"

definition em_map_one_table :: "Image \<Rightarrow> usize \<Rightarrow> usize option mprog" where
  "em_map_one_table im vaddr =
     bind_st (em_new_table im) (\<lambda>page_table_cap.
     bind_st (gets_st (\<lambda>x. em_target_root_vspace (snd x))) (\<lambda>target.
     if_ok (on_kernel (page_table_map_call im page_table_cap target vaddr))))"

text \<open>Every round takes a slot of the node, so that the loop ends.\<close>

definition slots_left :: "ElfProgramMapper \<Rightarrow> nat" where
  "slots_left m = 2 ^ unat (co_radix (cap_data (em_cnode m))) - unat (co_cursor (cap_data (em_cnode m)))"

lemma get_slot_left:
  assumes "get_slot cn = Ok (sl, cn')"
  shows "co_radix (cap_data cn') = co_radix (cap_data cn)" and "unat (co_cursor (cap_data cn')) = Suc (unat (co_cursor (cap_data cn)))"
    and "unat (co_cursor (cap_data cn)) < 2 ^ unat (co_radix (cap_data cn))"
proof -
  let ?r = "unat (co_radix (cap_data cn))"
  obtain n where n: "(pow2_ck ?r :: (usize, SysCallFailed) run) = Ok n" "\<not> n \<le> co_cursor (cap_data cn)"
    and c: "add_ck (co_cursor (cap_data cn)) 1 = (Ok (co_cursor (cap_data cn')) :: (usize, SysCallFailed) run)"
    and r: "co_radix (cap_data cn') = co_radix (cap_data cn)"
    using assms by (auto simp: get_slot_def get_size_def split: if_splits)
  show "co_radix (cap_data cn') = co_radix (cap_data cn)" by (rule r)
  show "unat (co_cursor (cap_data cn')) = Suc (unat (co_cursor (cap_data cn)))" using c by (simp add: add_ck_Ok)
  have "unat n = 2 ^ ?r" using n(1) by (auto simp: pow2_ck_def unat_pow2 split: if_splits)
  then show "unat (co_cursor (cap_data cn)) < 2 ^ ?r" using n(2) by (simp add: word_le_nat_alt)
qed

lemma on_kernel_snd:
  "on_kernel m x = (r, y) \<Longrightarrow> snd y = snd x"
  by (auto simp: on_kernel_def split: prod.splits)

lemma mapper_slot_left:
  assumes "mapper_slot x = (Ok sl, y)"
  shows "slots_left (snd y) < slots_left (snd x)"
proof -
  obtain cn where cn: "get_slot (em_cnode (snd x)) = Ok (sl, cn)" "snd y = (snd x)\<lparr>em_cnode := cn\<rparr>"
    using assms by (auto simp: mapper_slot_def split: run.splits prod.splits)
  then show ?thesis using get_slot_left [OF cn(1)] by (simp add: slots_left_def)
qed

lemma em_new_table_left:
  assumes "em_new_table im x = (Ok c, y)"
  shows "slots_left (snd y) < slots_left (snd x)"
proof -
  obtain sl x1 where "mapper_slot x = (Ok sl, x1)"
    and k: "on_kernel (retype_single_with_fixed_size im PageTable page_table_from_retype (em_ut (snd x1)) sl) x1 = (Ok c, y)"
    using assms by (force simp: em_new_table_def bind_st_eq_Ok gets_st_def)
  then show ?thesis using mapper_slot_left on_kernel_snd [OF k] by simp
qed

lemma em_map_one_table_left:
  assumes "em_map_one_table im v x = (Ok r, y)"
  shows "slots_left (snd y) < slots_left (snd x)"
proof -
  obtain c x1 where c: "em_new_table im x = (Ok c, x1)"
    and m: "if_ok (on_kernel (page_table_map_call im c (em_target_root_vspace (snd x1)) v)) x1 = (Ok r, y)"
    using assms by (force simp: em_map_one_table_def bind_st_eq_Ok gets_st_def)
  obtain q where q: "on_kernel (page_table_map_call im c (em_target_root_vspace (snd x1)) v) x1 = (q, y)"
    using m by (auto simp: if_ok_def split: prod.splits run.splits)
  then show ?thesis using em_new_table_left [OF c] on_kernel_snd [OF q] by simp
qed

function em_map_page_tables :: "Image \<Rightarrow> usize \<Rightarrow> unit mprog" where
  "em_map_page_tables im vaddr x =
     (case em_map_one_table im vaddr x of
        (Ok level, y) \<Rightarrow> if level = Some 0 then (Ok (), y) else em_map_page_tables im vaddr y
      | (Err e, y) \<Rightarrow> (Err e, y)
      | (Panic p, y) \<Rightarrow> (Panic p, y)
      | (Hang, y) \<Rightarrow> (Hang, y))"
  by pat_completeness auto
termination
  by (relation "measure (\<lambda>(_, _, x). slots_left (snd x))") (auto dest: em_map_one_table_left [OF sym])

declare em_map_page_tables.simps [simp del]

text \<open>The loop succeeds only by a mapping at the last level, and has taken slots for it.\<close>

lemma em_map_page_tables_maps:
  assumes "em_map_page_tables im v x = (Ok (), y)"
  shows "\<exists>z. em_map_one_table im v z = (Ok (Some 0), y) \<and> slots_left (snd y) < slots_left (snd x)"
  using assms
proof (induction im v x rule: em_map_page_tables.induct)
  case (1 im v x)
  obtain level z where one: "em_map_one_table im v x = (Ok level, z)"
    using "1.prems" by (subst (asm) em_map_page_tables.simps) (auto split: prod.splits run.splits)
  note less = em_map_one_table_left [OF one]
  show ?case
  proof (cases "level = Some 0")
    case True
    then have "z = y" using "1.prems" one by (simp add: em_map_page_tables.simps [of im v x])
    then show ?thesis using one True less by blast
  next
    case False
    then have "em_map_page_tables im v z = (Ok (), y)" using "1.prems" one by (simp add: em_map_page_tables.simps [of im v x])
    then show ?thesis using "1.IH" [OF one [symmetric] refl False] less by fastforce
  qed
qed

definition em_map_page_with_tables :: "Image \<Rightarrow> usize \<Rightarrow> PageFlags \<Rightarrow> Page_obj Capability mprog" where
  "em_map_page_with_tables im vaddr flags =
     bind_st mapper_slot (\<lambda>slot.
     bind_st (gets_st (\<lambda>x. em_ut (snd x))) (\<lambda>ut.
     bind_st (on_kernel (retype_single_with_fixed_size im Page page_from_retype ut slot)) (\<lambda>page_cap.
     bind_st (gets_st (\<lambda>x. em_target_root_vspace (snd x))) (\<lambda>target.
     (\<lambda>x. case on_kernel (page_map_call im page_cap target vaddr flags) x of
            (Err (k, value), y) \<Rightarrow>
              (if k = PageTableNotMappedYet
               then bind_st (em_map_page_tables im vaddr) (\<lambda>_.
                    on_kernel (page_map_call im page_cap target vaddr flags)) y
               else (Err (InvalidOperation, 0), y))
          | (Ok c, y) \<Rightarrow> (Ok c, y)
          | (Panic p, y) \<Rightarrow> (Panic p, y)
          | (Hang, y) \<Rightarrow> (Hang, y))))))"

definition mapper_copy :: "Image \<Rightarrow> Page_obj Capability \<Rightarrow> Page_obj Capability mprog" where
  "mapper_copy im page_cap =
     bind_st (gets_st (\<lambda>x. em_cnode (snd x))) (\<lambda>cnode.
     bind_st (on_kernel (copy im copy_data cnode page_cap)) (\<lambda>(tmp_page_cap, cnode').
     bind_st (modify_st (\<lambda>(s, m). (s, m\<lparr>em_cnode := cnode'\<rparr>))) (\<lambda>_.
     pure_st tmp_page_cap)))"

text \<open>The result is what is left of the file.\<close>

definition em_map_page :: "Image \<Rightarrow> usize \<Rightarrow> usize \<Rightarrow> PageFlags \<Rightarrow> usize \<Rightarrow> usize \<Rightarrow> usize mprog" where
  "em_map_page im vaddr p_start_addr flags file_sz_rem offset =
     bind_st (em_map_page_with_tables im vaddr flags) (\<lambda>page_cap.
     if file_sz_rem = 0 then pure_st file_sz_rem
     else bind_st (mapper_copy im page_cap) (\<lambda>tmp_page_cap.
          let copy_size = min PAGE_SIZE file_sz_rem
          in bind_st (gets_st snd) (\<lambda>self.
             bind_st (on_kernel (page_map_call im tmp_page_cap (em_root_table self) (em_free_address self) readandwrite)) (\<lambda>mapped.
             bind_st (on_kernel (user_copy (p_start_addr + offset) (em_free_address self) copy_size)) (\<lambda>_.
             bind_st (on_kernel (page_unmap_call im mapped (em_root_table self))) (\<lambda>unmapped.
             bind_st (on_kernel (delete (em_cnode self) unmapped)) (\<lambda>_.
             pure_st (saturating_sub file_sz_rem PAGE_SIZE))))))))"

fun em_map_pages :: "Image \<Rightarrow> usize \<Rightarrow> usize \<Rightarrow> PageFlags \<Rightarrow> nat list \<Rightarrow> usize \<Rightarrow> unit mprog" where
  "em_map_pages im vaddr p_start_addr flags [] file_sz_rem = pure_st ()"
| "em_map_pages im vaddr p_start_addr flags (page_idx # is) file_sz_rem =
     bind_st (lift_st (mul_ck PAGE_SIZE (of_nat page_idx))) (\<lambda>offset.
     bind_st (lift_st (add_ck vaddr offset)) (\<lambda>vaddr_n.
     bind_st (em_map_page im vaddr_n p_start_addr flags file_sz_rem offset) (\<lambda>rem.
     em_map_pages im vaddr p_start_addr flags is rem)))"

definition em_map_program :: "Image \<Rightarrow> (PageFlags, kstate \<times> ElfProgramMapper, SysCallFailed) mapper" where
  "em_map_program im vaddr p_start_addr p_mem_size p_file_size flags =
     bind_st (lift_st (align_up p_mem_size PAGE_SIZE)) (\<lambda>n.
     em_map_pages im vaddr p_start_addr flags [0..<unat (n div PAGE_SIZE)] p_file_size)"

definition em_new ::
  "CNode_obj Capability \<Rightarrow> Untyped_obj Capability \<Rightarrow> PageTable_obj Capability \<Rightarrow> PageTable_obj Capability \<Rightarrow> usize \<Rightarrow> ElfProgramMapper" where
  "em_new cnode ut root_table target_root_vspace free_address =
     \<lparr>em_cnode = cnode, em_ut = ut, em_root_table = root_table, em_target_root_vspace = target_root_vspace,
      em_free_address = free_address\<rparr>"

definition em_try_new ::
  "Image \<Rightarrow> CNode_obj Capability \<Rightarrow> Untyped_obj Capability \<Rightarrow> PageTable_obj Capability \<Rightarrow> usize \<Rightarrow> ElfProgramMapper uprog" where
  "em_try_new im cnode ut root_table free_address =
     bind_st (lift_st (get_slot cnode)) (\<lambda>(table_slot, cnode').
     bind_st (retype_single_with_fixed_size im PageTable page_table_from_retype ut table_slot) (\<lambda>target.
     bind_st (make_as_root_call im target) (\<lambda>target_root_vspace.
     pure_st (em_new cnode' ut root_table target_root_vspace free_address))))"

definition em_finalize ::
  "ElfProgramMapper \<Rightarrow> CNode_obj Capability \<times> Untyped_obj Capability \<times> PageTable_obj Capability" where
  "em_finalize self = (em_cnode self, em_ut self, em_target_root_vspace self)"

text \<open>The image of the new program is read at its addresses in the program that holds it.\<close>

definition user_view :: "kstate \<Rightarrow> usize \<Rightarrow> u8" where
  "user_view s v = (case user_kva PAGE_R s v of Some a \<Rightarrow> ks_byte s a | None \<Rightarrow> 0)"

definition load_program :: "Image \<Rightarrow> usize \<Rightarrow> ElfProgramMapper \<Rightarrow> ElfProgramMapper uprog" where
  "load_program im elf mapper s =
     (case map_self em_get_flags (em_map_program im) (user_view s) elf (s, mapper) of
        (Ok _, (s', m)) \<Rightarrow> (Ok m, s')
      | (Err e, (s', _)) \<Rightarrow> (Err e, s')
      | (Panic p, (s', _)) \<Rightarrow> (Panic p, s')
      | (Hang, (s', _)) \<Rightarrow> (Hang, s'))"

section \<open>The main function (rootserver.rs)\<close>

text \<open>
  What the build fixes: the addresses of the embedded program, of the stack and of the
  code of the child, and the texts of the messages that format a value.
\<close>

record ServerImage =
  si_simple :: usize
  si_stack :: usize
  si_children :: usize
  si_show_boot :: "BootInfo \<Rightarrow> u8 list"
  si_show_failed :: "SysCallFailed \<Rightarrow> u8 list"
  si_show_value :: "usize \<Rightarrow> u8 list"
  si_show_cap :: "unit Capability \<Rightarrow> u8 list"

definition ascii :: "string \<Rightarrow> u8 list" where
  "ascii cs = map of_char cs"

text \<open>The writer stops at a failed call, and the failure is dropped.\<close>

definition println :: "Image \<Rightarrow> u8 list \<Rightarrow> unit uprog" where
  "println im txt s =
     (case write_str im (txt @ [10]) s of
        (Ok _, s') \<Rightarrow> (Ok (), s')
      | (Err _, s') \<Rightarrow> (Ok (), s')
      | (Panic p, s') \<Rightarrow> (Panic p, s')
      | (Hang, s') \<Rightarrow> (Hang, s'))"

definition new_proc_elf :: "ServerImage \<Rightarrow> (usize, SysCallFailed) run" where
  "new_proc_elf si = (if si_simple si = 0 then Err (InvalidOperation, 0) else Ok (si_simple si))"

text \<open>The frame behind an address of the program.\<close>

definition user_frame :: "usize \<Rightarrow> usize uprog" where
  "user_frame v s = (case user_kva PAGE_W s v of Some a \<Rightarrow> (Ok a, s) | None \<Rightarrow> (Panic ExplicitPanic, s))"

text \<open>Taking a slot of a node and making an object of fixed size in it.\<close>

definition new_object ::
  "Image \<Rightarrow> CapabilityType \<Rightarrow> (usize \<Rightarrow> bool \<Rightarrow> 'k) \<Rightarrow> Untyped_obj Capability \<Rightarrow> CNode_obj Capability
     \<Rightarrow> ('k Capability \<times> CNode_obj Capability) uprog" where
  "new_object im ty from_retype untyped cnode =
     bind_st (lift_st (get_slot cnode)) (\<lambda>(slot, cnode').
     bind_st (retype_single_with_fixed_size im ty from_retype untyped slot) (\<lambda>cap.
     pure_st (cap, cnode')))"

definition try_main :: "Image \<Rightarrow> ServerImage \<Rightarrow> BootInfo \<Rightarrow> unit uprog" where
  "try_main im si boot_info =
     (let untyped = get_untyped boot_info;
          root_vspace = get_root_vspace boot_info
      in
     bind_st (println im (ascii ''boot info: '' @ si_show_boot si boot_info)) (\<lambda>_.
     bind_st (new_object im Tcb unit_from_retype untyped (get_root_cnode boot_info)) (\<lambda>(child_tcb, c1).
     bind_st (new_object im Notification unit_from_retype untyped c1) (\<lambda>(notify, c2).
     bind_st (lift_st (get_slot c2)) (\<lambda>(lv2_slot, c3).
     bind_st (retype_single im CNode cnode_from_retype untyped lv2_slot 18) (\<lambda>lv2_cnode.
     bind_st (new_object im Page page_from_retype untyped c3) (\<lambda>(page0, c4).
     bind_st (new_object im PageTable page_table_from_retype untyped c4) (\<lambda>(page_table, c5).
     bind_st (new_object im EndPoint unit_from_retype untyped c5) (\<lambda>(endpoint, c6).
     bind_st (page_table_map_call im page_table root_vspace 0xfff000) (\<lambda>_.
     bind_st (page_map_call im page0 root_vspace 0xfff000 readandwrite) (\<lambda>page.
     bind_st (user_store 0xfff000 (word_bytes 3)) (\<lambda>_.
     bind_st (tcb_set_ipc_buffer im child_tcb page) (\<lambda>_.
     bind_st (new_object im Page page_from_retype untyped c6) (\<lambda>(page1, c7).
     bind_st (page_map_call im page1 root_vspace 0xffe000 readonly) (\<lambda>page1_mapped.
     bind_st (page_unmap_call im page1_mapped root_vspace) (\<lambda>_.
     bind_st (em_try_new im lv2_cnode untyped root_vspace 0xffe000) (\<lambda>elf_mapper.
     bind_st (lift_st (new_proc_elf si)) (\<lambda>elf.
     bind_st (gets_st (\<lambda>s. e_entry (read_hdr (user_view s) elf))) (\<lambda>new_entry.
     bind_st (load_program im elf elf_mapper) (\<lambda>loaded_mapper.
     bind_st (println im (ascii ''[TEST][PASS] ROOTSERVER_MAPPED_SIMPLE'')) (\<lambda>_.
     bind_st (println im (ascii ''mapping was done'')) (\<lambda>_.
     let (lv2, untyped', root_vspace_for_new_proc) = em_finalize loaded_mapper in
     bind_st (new_object im Tcb unit_from_retype untyped' lv2) (\<lambda>(new_proc, lv2').
     bind_st (copy im copy_data lv2' notify) (\<lambda>(_, lv2'').
     bind_st (mint im mint_data c7 notify 4) (\<lambda>(minted_not_1, c8).
     bind_st (mint im mint_data c8 notify 8) (\<lambda>(minted_not_2, c9).
     bind_st (mint im mint_data c9 endpoint 0xdeadbeef) (\<lambda>(minted_ep, c10).
     bind_st (tcb_configure_call im child_tcb c10 root_vspace) (\<lambda>_.
     bind_st (user_frame (bi_ipc_buffer_addr boot_info)) (\<lambda>ipc_buf.
     bind_st (tcb_write_regs im child_tcb
                (null_registers\<lparr>rg_sp := si_stack si + 8 * 511, rg_sepc := si_children si,
                   rg_a0 := cap_ptr minted_not_1, rg_a1 := ucast (cap_depth minted_not_1),
                   rg_a2 := cap_ptr minted_ep, rg_a3 := ucast (cap_depth minted_ep)\<rparr>) ipc_buf) (\<lambda>_.
     bind_st (traverse im) (\<lambda>_.
     bind_st (tcb_resume im child_tcb) (\<lambda>_.
     bind_st (println im (ascii ''parnet: wait'')) (\<lambda>_.
     bind_st (notification_wait im notify) (\<lambda>v.
     bind_st (println im (ascii ''parent: wake up '' @ si_show_value si v)) (\<lambda>_.
     bind_st (notification_send im minted_not_2) (\<lambda>_.
     bind_st (println im (ascii ''parent: call send'')) (\<lambda>_.
     bind_st (endpoint_send im endpoint) (\<lambda>_.
     bind_st (println im (ascii ''parnet: send done'')) (\<lambda>_.
     bind_st (println im (ascii ''parent: call recv'')) (\<lambda>_.
     bind_st (recive im endpoint) (\<lambda>_.
     bind_st (println im (ascii ''parnet: recv done'')) (\<lambda>_.
     bind_st (println im (ascii ''parent: call recv'')) (\<lambda>_.
     bind_st (recive im endpoint) (\<lambda>_.
     bind_st (println im (ascii ''parnet: recv done'')) (\<lambda>_.
     bind_st (tcb_configure_call im new_proc lv2'' root_vspace_for_new_proc) (\<lambda>_.
     bind_st (user_frame (bi_ipc_buffer_addr boot_info)) (\<lambda>ipc_buf'.
     bind_st (tcb_write_regs im new_proc (null_registers\<lparr>rg_sepc := new_entry\<rparr>) ipc_buf') (\<lambda>_.
     bind_st (tcb_resume im new_proc) (\<lambda>_.
     bind_st (println im (ascii ''[TEST][PASS] ROOTSERVER_RESUMED_SIMPLE'')) (\<lambda>_.
     pure_st ()))))))))))))))))))))))))))))))))))))))))))))))))))"

definition server_main :: "Image \<Rightarrow> ServerImage \<Rightarrow> BootInfo \<Rightarrow> unit uprog" where
  "server_main im si boot_info s =
     (case try_main im si boot_info s of
        (Err e, s') \<Rightarrow>
          bind_st (println im (ascii ''[TEST][FAIL] ROOTSERVER_MAIN: '' @ si_show_failed si e)) (\<lambda>_.
          println im (ascii ''rootserver failed: '' @ si_show_failed si e)) s'
      | (Ok _, s') \<Rightarrow> println im (ascii ''[TEST][PASS] ROOTSERVER_DONE'') s'
      | (Panic p, s') \<Rightarrow> (Panic p, s')
      | (Hang, s') \<Rightarrow> (Hang, s'))"

text \<open>A call whose failure is reported and ends the child.\<close>

definition or_report :: "Image \<Rightarrow> ServerImage \<Rightarrow> string \<Rightarrow> 'a uprog \<Rightarrow> unit uprog \<Rightarrow> unit uprog" where
  "or_report im si msg m continue s =
     (case m s of
        (Err e, s') \<Rightarrow> println im (ascii msg @ si_show_failed si e) s'
      | (Ok _, s') \<Rightarrow> continue s'
      | (Panic p, s') \<Rightarrow> (Panic p, s')
      | (Hang, s') \<Rightarrow> (Hang, s'))"

text \<open>The empty loop at the end never returns.\<close>

definition children :: "Image \<Rightarrow> ServerImage \<Rightarrow> usize \<Rightarrow> u32 \<Rightarrow> usize \<Rightarrow> u32 \<Rightarrow> unit uprog" where
  "children im si not_cptr not_depth ep_ptr ep_depth =
     (let ntfn = \<lparr>cap_ptr = not_cptr, cap_depth = not_depth, cap_data = ()\<rparr>;
          ep = \<lparr>cap_ptr = ep_ptr, cap_depth = ep_depth, cap_data = ()\<rparr>
      in
     bind_st (println im (ascii ''children: notification is '' @ si_show_cap si ntfn)) (\<lambda>_.
     bind_st (println im (ascii ''children: ep is '' @ si_show_cap si ep)) (\<lambda>_.
     or_report im si ''children failed to send signal: '' (notification_send im ntfn) (
     bind_st (println im (ascii ''children: send signal'')) (\<lambda>_.
     bind_st (println im (ascii ''child: call recv'')) (\<lambda>_.
     or_report im si ''children failed to recv: '' (recive im ep) (
     bind_st (println im (ascii ''child: recv done'')) (\<lambda>_.
     bind_st (println im (ascii ''child: call send'')) (\<lambda>_.
     or_report im si ''children failed to send(1): '' (endpoint_send im ep) (
     bind_st (println im (ascii ''child: send done'')) (\<lambda>_.
     bind_st (println im (ascii ''child: call send'')) (\<lambda>_.
     or_report im si ''children failed to send(2): '' (endpoint_send im ep) (
     bind_st (println im (ascii ''child: send done'')) (\<lambda>_.
     (\<lambda>s. (Hang, s))))))))))))))))"

end
