(* ===== verification/Examples.thy ===== *)
theory Examples
  imports Handler
begin

text \<open>
  Concrete states at which the theorems of the other theories apply: a linked
  image, a machine, a small system with runnable threads, an endpoint, a
  notification, a capability space and page tables. Each theorem here uses one
  theorem of the library on such a state, with its premises evaluated there.
\<close>

section \<open>A linked image and a machine\<close>

definition demo_image :: Image where
  "demo_image =
     \<lparr>img_size_of = (\<lambda>_. 0x400), img_idle_thread = 0xffffffff80001000, img_vm_root = 0xffffffff80002000,
      img_lv2table = 0xffffffff80003000, img_text = 0xffffffff80000000, img_data_end = 0xffffffff80010000,
      img_stack_top = 0xffffffff80009000, img_idle_fn = 0xffffffff80000100, img_cpu_var = 0xffffffff80004000,
      img_trap_entry = 0xffffffff80000200, img_new_slot = 0xffffffff80008000, img_entry = 0xffffffff80008100,
      img_new_entry = 0xffffffff80008200\<rparr>"

definition demo_hart :: hart where
  "demo_hart =
     \<lparr>h_reg = (\<lambda>_. 7), h_csr = (\<lambda>c. if c = Sscratch then 0x1000 else 9),
      h_mem = (\<lambda>a. if a = 0x1010 then 0x2000 else 3)\<rparr>"

lemma demo_apart: "apart 0x1000 0x2000"
  unfolding apart_def
proof
  fix r
  show "0x2000 + reg_offset r \<noteq> 0x1000 \<and> 0x2000 + reg_offset r \<noteq> 0x1000 + 8
      \<and> 0x2000 + reg_offset r \<noteq> 0x1000 + 16"
    by (cases r) simp_all
qed

theorem trap_saves_context_witness:
  "reg_index (reg_file (exec trap_entry demo_hart) 0x2000) A0 = 7
   \<and> reg_index (reg_file (exec trap_entry demo_hart) 0x2000) SEpc = 9
   \<and> h_reg (exec trap_entry demo_hart) Sp = 3"
  using trap_saves_context [of "0x2000" demo_hart "exec trap_entry demo_hart"] demo_apart
  by (simp add: demo_hart_def del: reg_index.simps)

theorem context_round_trip_witness:
  "h_reg (exec return_to_user ((exec trap_entry demo_hart)\<lparr>h_reg := (\<lambda>_. 0x2000)\<rparr>)) S11 = 7
   \<and> h_csr (exec return_to_user ((exec trap_entry demo_hart)\<lparr>h_reg := (\<lambda>_. 0x2000)\<rparr>)) Sepc = 9"
proof -
  let ?k = "(exec trap_entry demo_hart)\<lparr>h_reg := (\<lambda>_. 0x2000)\<rparr>"
  have "(\<forall>r. general r \<longrightarrow> h_reg (exec return_to_user ?k) r = h_reg demo_hart r)
      \<and> h_csr (exec return_to_user ?k) Sepc = h_csr demo_hart Sepc
      \<and> h_csr (exec return_to_user ?k) Sstatus = h_csr demo_hart Sstatus"
    using demo_apart by (intro context_round_trip [where h = demo_hart and k = ?k and base = "0x2000"])
      (simp_all add: demo_hart_def)
  then show ?thesis by (simp add: general_def demo_hart_def)
qed

section \<open>Runnable threads\<close>

text \<open>Every thread is runnable with one tick left and an IPC buffer of its own; one waits, one runs.\<close>

definition demo_thread :: "usize \<Rightarrow> ThreadInfo" where
  "demo_thread a =
     default_thread\<lparr>status := Runnable, time_slice := 1,
       ipc_buffer := Some (new_with_rawcap (cap_new Page a 0))\<rparr>"

definition ready_state :: kstate where
  "ready_state =
     (boot_state demo_image)\<lparr>ks_tcb := (\<lambda>a. ListItem_new (demo_thread a)),
        ks_runqueue := \<lparr>ll_head = Some 0xa000, ll_last = Some 0xa000\<rparr>,
        ks_current := 0xc000, ks_cur_reg_base := 0xc000\<rparr>"

lemma ready_queue: "run_queue ready_state [0xa000]"
  by (simp add: run_queue_def ready_state_def list_rep_def ListItem_new_def)

lemma ready_simps [simp]:
  "ks_current ready_state = 0xc000" "ks_cur_reg_base ready_state = 0xc000" "\<not> ks_requested ready_state"
  "loose (ks_tcb ready_state) t" "thread ready_state t = demo_thread t" "img_idle_thread demo_image = 0xffffffff80001000"
  by (simp_all add: ready_state_def boot_state_def demo_image_def loose_def next_is_none_def ListItem_new_def thread_def)

lemma demo_thread_simps [simp]:
  "is_runnable (demo_thread t)" "time_slice (demo_thread t) = 1"
  "unat t < 2 ^ 48 \<Longrightarrow> ipc_buffer_ref (demo_thread t) = Some (phys_to_kva t)"
  "root_cnode (demo_thread t) = None" "vspace (demo_thread t) = None"
  by (simp_all add: demo_thread_def is_runnable_def ipc_buffer_ref_def new_with_rawcap_def get_address_new default_thread_def)


theorem queue_head_runs_witness:
  "\<exists>s'. ticks demo_image [0] ready_state = (Ok (), s') \<and> ks_current s' = 0xa000 \<and> time_slice (thread s' 0xa000) = 20"
  by (rule queue_head_runs [OF _ _ _ _ _ ready_queue]) simp_all

theorem timer_trap_safe_witness:
  "\<exists>s'. handle_trap demo_image timer_cause 0 ready_state = (Ok (), s') \<and> slice_ok demo_image s'"
  by (rule timer_trap_safe [OF _ _ ready_queue]) (simp_all add: slice_ok_def)


section \<open>A capability space\<close>

text \<open>
  A root CNode with 16 slots that holds itself in slot 1, an endpoint capability
  in slot 2 and untyped memory in slot 4. The running thread asks for slot 2 to
  be minted into slot 3.
\<close>

definition demo_root :: CapabilityData where
  "demo_root = cap_new CNode 0x6000 4"

definition demo_ep_cap :: CapabilityData where
  "demo_ep_cap = cap_new EndPoint 0x5000 42"

definition demo_untyped :: CapabilityData where
  "demo_untyped = cap_new Untyped 0x80000000 0x800000000014"

definition demo_slot :: "nat \<Rightarrow> usize" where
  "demo_slot i = 0xffff800000006000 + of_nat (32 * i)"

definition demo_regs :: Registers where
  "demo_regs = null_registers\<lparr>rg_a0 := 1, rg_a1 := 4, rg_a2 := 10, rg_a3 := 2, rg_a4 := 0x400000004,
     rg_a5 := 3, rg_a6 := 99\<rparr>"

definition cspace_state :: kstate where
  "cspace_state =
     ready_state\<lparr>
      ks_cap := (\<lambda>_. None)(demo_slot 1 := Some demo_root, demo_slot 2 := Some demo_ep_cap, demo_slot 4 := Some demo_untyped),
      ks_tcb := (\<lambda>a. ListItem_new ((demo_thread a)\<lparr>root_cnode := Some (new_with_rawcap demo_root),
         registers := demo_regs\<rparr>)),
      ks_ep := (\<lambda>_. ep_new), ks_ntfn := (\<lambda>_. ntfn_new)\<rparr>"

lemma demo_root_simps [simp]:
  "radix demo_root = 4" "cnode_base demo_root = 0xffff800000006000" "get_cap_type demo_root = Ok CNode"
  "get_cap_type demo_ep_cap = Ok EndPoint" "get_cap_type demo_untyped = Ok Untyped"
  by (simp_all add: demo_root_def demo_ep_cap_def demo_untyped_def radix_def cnode_base_def get_address_new phys_to_kva_def KERNEL_V_ADDR_PFX_def
      get_cap_type_Ok)

lemma demo_slot_simps [simp]:
  "slot_addr 0xffff800000006000 = demo_slot"
  "demo_slot 1 = 0xffff800000006020" "demo_slot 2 = 0xffff800000006040" "demo_slot 3 = 0xffff800000006060"
  "demo_slot 4 = 0xffff800000006080" "demo_slot (Suc 0) = 0xffff800000006020"
  by (simp_all add: fun_eq_iff slot_addr_def demo_slot_def)

lemma demo_lookup: "lookup_entry_mut cspace_state demo_root p 4 = Ok (demo_slot (unat p mod 16))"
  by (simp add: lookup_entry_mut_def lookup_loop_step Let_def cspace_slot_def split: option.split)

lemma cspace_simps [simp]:
  "ks_current cspace_state = 0xc000" "loose (ks_tcb cspace_state) t"
  "thread cspace_state t = (demo_thread t)\<lparr>root_cnode := Some (new_with_rawcap demo_root), registers := demo_regs\<rparr>"
  "ks_cap cspace_state 0xffff800000006020 = Some demo_root"
  "ks_cap cspace_state 0xffff800000006040 = Some demo_ep_cap" "ks_cap cspace_state 0xffff800000006060 = None"
  "ks_cap cspace_state 0xffff800000006080 = Some demo_untyped"
  "ks_ep cspace_state p = ep_new" "ks_ntfn cspace_state p = ntfn_new"
  by (simp_all add: cspace_state_def loose_def next_is_none_def ListItem_new_def thread_def)

lemma demo_regs_simps [simp]:
  "rg_a0 demo_regs = 1" "rg_a1 demo_regs = 4" "rg_a2 demo_regs = 10" "rg_a3 demo_regs = 2"
  "rg_a5 demo_regs = 3" "rg_a6 demo_regs = 99"
  by (simp_all add: demo_regs_def)

lemma demo_depths [simp]:
  "(ucast (rg_a4 demo_regs) :: u32) = 4" "(ucast (drop_bit 32 (rg_a4 demo_regs)) :: u32) = 4"
  by (simp_all add: demo_regs_def word_unat_eq_iff)

lemma cspace_queue: "run_queue cspace_state [0xa000]"
  by (simp add: run_queue_def cspace_state_def ready_state_def list_rep_def ListItem_new_def)

theorem lookup_resolves_witness: "resolves cspace_state demo_root 2 4 0xffff800000006040"
  using lookup_resolves [of 4 cspace_state demo_root 2 "0xffff800000006040"] demo_lookup [of 2] by simp

theorem lookup_no_panic_witness: "\<not> is_panic (lookup_entry_mut cspace_state demo_root 2 4)"
  by (rule lookup_no_panic) simp

lemma cspace_nodes_consume: "nodes_consume cspace_state"
  unfolding nodes_consume_def
proof (intro allI impI)
  fix a e
  assume "slot_at cspace_state a = Some e" "get_cap_type (ent_cap e) = Ok CNode"
  then have "ent_cap e = demo_root"
    by (auto simp: slot_at_def cspace_state_def split: option.splits if_splits)
  then show "radix (ent_cap e) \<noteq> 0" by simp
qed


theorem write_slot_lookup_witness:
  "\<exists>s'. write_slot demo_root demo_ep_cap 3 cspace_state = (Ok (), s')
     \<and> lookup_entry_mut_one_level s' demo_root 3 = Ok 0xffff800000006060
     \<and> slot_at s' 0xffff800000006060 = Some (new_with_rawcap demo_ep_cap)"
  using write_slot_lookup [of demo_root 3 cspace_state demo_ep_cap] by (simp add: slot_at_def) blast

theorem get_writable_Ok_witness: "get_writable demo_root 1 3 cspace_state = Ok 0xffff800000006060"
  using get_writable_Ok [of demo_root 1 3 cspace_state "0xffff800000006060"] by (simp add: slot_at_def)

lemma demo_new_slot: "img_new_slot demo_image = 0xffffffff80008000"
  by (simp add: demo_image_def)

theorem cnode_invocation_witness:
  "\<exists>s'. invoke_cnode demo_image demo_root demo_root CNodeMint demo_regs cspace_state = (Ok None, s')
    \<and> ks_cap s' 0xffff800000006060 = Some (demo_ep_cap\<lparr>cap_dep_val := 99\<rparr>)
    \<and> ks_cap s' 0xffff800000006040 = Some demo_ep_cap"
proof -
  have src: "lookup_entry cspace_state demo_root 2 4 = Ok (0xffff800000006040, demo_ep_cap)"
    by (simp add: lookup_entry_def demo_lookup slot_at_def ok_or_def)
  have d: "derive demo_ep_cap = Ok (demo_ep_cap\<lparr>cap_dep_val := 0\<rparr>)" by (simp add: derive_def)
  show ?thesis
    using cnode_invocation [of demo_root cspace_state demo_root demo_regs "0xffff800000006040" demo_ep_cap
        "0xffff800000006060" "demo_ep_cap\<lparr>cap_dep_val := 0\<rparr>" demo_image CNodeMint] src d demo_lookup [of 3]
    by (auto simp: set_cap_dep_val_def demo_new_slot)
qed

end
