(* ===== verification/Boot_Memory.thy ===== *)
theory Boot_Memory
  imports Page_Table Interfaces
begin

text \<open>
  Memory at boot: the page allocator of \<^verbatim>\<open>kernel/src/init/pm.rs\<close>, which takes pages
  from the start of the free memory and never gives them back, and the page table
  of the kernel, \<^verbatim>\<open>kernel/src/init/vm.rs\<close>, which maps all physical memory at one
  prefix and the kernel image at another.
\<close>

section \<open>The page allocator (init/pm.rs)\<close>

record BumpAllocator =
  ba_start_addr :: PhysAddr
  ba_end_addr :: PhysAddr

text \<open>
  \<open>ptr::write_bytes\<close> of zeros, on the \<open>n\<close> bytes at physical address \<open>a\<close>: bytes,
  page table entries and capability slots there become zero, and a zero slot is
  an empty one. The objects of the other kinds are written as a whole when they
  are created.
\<close>

definition zero_memory :: "PhysAddr \<Rightarrow> usize \<Rightarrow> kstate \<Rightarrow> kstate" where
  "zero_memory a n s =
     (let inside = (\<lambda>p. p - phys_to_kva a < n)
      in s\<lparr>ks_byte := (\<lambda>p. if inside p then 0 else ks_byte s p),
           ks_pte := (\<lambda>p. if inside p then 0 else ks_pte s p),
           ks_cap := (\<lambda>p. if inside p then None else ks_cap s p),
           ks_mdb := (\<lambda>p. if inside p then empty_mdb else ks_mdb s p)\<rparr>)"

definition bump_new :: "usize \<Rightarrow> usize \<Rightarrow> BumpAllocator kprog" where
  "bump_new free_ram_phys free_ram_end_phys =
     bind_st (lift_st (assert_run (free_ram_phys < free_ram_end_phys))) (\<lambda>_.
     bind_st (lift_st (sub_ck free_ram_end_phys free_ram_phys)) (\<lambda>n.
     bind_st (modify_st (zero_memory free_ram_phys n)) (\<lambda>_.
     pure_st \<lparr>ba_start_addr = free_ram_phys, ba_end_addr = free_ram_end_phys\<rparr>)))"

definition allocate_pages :: "usize \<Rightarrow> BumpAllocator \<Rightarrow> (PhysAddr \<times> BumpAllocator, 'e) run" where
  "allocate_pages page_num b =
     (let ret = ba_start_addr b
      in bind_run (mul_ck PAGE_SIZE page_num) (\<lambda>n.
         bind_run (addr_add (ba_start_addr b) n) (\<lambda>a.
         bind_run (assert_run (a \<le> ba_end_addr b)) (\<lambda>_.
         Ok (ret, b\<lparr>ba_start_addr := a\<rparr>)))))"

definition allocate_page :: "BumpAllocator \<Rightarrow> (PhysAddr \<times> BumpAllocator, 'e) run" where
  "allocate_page = allocate_pages 1"

definition end_allocation :: "BumpAllocator \<Rightarrow> PhysAddr \<times> PhysAddr" where
  "end_allocation b = (ba_start_addr b, ba_end_addr b)"

section \<open>Allocations are disjoint\<close>

lemma allocate_pages_Ok:
  "allocate_pages n b = Ok (a, b') \<longleftrightarrow>
     a = ba_start_addr b \<and> ba_end_addr b' = ba_end_addr b
     \<and> unat (ba_start_addr b') = unat a + 4096 * unat n \<and> unat (ba_start_addr b') \<le> unat (ba_end_addr b)"
  (is "?l \<longleftrightarrow> ?r")
proof
  assume ?l
  then show ?r
    by (auto simp: allocate_pages_def addr_add_def mul_ck_Ok add_ck_Ok PAGE_SIZE_def word_le_nat_alt)
next
  assume r: ?r
  then have "4096 * unat n < 2 ^ 64" using unat_less_exp [of "ba_start_addr b'"] by simp
  then have m: "unat (PAGE_SIZE * n) = 4096 * unat n" by (simp add: PAGE_SIZE_def unat_word_ariths)
  then have "mul_ck PAGE_SIZE n = (Ok (PAGE_SIZE * n) :: (usize, 'a) run)" by (simp add: mul_ck_Ok PAGE_SIZE_def)
  moreover have "addr_add (ba_start_addr b) (PAGE_SIZE * n) = (Ok (ba_start_addr b') :: (usize, 'a) run)"
    using r m by (simp add: addr_add_def add_ck_Ok)
  moreover have "ba_start_addr b' \<le> ba_end_addr b" using r by (auto simp: word_le_nat_alt)
  moreover have "b\<lparr>ba_start_addr := ba_start_addr b'\<rparr> = b'" using r by simp
  ultimately show ?l using r by (simp add: allocate_pages_def)
qed

lemma allocate_page_Ok:
  "allocate_page b = Ok (a, b') \<longleftrightarrow>
     a = ba_start_addr b \<and> ba_end_addr b' = ba_end_addr b
     \<and> unat (ba_start_addr b') = unat a + 4096 \<and> unat (ba_start_addr b') \<le> unat (ba_end_addr b)"
  by (simp add: allocate_page_def allocate_pages_Ok)

definition bump_ok :: "BumpAllocator \<Rightarrow> bool" where
  "bump_ok b \<longleftrightarrow> ba_start_addr b \<le> ba_end_addr b"

definition bump_step :: "usize \<Rightarrow> BumpAllocator \<Rightarrow> ((nat \<times> nat) \<times> BumpAllocator) option" where
  "bump_step n b =
     (case (allocate_pages n b :: (PhysAddr \<times> BumpAllocator, unit) run) of
        Ok (a, b') \<Rightarrow> Some ((unat a, 4096 * unat n), b')
      | _ \<Rightarrow> None)"

lemma bump_step_Some:
  "bump_step n b = Some ((a, k), b') \<longleftrightarrow> k = 4096 * unat n \<and> (\<exists>p. allocate_pages n b = (Ok (p, b') :: (_, unit) run) \<and> a = unat p)"
  by (auto simp: bump_step_def split: run.splits)

interpretation bump: region_alloc bump_step "\<lambda>b. unat (ba_start_addr b)" "\<lambda>b. unat (ba_end_addr b)" bump_ok
  by unfold_locales (auto simp: bump_step_Some allocate_pages_Ok bump_ok_def word_le_nat_alt)

section \<open>The page table of the kernel (init/vm.rs)\<close>

definition vm_flag :: "bool \<Rightarrow> usize" where
  "vm_flag leaf = (if leaf then 0xef else 1)"

text \<open>\<open>(a..b).step_by(step)\<close>.\<close>

definition step_by :: "usize \<Rightarrow> usize \<Rightarrow> usize \<Rightarrow> usize list" where
  "step_by a b step =
     map (\<lambda>k. a + of_nat k * step) [0..<(unat b - unat a + unat step - 1) div unat step]"

definition map_physical :: "Image \<Rightarrow> usize \<Rightarrow> kstate \<Rightarrow> kstate" where
  "map_physical im phyisical_end =
     fold (\<lambda>paddr. set_pte (pte_slot (img_vm_root im) (phys_to_kva paddr) 3) (pte_write paddr (vm_flag True)))
       (step_by 0 phyisical_end (2 ^ 39))"

definition map_image :: "Image \<Rightarrow> usize \<Rightarrow> kstate \<Rightarrow> kstate" where
  "map_image im elf_v_start =
     fold (\<lambda>vaddr. set_pte (pte_slot (img_lv2table im) vaddr 2) (pte_write (addr_bit_and vaddr (NOT KERNEL_CODE_PFX)) (vm_flag True)))
       (step_by elf_v_start (img_data_end im) (2 ^ 30))"

definition kernel_vm_init :: "Image \<Rightarrow> usize \<Rightarrow> unit kprog" where
  "kernel_vm_init im free_ram_end_phys =
     (let kerenel_txt = img_text im
      in bind_st (modify_st (map_physical im free_ram_end_phys)) (\<lambda>_.
         bind_st (modify_st (set_pte (pte_slot (img_vm_root im) kerenel_txt 3)
           (pte_write (addr_bit_and (img_lv2table im) (NOT KERNEL_CODE_PFX)) (vm_flag False)))) (\<lambda>_.
         bind_st (lift_st (align_down kerenel_txt (2 ^ 30))) (\<lambda>elf_v_start.
         bind_st (modify_st (map_image im elf_v_start)) (\<lambda>_.
         modify_st (activate_kernel_table im))))))"

section \<open>What the hardware sees\<close>

text \<open>
  The translation of the hardware, with leaves at every level. A table is found by
  its physical address; \<open>tbl\<close> gives the name under which the model holds it.
\<close>

definition canonical :: "VirtAddr \<Rightarrow> bool" where
  "canonical v \<longleftrightarrow> drop_bit 47 v = 0 \<or> drop_bit 47 v = mask 17"

fun hw_from :: "kstate \<Rightarrow> (PhysAddr \<Rightarrow> usize) \<Rightarrow> usize \<Rightarrow> VirtAddr \<Rightarrow> nat \<Rightarrow> PhysAddr option" where
  "hw_from s tbl table v l =
     (let w = ks_pte s (pte_slot table v l);
          a = pte_get_address w
      in if \<not> pte_is_valid w then None
         else if w AND (PAGE_R OR PAGE_W OR PAGE_X) \<noteq> 0
         then (if take_bit (12 + 9 * l) a = 0 then Some (a OR take_bit (12 + 9 * l) v) else None)
         else (case l of 0 \<Rightarrow> None | Suc k \<Rightarrow> hw_from s tbl (tbl a) v k))"

declare hw_from.simps [simp del]

definition hw_translate :: "kstate \<Rightarrow> (PhysAddr \<Rightarrow> usize) \<Rightarrow> usize \<Rightarrow> VirtAddr \<Rightarrow> PhysAddr option" where
  "hw_translate s tbl root v = (if canonical v then hw_from s tbl root v 3 else None)"

definition kernel_tables :: "Image \<Rightarrow> PhysAddr \<Rightarrow> usize" where
  "kernel_tables im p =
     (if p = addr_bit_and (img_lv2table im) (NOT KERNEL_CODE_PFX) then img_lv2table im else phys_to_kva p)"

lemma hw_from_leaf:
  assumes "ks_pte s (pte_slot table v l) = pte_write p (vm_flag True)" and "unat p < 2 ^ 56"
    and "take_bit (12 + 9 * l) p = 0"
  shows "hw_from s tbl table v l = Some (p OR take_bit (12 + 9 * l) v)"
proof -
  have f: "take_bit 10 (vm_flag True) = vm_flag True" by (simp add: vm_flag_def)
  have "take_bit 12 p = take_bit 12 (take_bit (12 + 9 * l) p)" by simp
  then have "take_bit 12 p = 0" using assms(3) by simp
  then have "pte_get_address (pte_write p (vm_flag True)) = p" using pte_get_address_write [OF assms(2) _ f] by simp
  moreover have "pte_is_valid (pte_write p (vm_flag True))"
    by (simp add: pte_is_valid_bit pte_write_def bit_simps vm_flag_def)
  moreover have "bit (pte_write p (vm_flag True) AND (PAGE_R OR PAGE_W OR PAGE_X)) 1"
    by (simp add: pte_write_def PAGE_R_def PAGE_W_def PAGE_X_def bit_simps vm_flag_def)
  ultimately show ?thesis using assms(1,3) by (subst hw_from.simps) (auto simp: Let_def)
qed

lemma hw_from_link:
  assumes "ks_pte s (pte_slot table v (Suc l)) = pte_write p (vm_flag False)" and "unat p < 2 ^ 56"
    and "take_bit 12 p = 0"
  shows "hw_from s tbl table v (Suc l) = hw_from s tbl (tbl p) v l"
proof -
  have f: "take_bit 10 (vm_flag False) = vm_flag False" by (simp add: vm_flag_def)
  have "pte_get_address (pte_write p (vm_flag False)) = p" using pte_get_address_write [OF assms(2,3) f] .
  moreover have "pte_is_valid (pte_write p (vm_flag False))"
    by (simp add: pte_is_valid_bit pte_write_def bit_simps vm_flag_def)
  moreover have "pte_write p (vm_flag False) AND (PAGE_R OR PAGE_W OR PAGE_X) = 0"
  proof -
    let ?w = "pte_write p (vm_flag False)"
    have "take_bit 10 ?w = 1"
      by (rule bit_word_eqI) (auto simp: pte_write_def bit_simps vm_flag_def bit_1_iff)
    moreover have "?w AND 14 = take_bit 10 ?w AND 14"
      by (simp add: take_bit_eq_mask and.assoc mask_eq_exp_minus_1)
    ultimately show ?thesis by (simp add: PAGE_R_def PAGE_W_def PAGE_X_def)
  qed
  ultimately show ?thesis using assms(1) by (subst hw_from.simps) (auto simp: Let_def)
qed

section \<open>The maps of the kernel\<close>

lemma ks_pte_fold_other:
  "a \<notin> f ` set xs \<Longrightarrow> ks_pte (fold (\<lambda>x. set_pte (f x) (g x)) xs s) a = ks_pte s a"
  by (induction xs arbitrary: s) auto

lemma ks_pte_fold_set:
  assumes "x \<in> set xs" and "inj_on f (set xs)"
  shows "ks_pte (fold (\<lambda>x. set_pte (f x) (g x)) xs s) (f x) = g x"
  using assms
proof (induction xs arbitrary: s)
  case Nil
  then show ?case by simp
next
  case (Cons y ys)
  show ?case
  proof (cases "x \<in> set ys")
    case True
    then show ?thesis using Cons by simp
  next
    case False
    then have "x = y" "f x \<notin> f ` set ys" using Cons.prems by (auto simp: inj_on_def)
    then show ?thesis by (simp add: ks_pte_fold_other)
  qed
qed

lemma step_by_mem:
  assumes "k * unat step < unat b - unat a" and "step \<noteq> 0"
  shows "a + of_nat k * step \<in> set (step_by a b step)"
proof -
  have s: "0 < unat step" using assms(2) by (simp add: unat_gt_0)
  have "(Suc k * unat step) div unat step \<le> (unat b - unat a + unat step - 1) div unat step"
    by (rule div_le_mono) (use assms(1) s in simp)
  then have "k < (unat b - unat a + unat step - 1) div unat step" using s by simp
  then show ?thesis by (auto simp: step_by_def)
qed

lemma step_by_bound:
  assumes "x \<in> set (step_by a b step)" and "step \<noteq> 0"
  obtains k where "x = a + of_nat k * step" and "k * unat step < unat b - unat a"
proof -
  have s: "0 < unat step" using assms(2) by (simp add: unat_gt_0)
  obtain k where k: "x = a + of_nat k * step" "k < (unat b - unat a + unat step - 1) div unat step"
    using assms(1) by (auto simp: step_by_def)
  have "Suc k * unat step \<le> (unat b - unat a + unat step - 1) div unat step * unat step"
    by (rule mult_le_mono1) (use k(2) in simp)
  also have "\<dots> \<le> unat b - unat a + unat step - 1" by simp
  finally have "k * unat step < unat b - unat a" using s by simp
  with k(1) show thesis by (rule that)
qed

lemma pte_slot_eq: "pte_slot t v l = pte_slot t u l \<longleftrightarrow> get_vpn v l = get_vpn u l"
proof
  assume "pte_slot t v l = pte_slot t u l"
  then have "unat (pte_slot t v l - t) = unat (pte_slot t u l - t)" by simp
  then show "get_vpn v l = get_vpn u l" by (simp add: pte_slot_offset word_unat_eq_iff)
qed (simp add: pte_slot_def)

lemma page_aligned_mod: "take_bit 12 (t :: usize) = 0 \<Longrightarrow> unat t mod 4096 = 0"
  using and_mask_unat [of t 12] by (simp add: take_bit_eq_mask)

lemma page_offset:
  assumes "take_bit 12 (t :: usize) = 0" and "unat x < 4096"
  shows "unat (t + x) div 4096 = unat t div 4096"
proof -
  obtain q where q: "unat t = 4096 * q" using page_aligned_mod [OF assms(1)] by (metis mod_eq_0_iff_dvd dvdE)
  have "unat t < 2 ^ 64" using unat_less_exp [of t] by simp
  then have "unat t + unat x < 2 ^ 64" using q assms(2) by simp
  then have "unat (t + x) = 4096 * q + unat x" using q by (simp add: unat_word_ariths)
  then show ?thesis using q assms(2) by simp
qed

lemma pte_slot_apart:
  assumes "take_bit 12 t = 0" and "take_bit 12 t' = 0" and "t \<noteq> t'"
  shows "pte_slot t v l \<noteq> pte_slot t' u m"
proof
  assume eq: "pte_slot t v l = pte_slot t' u m"
  have "unat (8 * get_vpn v l) < 4096" for v l
    using pte_slot_offset [of t v l] get_vpn_less [of v l] by (simp add: pte_slot_def)
  then have "unat t div 4096 = unat t' div 4096"
    using eq page_offset [OF assms(1)] page_offset [OF assms(2)] by (metis pte_slot_def)
  moreover have "unat w = 4096 * (unat w div 4096)" if "take_bit 12 w = 0" for w :: usize
    using page_aligned_mod [OF that] by auto
  ultimately show False using assms by (metis word_unat_eq_iff)
qed

lemma vpn3_kva:
  assumes "unat p < 2 ^ 47"
  shows "unat (get_vpn (phys_to_kva p) 3) = 256 + unat p div 2 ^ 39"
proof -
  have p47: "\<not> bit p n" if "47 \<le> n" for n
    using phys_below_take_bit [OF assms] that by (metis bit_take_bit_iff linorder_not_less)
  have "bit ((2 :: int) ^ 8) n \<longleftrightarrow> n = 8" for n by (subst bit_exp_iff) auto
  then have b: "bit (0x100 :: int) n \<longleftrightarrow> n = 8" for n by simp
  have "get_vpn (phys_to_kva p) 3 = drop_bit 39 p OR 0x100"
    unfolding get_vpn_take_bit phys_to_kva_def KERNEL_V_ADDR_PFX_alt
    by (rule bit_word_eqI) (auto simp: bit_simps b p47 dest: p47)
  moreover have "drop_bit 39 p AND 0x100 = 0"
    by (rule bit_word_eqI) (auto simp: bit_simps b p47)
  ultimately have "unat (get_vpn (phys_to_kva p) 3) = unat (drop_bit 39 p) + 256"
    by (simp add: or_disjoint_unat)
  moreover have "unat (drop_bit 39 p) = unat p div 2 ^ 39"
    by (simp only: unat_drop_bit_eq) (simp only: drop_bit_eq_div)
  ultimately show ?thesis by simp
qed

text \<open>
  The entries that the initialisation leaves: a leaf for every 512 gigabytes of
  physical memory, and the link to the second table at the index of the image.
\<close>

definition boot_layout :: "Image \<Rightarrow> usize \<Rightarrow> bool" where
  "boot_layout im free_ram_end \<longleftrightarrow>
     unat free_ram_end \<le> 255 * 2 ^ 39
     \<and> drop_bit 32 (img_text im) = mask 32 \<and> drop_bit 32 (img_data_end im) = mask 32
     \<and> take_bit 12 (img_vm_root im) = 0 \<and> take_bit 12 (img_lv2table im) = 0
     \<and> img_vm_root im \<noteq> img_lv2table im"

lemma phys_entry:
  assumes "unat p < unat free_ram_end" and "boot_layout im free_ram_end"
  shows "ks_pte (map_physical im free_ram_end s) (pte_slot (img_vm_root im) (phys_to_kva p) 3)
    = pte_write (p AND NOT (mask 39)) (vm_flag True)"
proof -
  let ?f = "\<lambda>q. pte_slot (img_vm_root im) (phys_to_kva q) 3"
  let ?xs = "step_by 0 free_ram_end (2 ^ 39)"
  have fr: "unat free_ram_end \<le> 255 * 2 ^ 39" using assms(2) by (simp add: boot_layout_def)
  have el: "\<exists>k. q = of_nat k * 2 ^ 39 \<and> k < 255" if q: "q \<in> set ?xs" for q
  proof -
    obtain k where k: "q = 0 + of_nat k * 2 ^ 39" "k * unat ((2 :: usize) ^ 39) < unat free_ram_end - unat (0 :: usize)"
      by (rule step_by_bound [OF q]) simp_all
    then have "k * 2 ^ 39 < 255 * 2 ^ 39" using fr by simp
    then show ?thesis using k(1) by auto
  qed
  have uk: "unat (of_nat k * 2 ^ 39 :: usize) = k * 2 ^ 39" if "k < 255" for k
    using that by (simp add: unat_word_ariths unat_of_nat take_bit_nat_eq_self)
  have inj: "inj_on ?f (set ?xs)"
  proof (rule inj_onI)
    fix q r
    assume "q \<in> set ?xs" "r \<in> set ?xs" and eq: "?f q = ?f r"
    then obtain k j where k: "q = of_nat k * 2 ^ 39" "k < 255" "r = of_nat j * 2 ^ 39" "j < 255"
      using el by meson
    then have "unat q < 2 ^ 47" "unat r < 2 ^ 47" using uk by simp_all
    then have "unat q div 2 ^ 39 = unat r div 2 ^ 39"
      using vpn3_kva [of q] vpn3_kva [of r] eq [unfolded pte_slot_eq] by simp
    then show "q = r" using k uk by simp
  qed
  let ?q = "p AND NOT (mask 39)"
  have q: "unat ?q = unat p div 2 ^ 39 * 2 ^ 39" by (simp only: and_not_mask_unat minus_mod_eq_div_mult)
  then have q': "?q = of_nat (unat p div 2 ^ 39) * 2 ^ 39"
    using uk [of "unat p div 2 ^ 39"] assms(1) fr by (simp add: word_unat_eq_iff)
  have "?q \<in> set ?xs"
    unfolding q' using step_by_mem [of "unat p div 2 ^ 39" "2 ^ 39" free_ram_end 0] assms(1) q
    by simp
  have "unat p < 2 ^ 47" "unat ?q < 2 ^ 47" using assms(1) fr q by simp_all
  then have "?f p = ?f ?q"
    unfolding pte_slot_eq by (simp add: word_unat_eq_iff vpn3_kva q)
  with ks_pte_fold_set [OF \<open>?q \<in> set ?xs\<close> inj] show ?thesis by (simp add: map_physical_def)
qed


lemma unat_get_vpn: "unat (get_vpn v i) = unat v div 2 ^ (12 + i * 9) mod 512"
proof -
  have "unat (get_vpn v i) = unat (drop_bit (12 + i * 9) v) mod 2 ^ 9"
    unfolding get_vpn_take_bit take_bit_eq_mask by (rule and_mask_unat)
  also have "unat (drop_bit (12 + i * 9) v) = unat v div 2 ^ (12 + i * 9)"
    by (simp only: unat_drop_bit_eq) (simp only: drop_bit_eq_div)
  finally show ?thesis by simp
qed

lemma high_iff: "drop_bit 32 (w :: usize) = mask 32 \<longleftrightarrow> 0xffffffff00000000 \<le> unat w"
proof -
  have "drop_bit 32 w = mask 32 \<longleftrightarrow> unat w div 2 ^ 32 = 2 ^ 32 - 1"
    by (simp only: word_unat_eq_iff unat_drop_bit_eq) (simp add: drop_bit_eq_div mask_eq_exp_minus_1)
  also have "\<dots> \<longleftrightarrow> 0xffffffff00000000 \<le> unat w"
    using unat_less_exp [of w] by auto
  finally show ?thesis .
qed

lemma high_vpn2:
  assumes "0xffffffff00000000 \<le> unat w"
  shows "unat (get_vpn w 2) + 0x3fffffe00 = unat w div 2 ^ 30"
proof -
  have "unat w < 2 ^ 64" using unat_less_exp [of w] by simp
  then obtain r where r: "unat w div 2 ^ 30 = 512 * 0x1ffffff + r" "r < 512"
    using assms that [of "unat w div 2 ^ 30 - 512 * 0x1ffffff"] by fastforce
  have "unat (get_vpn w 2) = unat w div 2 ^ 30 mod 512" using unat_get_vpn [of w 2] by simp
  also have "\<dots> = r" unfolding r(1) using r(2) by (simp only: mod_mult_self4 mod_less)
  finally show ?thesis using r(1) by simp
qed

lemma image_entry:
  assumes "boot_layout im free_ram_end" and "align_down (img_text im) (2 ^ 30) = (Ok st :: usize kres)"
    and "st \<le> v" and "v < img_data_end im"
  shows "ks_pte (map_image im st s) (pte_slot (img_lv2table im) v 2)
    = pte_write ((v AND NOT (mask 30)) AND NOT KERNEL_CODE_PFX) (vm_flag True)"
proof -
  let ?f = "\<lambda>q. pte_slot (img_lv2table im) q 2"
  let ?xs = "step_by st (img_data_end im) (2 ^ 30)"
  let ?d = "unat (img_data_end im)"
  have "NOT (mask 30 :: usize) = - 0x40000000" by (simp add: mask_eq_exp_minus_1)
  then have "st = img_text im AND NOT (mask 30)"
    using assms(2) by (auto simp: align_down_def sub_ck_def split: if_splits)
  then have st: "unat st = unat (img_text im) div 2 ^ 30 * 2 ^ 30"
    by (simp only: and_not_mask_unat minus_mod_eq_div_mult)
  have "0xffffffff00000000 \<le> unat (img_text im)" using assms(1) by (simp add: boot_layout_def high_iff)
  then have hi: "0xffffffff00000000 \<le> unat st" unfolding st by simp
  have d: "?d < 2 ^ 64" using unat_less_exp [of "img_data_end im"] by simp
  have uk: "unat (st + of_nat k * 2 ^ 30) = unat st + k * 2 ^ 30" if "k * 2 ^ 30 < ?d - unat st" for k
  proof -
    have "unat st + k * 2 ^ 30 < 2 ^ 64" using that d by simp
    moreover from this have "unat (of_nat k * 2 ^ 30 :: usize) = k * 2 ^ 30"
      by (simp add: unat_word_ariths unat_of_nat take_bit_nat_eq_self)
    ultimately show ?thesis by (simp add: unat_word_ariths)
  qed
  have el: "\<exists>k. unat q = unat st + k * 2 ^ 30" if q: "q \<in> set ?xs" for q
  proof -
    obtain k where k: "q = st + of_nat k * 2 ^ 30" "k * unat ((2 :: usize) ^ 30) < ?d - unat st"
      by (rule step_by_bound [OF q]) simp_all
    then show ?thesis using uk [of k] by auto
  qed
  have vpn: "unat (get_vpn q 2) + 0x3fffffe00 = unat q div 2 ^ 30" if "unat st \<le> unat q" for q
    by (rule high_vpn2) (use that hi in linarith)
  have inj: "inj_on ?f (set ?xs)"
  proof (rule inj_onI)
    fix q r
    assume "q \<in> set ?xs" "r \<in> set ?xs" and eq: "?f q = ?f r"
    then obtain k j where k: "unat q = unat st + k * 2 ^ 30" "unat r = unat st + j * 2 ^ 30"
      using el by meson
    then have "unat q div 2 ^ 30 = unat r div 2 ^ 30"
      using vpn [of q] vpn [of r] eq [unfolded pte_slot_eq] by simp
    then have "k = j" using k by (simp add: st)
    then show "q = r" using k by (simp add: word_unat_eq_iff)
  qed
  let ?q = "v AND NOT (mask 30)"
  have q: "unat ?q = unat v div 2 ^ 30 * 2 ^ 30" by (simp only: and_not_mask_unat minus_mod_eq_div_mult)
  let ?k = "unat v div 2 ^ 30 - unat (img_text im) div 2 ^ 30"
  have le: "unat (img_text im) div 2 ^ 30 \<le> unat v div 2 ^ 30"
    using div_le_mono [of "unat st" "unat v" "2 ^ 30"] assms(3) by (simp add: st word_le_nat_alt)
  have qk: "unat ?q = unat st + ?k * 2 ^ 30" using le q st by (simp add: diff_mult_distrib)
  have lt: "?k * 2 ^ 30 < ?d - unat st"
  proof -
    have "unat st + ?k * 2 ^ 30 \<le> unat v"
      unfolding qk [symmetric] q by (rule div_times_less_eq_dividend)
    also have "\<dots> < ?d" using assms(4) by (simp add: word_less_nat_alt)
    finally show ?thesis by linarith
  qed
  then have "?q = st + of_nat ?k * 2 ^ 30" using uk [OF lt] qk by (simp add: word_unat_eq_iff)
  then have mem: "?q \<in> set ?xs" using step_by_mem [of ?k "2 ^ 30" "img_data_end im" st] lt by simp
  have "unat st \<le> unat ?q" "unat st \<le> unat v" using qk assms(3) by (simp_all add: word_le_nat_alt)
  then have "get_vpn v 2 = get_vpn ?q 2" using vpn [of v] vpn [of ?q] q by (simp add: word_unat_eq_iff)
  then have "?f v = ?f ?q" by (simp only: pte_slot_eq)
  with ks_pte_fold_set [OF mem inj] show ?thesis by (simp add: map_image_def addr_bit_and_def)
qed

lemma kernel_vm_init_Ok:
  assumes "align_down (img_text im) (2 ^ 30) = (Ok st :: usize kres)"
  shows "kernel_vm_init im e s = (Ok (),
     activate_kernel_table im (map_image im st (set_pte (pte_slot (img_vm_root im) (img_text im) 3)
       (pte_write (addr_bit_and (img_lv2table im) (NOT KERNEL_CODE_PFX)) (vm_flag False)) (map_physical im e s))))"
  using assms by (simp add: kernel_vm_init_def)

lemma map_image_root:
  assumes "boot_layout im e"
  shows "ks_pte (map_image im st s) (pte_slot (img_vm_root im) v 3) = ks_pte s (pte_slot (img_vm_root im) v 3)"
  unfolding map_image_def using assms pte_slot_apart
  by (subst ks_pte_fold_other) (auto simp: boot_layout_def)

lemma vpn3_image: "0xffffffff00000000 \<le> unat v \<Longrightarrow> unat (get_vpn v 3) = 511"
proof -
  assume "0xffffffff00000000 \<le> unat v"
  moreover have "unat v < 2 ^ 64" using unat_less_exp [of v] by simp
  ultimately have "unat v div 2 ^ 39 = 2 ^ 25 - 1" by auto
  then show ?thesis using unat_get_vpn [of v 3] by simp
qed

lemma align_down_total: "align_down v (2 ^ 30) = (Ok (v AND NOT (mask 30)) :: (usize, 'e) run)"
proof -
  have "NOT (mask 30 :: usize) = - 0x40000000" by (simp add: mask_eq_exp_minus_1)
  then show ?thesis by (simp add: align_down_def sub_ck_def)
qed

lemma kernel_maps_memory:
  assumes "boot_layout im e" and "unat p < unat e" and "kernel_vm_init im e s = (r, s')"
  shows "hw_translate s' (kernel_tables im) (img_vm_root im) (phys_to_kva p) = Some p"
proof -
  let ?st = "img_text im AND NOT (mask 30)"
  let ?v = "phys_to_kva p"
  have e: "unat e \<le> 255 * 2 ^ 39" and tx: "0xffffffff00000000 \<le> unat (img_text im)"
    using assms(1) by (simp_all add: boot_layout_def high_iff)
  have p: "unat p < 2 ^ 47" using assms(2) e by simp
  have "unat p div 2 ^ 39 < 255" using assms(2) e by (simp add: div_less_iff_less_mult)
  then have "get_vpn ?v 3 \<noteq> get_vpn (img_text im) 3"
    using vpn3_kva [OF p] vpn3_image [OF tx] by auto
  then have "pte_slot (img_vm_root im) ?v 3 \<noteq> pte_slot (img_vm_root im) (img_text im) 3" by (simp add: pte_slot_eq)
  then have "ks_pte s' (pte_slot (img_vm_root im) ?v 3) = pte_write (p AND NOT (mask 39)) (vm_flag True)"
    using kernel_vm_init_Ok [OF align_down_total, of im e s] assms(3) phys_entry [OF assms(2,1)]
    by (auto simp: activate_kernel_table_def map_image_root [OF assms(1)])
  moreover have "take_bit (12 + 9 * 3) (p AND NOT (mask 39)) = 0"
    by (rule bit_word_eqI) (auto simp: bit_simps)
  moreover have "unat (p AND NOT (mask 39)) < 2 ^ 56" using p by (simp add: and_not_mask_unat)
  ultimately have "hw_from s' (kernel_tables im) (img_vm_root im) ?v 3
      = Some ((p AND NOT (mask 39)) OR take_bit (12 + 9 * 3) ?v)"
    by (intro hw_from_leaf)
  moreover have "(p AND NOT (mask 39)) OR take_bit (12 + 9 * 3) ?v = p"
    unfolding phys_to_kva_def KERNEL_V_ADDR_PFX_alt by (rule bit_word_eqI) (auto simp: bit_simps)
  moreover have "canonical ?v"
    unfolding canonical_def phys_to_kva_def KERNEL_V_ADDR_PFX_alt
    by (rule disjI2, rule bit_word_eqI) (auto simp: bit_simps dest: bit_imp_le_length)
  ultimately show ?thesis by (simp add: hw_translate_def)
qed

lemma kernel_maps_image:
  assumes "boot_layout im e" and "img_text im \<le> v" and "v < img_data_end im"
    and "kernel_vm_init im e s = (r, s')"
  shows "hw_translate s' (kernel_tables im) (img_vm_root im) v = Some (v AND NOT KERNEL_CODE_PFX)"
proof -
  let ?st = "img_text im AND NOT (mask 30)"
  let ?lv2 = "img_lv2table im AND NOT KERNEL_CODE_PFX"
  have tx: "0xffffffff00000000 \<le> unat (img_text im)" using assms(1) by (simp add: boot_layout_def high_iff)
  then have hv: "0xffffffff00000000 \<le> unat v" using assms(2) by (simp add: word_le_nat_alt)
  have "get_vpn v 3 = get_vpn (img_text im) 3" using vpn3_image [OF hv] vpn3_image [OF tx] by (simp add: word_unat_eq_iff)
  then have same: "pte_slot (img_vm_root im) v 3 = pte_slot (img_vm_root im) (img_text im) 3" by (simp add: pte_slot_eq)
  have s': "s' = activate_kernel_table im (map_image im ?st (set_pte (pte_slot (img_vm_root im) (img_text im) 3)
       (pte_write (addr_bit_and (img_lv2table im) (NOT KERNEL_CODE_PFX)) (vm_flag False)) (map_physical im e s)))"
    using kernel_vm_init_Ok [OF align_down_total, of im e s] assms(4) by simp
  have "?st \<le> img_text im" by (rule word_and_le2)
  then have st: "?st \<le> v" using assms(2) by simp
  have s3: "Suc 2 = (3 :: nat)" by simp
  have k: "NOT KERNEL_CODE_PFX = mask 32" by (simp add: KERNEL_CODE_PFX_def mask_eq_exp_minus_1)
  have "hw_from s' (kernel_tables im) (img_vm_root im) v (Suc 2) = hw_from s' (kernel_tables im) (kernel_tables im ?lv2) v 2"
  proof (rule hw_from_link)
    show "ks_pte s' (pte_slot (img_vm_root im) v (Suc 2)) = pte_write ?lv2 (vm_flag False)"
      unfolding s3 same by (simp add: s' activate_kernel_table_def map_image_root [OF assms(1)] addr_bit_and_def)
    show "unat ?lv2 < 2 ^ 56" unfolding k and_mask_unat by (rule less_trans [of _ "2 ^ 32"]) simp_all
    have "take_bit 12 ?lv2 = take_bit 12 (img_lv2table im)"
      unfolding k by (rule bit_word_eqI) (auto simp: bit_simps)
    then show "take_bit 12 ?lv2 = 0" using assms(1) by (simp add: boot_layout_def)
  qed
  also have "\<dots> = Some (((v AND NOT (mask 30)) AND NOT KERNEL_CODE_PFX) OR take_bit (12 + 9 * 2) v)"
  proof (rule hw_from_leaf)
    show "ks_pte s' (pte_slot (kernel_tables im ?lv2) v 2) = pte_write ((v AND NOT (mask 30)) AND NOT KERNEL_CODE_PFX) (vm_flag True)"
      using image_entry [OF assms(1) align_down_total st assms(3)]
      by (simp add: s' activate_kernel_table_def kernel_tables_def addr_bit_and_def)
    show "unat ((v AND NOT (mask 30)) AND NOT KERNEL_CODE_PFX) < 2 ^ 56"
      unfolding k and_mask_unat by (rule less_trans [of _ "2 ^ 32"]) simp_all
    show "take_bit (12 + 9 * 2) ((v AND NOT (mask 30)) AND NOT KERNEL_CODE_PFX) = 0"
      unfolding k by (rule bit_word_eqI) (auto simp: bit_simps)
  qed
  also have "((v AND NOT (mask 30)) AND NOT KERNEL_CODE_PFX) OR take_bit (12 + 9 * 2) v = v AND NOT KERNEL_CODE_PFX"
    unfolding k by (rule bit_word_eqI) (auto simp: bit_simps)
  finally have w: "hw_from s' (kernel_tables im) (img_vm_root im) v 3 = Some (v AND NOT KERNEL_CODE_PFX)"
    unfolding s3 .
  have "unat (drop_bit 47 v) = 2 ^ 17 - 1"
    using hv unat_less_exp [of v] by (simp only: unat_drop_bit_eq) (simp only: drop_bit_eq_div, auto)
  then have "canonical v" by (simp add: canonical_def word_unat_eq_iff mask_eq_exp_minus_1)
  with w show ?thesis by (simp add: hw_translate_def)
qed

text \<open>
  C32: Setting up the page table of the kernel succeeds, and afterwards the hardware translates
  the kernel address of every byte of physical memory to that byte and every address of the
  image of the kernel to where it was loaded.
\<close>

theorem kernel_vm_init_maps:
  assumes "boot_layout im e"
  shows "\<exists>s'. kernel_vm_init im e s = (Ok (), s')
    \<and> (\<forall>p. unat p < unat e \<longrightarrow> hw_translate s' (kernel_tables im) (img_vm_root im) (phys_to_kva p) = Some p)
    \<and> (\<forall>v. img_text im \<le> v \<and> v < img_data_end im \<longrightarrow>
         hw_translate s' (kernel_tables im) (img_vm_root im) v = Some (v AND NOT KERNEL_CODE_PFX))"
  using kernel_vm_init_Ok [OF align_down_total, of im e s] kernel_maps_memory [OF assms] kernel_maps_image [OF assms] by blast

end
