(* ===== verification/Boot.thy ===== *)
theory Boot
  imports Boot_Memory Elf Handler
begin

text \<open>
  The initialisation of the kernel: \<^verbatim>\<open>kernel/src/init.rs\<close> and
  \<^verbatim>\<open>kernel/src/init/root_server.rs\<close>. The kernel takes memory for the objects of the
  first user program from the page allocator, loads the program from the ELF image
  linked into the kernel, gives it capabilities to all that was made, and turns the
  rest of memory into untyped capabilities.
\<close>

section \<open>State\<close>

definition ROOT_TCB_IDX :: usize where "ROOT_TCB_IDX = 1"
definition ROOT_CNODE_IDX :: usize where "ROOT_CNODE_IDX = 2"
definition ROOT_VSPACE_IDX :: usize where "ROOT_VSPACE_IDX = 3"
definition ROOT_IPC_BUFFER :: usize where "ROOT_IPC_BUFFER = 4"
definition ROOT_BOOT_INFO_PAGE :: usize where "ROOT_BOOT_INFO_PAGE = 5"
definition ROOT_CNODE_ENTRY_NUM_BITS :: usize where "ROOT_CNODE_ENTRY_NUM_BITS = 18"

record RootServerMemory =
  rsm_cnode :: KernelVAddress
  rsm_vspace :: KernelVAddress
  rsm_tcb :: KernelVAddress
  rsm_ipc_buf :: KernelVAddress
  rsm_boot_frame :: KernelVAddress

record RootServerResourceManager =
  rm_bump_allocator :: BumpAllocator
  rm_cnode_satrt_idx :: usize
  rm_cnode_idx_max :: usize

text \<open>
  The functions of the boot stage share the kernel, the resource manager and the
  highest address mapped so far through mutable references; here they are one
  state. The boot information lies in a frame of its own.
\<close>

record boot =
  bt_kernel :: kstate
  bt_mgr :: RootServerResourceManager
  bt_max_vaddr :: VirtAddr
  bt_info :: BootInfo

type_synonym 'a bprog = "(boot, 'a, KernelError) prog"

definition in_kernel :: "'a kprog \<Rightarrow> 'a bprog" where
  "in_kernel m b = (case m (bt_kernel b) of (r, s) \<Rightarrow> (r, b\<lparr>bt_kernel := s\<rparr>))"

definition unwrap_st :: "('s, 'a, 'e) prog \<Rightarrow> ('s, 'a, 'e) prog" where
  "unwrap_st m s = (case m s of (r, t) \<Rightarrow> (unwrap_run r, t))"

text \<open>\<open>if let Ok(x) = m { .. } else { panic!(..) }\<close>.\<close>

definition or_panic :: "('s, 'a, 'e) prog \<Rightarrow> ('s, 'a, 'e) prog" where
  "or_panic m s = (case m s of (Err _, t) \<Rightarrow> (Panic ExplicitPanic, t) | r \<Rightarrow> r)"

section \<open>Objects of the root server\<close>

definition alloc_obj :: "Image \<Rightarrow> CapabilityType \<Rightarrow> usize \<Rightarrow> BumpAllocator \<Rightarrow> (KernelVAddress \<times> BumpAllocator) kres" where
  "alloc_obj im k user_size b =
     bind_run (get_object_size im k user_size) (\<lambda>sz.
     bind_run (align_up sz PAGE_SIZE) (\<lambda>n.
     bind_run (allocate_pages (n div PAGE_SIZE) b) (\<lambda>(a, b').
     Ok (phys_to_kva a, b'))))"

definition init_with_uninit :: "Image \<Rightarrow> BumpAllocator \<Rightarrow> (RootServerMemory \<times> BumpAllocator) kres" where
  "init_with_uninit im b0 =
     bind_run (alloc_obj im CNode ROOT_CNODE_ENTRY_NUM_BITS b0) (\<lambda>(cnode, b1).
     bind_run (alloc_obj im PageTable 0 b1) (\<lambda>(vs, b2).
     bind_run (alloc_obj im Tcb 0 b2) (\<lambda>(tcb, b3).
     bind_run (alloc_obj im Page 0 b3) (\<lambda>(ipc_buf, b4).
     bind_run (alloc_obj im Page 0 b4) (\<lambda>(boot_frame, b5).
     Ok (\<lparr>rsm_cnode = cnode, rsm_vspace = vs, rsm_tcb = tcb, rsm_ipc_buf = ipc_buf, rsm_boot_frame = boot_frame\<rparr>, b5))))))"

definition create_root_cnode :: "RootServerMemory \<Rightarrow> CapabilityData kprog" where
  "create_root_cnode mem =
     (let vaddr = rsm_cnode mem
      in bind_st (lift_st (create_cap_dep_val CNode vaddr ROOT_CNODE_ENTRY_NUM_BITS)) (\<lambda>cap_dep_val.
         let cap = cap_new CNode (kva_to_phys vaddr) cap_dep_val
         in bind_st (unwrap_st (write_slot (cap_replicate cap) (cap_replicate cap) ROOT_CNODE_IDX)) (\<lambda>_.
            pure_st cap)))"

section \<open>The resource manager\<close>

definition rm_new :: "BumpAllocator \<Rightarrow> usize \<Rightarrow> usize \<Rightarrow> RootServerResourceManager kres" where
  "rm_new b cnode_start_idx cnode_idx_max =
     bind_run (assert_run (cnode_start_idx < cnode_idx_max)) (\<lambda>_.
     Ok \<lparr>rm_bump_allocator = b, rm_cnode_satrt_idx = cnode_start_idx, rm_cnode_idx_max = cnode_idx_max\<rparr>)"

definition alloc_page :: "KernelVAddress bprog" where
  "alloc_page b =
     (case allocate_page (rm_bump_allocator (bt_mgr b)) of
        Ok (a, ba) \<Rightarrow> (Ok (phys_to_kva a), b\<lparr>bt_mgr := (bt_mgr b)\<lparr>rm_bump_allocator := ba\<rparr>\<rparr>)
      | Err e \<Rightarrow> (Err e, b)
      | Panic p \<Rightarrow> (Panic p, b)
      | Hang \<Rightarrow> (Hang, b))"

definition alloc_cnode_idx :: "usize bprog" where
  "alloc_cnode_idx =
     bind_st (gets_st (\<lambda>b. rm_cnode_satrt_idx (bt_mgr b))) (\<lambda>ret.
     bind_st (\<lambda>b. (assert_run (ret \<le> rm_cnode_idx_max (bt_mgr b)), b)) (\<lambda>_.
     bind_st (lift_st (add_ck ret 1)) (\<lambda>next.
     bind_st (modify_st (\<lambda>b. b\<lparr>bt_mgr := (bt_mgr b)\<lparr>rm_cnode_satrt_idx := next\<rparr>\<rparr>)) (\<lambda>_.
     pure_st ret))))"

record UntypedCapGenerator =
  ug_start_address :: KernelVAddress
  ug_end_address :: KernelVAddress
  ug_idx_start :: usize
  ug_idx_max :: usize

definition rm_finalize :: "RootServerResourceManager \<Rightarrow> UntypedCapGenerator" where
  "rm_finalize rm =
     (let (start_address, end_address) = end_allocation (rm_bump_allocator rm)
      in \<lparr>ug_start_address = phys_to_kva start_address, ug_end_address = phys_to_kva end_address,
          ug_idx_start = rm_cnode_satrt_idx rm, ug_idx_max = rm_cnode_idx_max rm\<rparr>)"

definition ug_next :: "UntypedCapGenerator \<Rightarrow> ((usize \<times> CapabilityData) \<times> UntypedCapGenerator) option kres" where
  "ug_next g =
     bind_run (addr_add (ug_start_address g) 4096) (\<lambda>x.
     if ug_end_address g \<le> x then Ok None
     else bind_run (assert_run (ug_idx_start g \<le> ug_idx_max g)) (\<lambda>_.
          bind_run (addr_sub (ug_end_address g) (ug_start_address g)) (\<lambda>sz.
          bind_run (cap_init Untyped (ug_start_address g) sz) (\<lambda>untyped_cap.
          bind_run (addr_add (ug_start_address g) (block_size untyped_cap)) (\<lambda>a.
          bind_run (add_ck (ug_idx_start g) 1) (\<lambda>i.
          Ok (Some ((ug_idx_start g, untyped_cap), g\<lparr>ug_start_address := a, ug_idx_start := i\<rparr>))))))))"

section \<open>Mapping\<close>

definition new_page_table :: "CapabilityData \<Rightarrow> CapabilityData \<Rightarrow> VirtAddr \<Rightarrow> nat bprog" where
  "new_page_table cnode_cap root_table_cap vaddr_n =
     bind_st alloc_page (\<lambda>p.
     bind_st (lift_st (cap_init PageTable p 0)) (\<lambda>page_table_cap.
     bind_st alloc_cnode_idx (\<lambda>idx.
     bind_st (unwrap_st (in_kernel (write_slot cnode_cap (cap_replicate page_table_cap) idx))) (\<lambda>_.
     bind_st (or_panic (in_kernel (page_table_cap_map page_table_cap root_table_cap vaddr_n))) (\<lambda>(level, _).
     pure_st level)))))"

definition mgr_left :: "boot \<Rightarrow> nat" where
  "mgr_left b = unat (ba_end_addr (rm_bump_allocator (bt_mgr b))) - unat (ba_start_addr (rm_bump_allocator (bt_mgr b)))"

lemma in_kernel_eq:
  "in_kernel m b = (r, b') \<longleftrightarrow> (\<exists>s. m (bt_kernel b) = (r, s) \<and> b' = b\<lparr>bt_kernel := s\<rparr>)"
  by (auto simp: in_kernel_def split: prod.splits)

lemma unwrap_st_Ok: "unwrap_st m s = (Ok x, t) \<longleftrightarrow> m s = (Ok x, t)"
  by (auto simp: unwrap_st_def split: prod.splits)

lemma or_panic_Ok: "or_panic m s = (Ok x, t) \<longleftrightarrow> m s = (Ok x, t)"
  by (auto simp: or_panic_def split: prod.splits run.splits)

lemma alloc_page_Ok:
  "alloc_page b = (Ok p, b') \<longleftrightarrow>
     (\<exists>a ba. allocate_page (rm_bump_allocator (bt_mgr b)) = (Ok (a, ba) :: (PhysAddr \<times> BumpAllocator) kres) \<and> p = phys_to_kva a
        \<and> b' = b\<lparr>bt_mgr := (bt_mgr b)\<lparr>rm_bump_allocator := ba\<rparr>\<rparr>)"
  by (auto simp: alloc_page_def split: run.splits)

lemma alloc_cnode_idx_Ok:
  "alloc_cnode_idx b = (Ok i, b') \<longleftrightarrow>
     i = rm_cnode_satrt_idx (bt_mgr b) \<and> i \<le> rm_cnode_idx_max (bt_mgr b)
     \<and> (\<exists>j. unat j = unat i + 1 \<and> b' = b\<lparr>bt_mgr := (bt_mgr b)\<lparr>rm_cnode_satrt_idx := j\<rparr>\<rparr>)"
  by (auto simp: alloc_cnode_idx_def bind_st_eq_Ok add_ck_Ok)

text \<open>One round: a page is taken, a slot is filled, and a table is linked in.\<close>

lemma new_page_table_Ok:
  assumes "new_page_table c r v b = (Ok level, b')"
  obtains a ba i j s1 cap' where
    "allocate_page (rm_bump_allocator (bt_mgr b)) = (Ok (a, ba) :: (PhysAddr \<times> BumpAllocator) kres)"
    "i = rm_cnode_satrt_idx (bt_mgr b)" "i \<le> rm_cnode_idx_max (bt_mgr b)" "unat j = unat i + 1"
    "write_slot c (cap_new PageTable (kva_to_phys (phys_to_kva a)) 0) i (bt_kernel b) = (Ok (), s1)"
    "page_table_cap_map (cap_new PageTable (kva_to_phys (phys_to_kva a)) 0) r v s1 = (Ok (level, cap'), bt_kernel b')"
    "b' = b\<lparr>bt_mgr := (bt_mgr b)\<lparr>rm_bump_allocator := ba, rm_cnode_satrt_idx := j\<rparr>, bt_kernel := bt_kernel b'\<rparr>"
  using assms
  by (auto simp: new_page_table_def bind_st_eq_Ok unwrap_st_Ok or_panic_Ok alloc_cnode_idx_Ok alloc_page_Ok in_kernel_eq
      cap_init_def)

lemma new_page_table_left:
  assumes "new_page_table c r v b = (Ok level, b')"
  shows "mgr_left b' < mgr_left b"
  using assms
proof (rule new_page_table_Ok)
  fix a ba i j s1 cap'
  assume "allocate_page (rm_bump_allocator (bt_mgr b)) = (Ok (a, ba) :: (PhysAddr \<times> BumpAllocator) kres)"
    and b': "b' = b\<lparr>bt_mgr := (bt_mgr b)\<lparr>rm_bump_allocator := ba, rm_cnode_satrt_idx := j\<rparr>, bt_kernel := bt_kernel b'\<rparr>"
  moreover have "rm_bump_allocator (bt_mgr b') = ba" by (subst b') simp
  ultimately show ?thesis by (auto simp: mgr_left_def allocate_page_Ok)
qed

function map_page_tables :: "CapabilityData \<Rightarrow> CapabilityData \<Rightarrow> VirtAddr \<Rightarrow> unit bprog" where
  "map_page_tables cnode_cap root_table_cap vaddr_n b =
     (case new_page_table cnode_cap root_table_cap vaddr_n b of
        (Ok level, b') \<Rightarrow> if level = 0 then (Ok (), b') else map_page_tables cnode_cap root_table_cap vaddr_n b'
      | (Err e, b') \<Rightarrow> (Err e, b')
      | (Panic p, b') \<Rightarrow> (Panic p, b')
      | (Hang, b') \<Rightarrow> (Hang, b'))"
  by pat_completeness auto
termination
  by (relation "measure (\<lambda>(_, _, _, b). mgr_left b)") (auto dest: new_page_table_left [OF sym])

declare map_page_tables.simps [simp del]

definition create_mapped_page_cap ::
  "CapabilityData \<Rightarrow> CapabilityData \<Rightarrow> KernelVAddress \<Rightarrow> VirtAddr \<Rightarrow> usize \<Rightarrow> CapabilityData bprog" where
  "create_mapped_page_cap cnode_cap root_table_cap paddr vaddr_n flags =
     bind_st (lift_st (cap_init Page paddr 0)) (\<lambda>page_cap b.
     case in_kernel (page_cap_map page_cap root_table_cap vaddr_n flags) b of
       (Err e, b') \<Rightarrow>
         if e_kind e = PageTableNotMappedYet
         then bind_st (map_page_tables cnode_cap root_table_cap vaddr_n) (\<lambda>_.
              unwrap_st (in_kernel (page_cap_map page_cap root_table_cap vaddr_n flags))) b'
         else (Panic ExplicitPanic, b')
     | r \<Rightarrow> r)"

definition boot_get_flags :: "u32 \<Rightarrow> usize" where
  "boot_get_flags flags =
     ((if is_executable flags then PAGE_X else 0) OR (if is_writable flags then PAGE_W else 0)
      OR (if is_readable flags then PAGE_R else 0))"

definition mapper_get_flags :: "u32 \<Rightarrow> usize" where
  "mapper_get_flags flag = boot_get_flags flag OR PAGE_U"

text \<open>\<open>ptr::copy\<close> of \<open>n\<close> bytes.\<close>

definition copy_bytes :: "usize \<Rightarrow> usize \<Rightarrow> usize \<Rightarrow> kstate \<Rightarrow> kstate" where
  "copy_bytes src dst n s =
     s\<lparr>ks_byte := (\<lambda>a. if a - dst < n then ks_byte s (src + (a - dst)) else ks_byte s a)\<rparr>"

text \<open>One round of the loop of \<open>map_program\<close>; it returns what is left of the file.\<close>

definition map_one_page ::
  "CapabilityData \<Rightarrow> CapabilityData \<Rightarrow> VirtAddr \<Rightarrow> usize \<Rightarrow> usize \<Rightarrow> nat \<Rightarrow> usize \<Rightarrow> usize bprog" where
  "map_one_page cnode_cap root_table_cap vaddr p_start_addr flags page_idx file_sz_rem =
     bind_st (lift_st (mul_ck PAGE_SIZE (of_nat page_idx))) (\<lambda>offset.
     bind_st (lift_st (addr_add vaddr offset)) (\<lambda>vaddr_n.
     bind_st (modify_st (\<lambda>b. if bt_max_vaddr b < vaddr_n then b\<lparr>bt_max_vaddr := vaddr_n\<rparr> else b)) (\<lambda>_.
     bind_st alloc_page (\<lambda>page_addr.
     bind_st (create_mapped_page_cap cnode_cap root_table_cap page_addr vaddr_n flags) (\<lambda>page_cap.
     bind_st alloc_cnode_idx (\<lambda>idx.
     bind_st (unwrap_st (in_kernel (write_slot cnode_cap page_cap idx))) (\<lambda>_.
     if file_sz_rem \<noteq> 0
     then bind_st (in_kernel (modify_st (copy_bytes (p_start_addr + offset) (phys_to_kva (get_address page_cap))
                    (min PAGE_SIZE file_sz_rem)))) (\<lambda>_.
          pure_st (saturating_sub file_sz_rem PAGE_SIZE))
     else pure_st file_sz_rem)))))))"

fun map_pages ::
  "CapabilityData \<Rightarrow> CapabilityData \<Rightarrow> VirtAddr \<Rightarrow> usize \<Rightarrow> usize \<Rightarrow> nat list \<Rightarrow> usize \<Rightarrow> unit bprog" where
  "map_pages cnode_cap root vaddr p_start_addr flags [] file_sz_rem = pure_st ()"
| "map_pages cnode_cap root vaddr p_start_addr flags (i # is) file_sz_rem =
     bind_st (map_one_page cnode_cap root vaddr p_start_addr flags i file_sz_rem) (\<lambda>rem.
     map_pages cnode_cap root vaddr p_start_addr flags is rem)"

definition boot_map_program :: "CapabilityData \<Rightarrow> CapabilityData \<Rightarrow> (usize, boot, KernelError) mapper" where
  "boot_map_program cnode_cap root_table_cap vaddr p_start_addr p_mem_size p_file_size flags =
     bind_st (lift_st (align_up p_mem_size PAGE_SIZE)) (\<lambda>n.
     map_pages cnode_cap root_table_cap vaddr p_start_addr flags [0..<unat (n div PAGE_SIZE)] p_file_size)"

section \<open>The first thread\<close>

text \<open>
  The new table is written as a whole and becomes a root. \<open>RootServerElfMapper::new\<close>
  starts with the highest address zero.
\<close>

definition create_address_space ::
  "Image \<Rightarrow> RootServerMemory \<Rightarrow> CapabilityData \<Rightarrow> usize \<Rightarrow> (CapabilityData \<times> VirtAddr) bprog" where
  "create_address_space im mem cnode_cap elf_header =
     bind_st (in_kernel (modify_st (zero_page_table (rsm_vspace mem)))) (\<lambda>_.
     bind_st (lift_st (cap_init PageTable (rsm_vspace mem) 0)) (\<lambda>cap0.
     bind_st (unwrap_st (in_kernel (make_as_root im cap0))) (\<lambda>cap.
     bind_st (unwrap_st (in_kernel (write_slot cnode_cap (cap_replicate cap) ROOT_VSPACE_IDX))) (\<lambda>_.
     bind_st (modify_st (\<lambda>b. b\<lparr>bt_max_vaddr := 0\<rparr>)) (\<lambda>_.
     bind_st (gets_st (\<lambda>b. ks_byte (bt_kernel b))) (\<lambda>m.
     bind_st (unwrap_st (map_self mapper_get_flags (boot_map_program cnode_cap cap) m elf_header)) (\<lambda>_.
     bind_st (gets_st bt_max_vaddr) (\<lambda>max_vaddr.
     pure_st (cap, max_vaddr)))))))))"

definition create_ipc_buf_frame ::
  "RootServerMemory \<Rightarrow> CapabilityData \<Rightarrow> CapabilityData \<Rightarrow> VirtAddr \<Rightarrow> CapabilityData bprog" where
  "create_ipc_buf_frame mem cnode_cap vspace_cap max_vaddr =
     bind_st (lift_st (addr_add max_vaddr PAGE_SIZE)) (\<lambda>v.
     bind_st (create_mapped_page_cap cnode_cap vspace_cap (rsm_ipc_buf mem) v (PAGE_R OR PAGE_W OR PAGE_U)) (\<lambda>page_cap.
     bind_st (unwrap_st (in_kernel (write_slot cnode_cap page_cap ROOT_IPC_BUFFER))) (\<lambda>_.
     pure_st page_cap)))"

definition create_boot_info_frame ::
  "RootServerMemory \<Rightarrow> CapabilityData \<Rightarrow> CapabilityData \<Rightarrow> VirtAddr \<Rightarrow> (CapabilityData \<times> KernelVAddress) bprog" where
  "create_boot_info_frame mem cnode_cap vspace_cap max_vaddr =
     bind_st (lift_st (addr_add max_vaddr PAGE_SIZE)) (\<lambda>v.
     bind_st (create_mapped_page_cap cnode_cap vspace_cap (rsm_boot_frame mem) v (PAGE_R OR PAGE_U)) (\<lambda>page_cap.
     bind_st (unwrap_st (in_kernel (write_slot cnode_cap page_cap ROOT_BOOT_INFO_PAGE))) (\<lambda>_.
     pure_st (page_cap, rsm_boot_frame mem))))"

text \<open>
  \<open>lookup_entry_mut_one_level(i).unwrap().as_mut().unwrap()\<close>, the entry linked behind it.
\<close>

definition root_entry :: "Image \<Rightarrow> CapabilityData \<Rightarrow> usize \<Rightarrow> CapabilityData \<Rightarrow> CSlot kprog" where
  "root_entry im cnode_cap idx cap =
     bind_st (\<lambda>s. (unwrap_run (lookup_entry_mut_one_level s cnode_cap idx), s)) (\<lambda>slot s.
     case slot_at s slot of
       None \<Rightarrow> (Panic UnwrapFailed, s)
     | Some _ \<Rightarrow> let (e, s') = linked_entry im (cap_replicate cap) slot s in (Ok e, s'))"

definition create_root_tcb ::
  "Image \<Rightarrow> RootServerMemory \<Rightarrow> CapabilityData \<Rightarrow> CapabilityData \<Rightarrow> CapabilityData \<Rightarrow> VirtAddr \<Rightarrow> CapabilityData kprog" where
  "create_root_tcb im mem cnode_cap vspace_cap ipc_buf_cap entry_point =
     (let tcb = rsm_tcb mem
      in bind_st (modify_st (\<lambda>s. s\<lparr>ks_tcb := (ks_tcb s)(tcb := ListItem_new default_thread)\<rparr>)) (\<lambda>_.
         bind_st (modify_st (update_registers tcb (\<lambda>r. r\<lparr>rg_sstatus := SSTATUS_SPIE, rg_sepc := entry_point\<rparr>))) (\<lambda>_.
         bind_st (root_entry im cnode_cap ROOT_CNODE_IDX cnode_cap) (\<lambda>e1.
         bind_st (modify_st (update_thread tcb (\<lambda>i. i\<lparr>root_cnode := e1\<rparr>))) (\<lambda>_.
         bind_st (root_entry im cnode_cap ROOT_VSPACE_IDX vspace_cap) (\<lambda>e2.
         bind_st (modify_st (update_thread tcb (\<lambda>i. i\<lparr>vspace := e2\<rparr>))) (\<lambda>_.
         bind_st (root_entry im cnode_cap ROOT_IPC_BUFFER ipc_buf_cap) (\<lambda>e3.
         bind_st (modify_st (update_thread tcb (\<lambda>i. i\<lparr>ipc_buffer := e3\<rparr>))) (\<lambda>_.
         bind_st (lift_st (cap_init Tcb tcb 0)) (\<lambda>cap.
         bind_st (unwrap_st (write_slot cnode_cap (cap_replicate cap) ROOT_TCB_IDX)) (\<lambda>_.
         pure_st cap)))))))))))"

text \<open>
  The loop over the generator of untyped capabilities. The counter of the loop and
  the index of the enumeration are the same number.
\<close>

function store_untyped :: "CapabilityData \<Rightarrow> nat \<Rightarrow> UntypedCapGenerator \<Rightarrow> nat bprog" where
  "store_untyped root_cnode_cap num g =
     (case ug_next g of
        Ok None \<Rightarrow> pure_st num
      | Ok (Some ((untyped_cap_idx, untyped_cap), g')) \<Rightarrow>
          if num < 32
          then bind_st (unwrap_st (in_kernel (write_slot root_cnode_cap (cap_replicate untyped_cap) untyped_cap_idx))) (\<lambda>_.
               bind_st (lift_st (add_ck untyped_cap_idx 1)) (\<lambda>empty_idx.
               bind_st (modify_st (\<lambda>b. b\<lparr>bt_info := (bt_info b)\<lparr>
                 bi_untyped_infos := (bi_untyped_infos (bt_info b))[num := \<lparr>ui_bits = block_size untyped_cap,
                   ui_idx = untyped_cap_idx, ui_is_device = False\<rparr>],
                 bi_first_empty_idx := empty_idx\<rparr>\<rparr>)) (\<lambda>_.
               store_untyped root_cnode_cap (Suc num) g')))
          else lift_st (Panic AssertFailed)
      | Err e \<Rightarrow> lift_st (Err e)
      | Panic p \<Rightarrow> lift_st (Panic p)
      | Hang \<Rightarrow> lift_st Hang)"
  by pat_completeness auto
termination
  by (relation "measure (\<lambda>(_, num, _). 32 - num)") auto

declare store_untyped.simps [simp del]

text \<open>The bytes of \<^verbatim>\<open>"hello, root_server\n"\<close>.\<close>

definition hello :: "u8 list" where
  "hello = [104, 101, 108, 108, 111, 44, 32, 114, 111, 111, 116, 95, 115, 101, 114, 118, 101, 114, 10]"

definition set_info :: "(BootInfo \<Rightarrow> BootInfo) \<Rightarrow> unit bprog" where
  "set_info f = modify_st (\<lambda>b. b\<lparr>bt_info := f (bt_info b)\<rparr>)"

definition create_initial_thread :: "Image \<Rightarrow> RootServerMemory \<Rightarrow> usize \<Rightarrow> unit bprog" where
  "create_initial_thread im mem elf_header =
     bind_st (in_kernel (create_root_cnode mem)) (\<lambda>root_cnode_cap.
     bind_st (create_address_space im mem root_cnode_cap elf_header) (\<lambda>(vspace_cap, max_vaddr).
     bind_st (create_ipc_buf_frame mem root_cnode_cap vspace_cap max_vaddr) (\<lambda>ipc_page_cap.
     bind_st (lift_st (addr_add max_vaddr PAGE_SIZE)) (\<lambda>v1.
     bind_st (create_boot_info_frame mem root_cnode_cap vspace_cap v1) (\<lambda>_.
     bind_st (in_kernel (modify_st (create_idle_thread im (img_stack_top im)))) (\<lambda>_.
     bind_st (set_info (\<lambda>_. default_boot_info)) (\<lambda>_.
     bind_st (gets_st (\<lambda>b. e_entry (read_hdr (ks_byte (bt_kernel b)) elf_header))) (\<lambda>entry_point.
     bind_st (in_kernel (create_root_tcb im mem root_cnode_cap vspace_cap ipc_page_cap entry_point)) (\<lambda>root_tcb.
     bind_st (gets_st (\<lambda>b. rm_finalize (bt_mgr b))) (\<lambda>g.
     bind_st (store_untyped root_cnode_cap 0 g) (\<lambda>num.
     bind_st (set_info (\<lambda>i. i\<lparr>bi_untyped_num := of_nat num, bi_msg := hello @ drop (length hello) (bi_msg i),
       bi_root_cnode_idx := ROOT_CNODE_IDX, bi_root_vspace_idx := ROOT_VSPACE_IDX,
       bi_ipc_buffer_addr := v1\<rparr>)) (\<lambda>_.
     bind_st (lift_st (mul_ck PAGE_SIZE 2)) (\<lambda>n.
     bind_st (lift_st (addr_add max_vaddr n)) (\<lambda>v2.
     bind_st (in_kernel (modify_st (set_register root_tcb [(A0, v2)]))) (\<lambda>_.
     in_kernel (modify_st (make_runnable root_tcb)))))))))))))))))"

definition init_root_server :: "Image \<Rightarrow> BumpAllocator \<Rightarrow> usize \<Rightarrow> BootInfo kprog" where
  "init_root_server im bump_allocator elf_header =
     bind_st (lift_st (init_with_uninit im bump_allocator)) (\<lambda>(root_server_mem, ba).
     bind_st (lift_st (add_ck ROOT_BOOT_INFO_PAGE 1)) (\<lambda>first.
     bind_st (lift_st (pow2_ck (unat ROOT_CNODE_ENTRY_NUM_BITS))) (\<lambda>n.
     bind_st (lift_st (sub_ck n 1)) (\<lambda>last.
     bind_st (lift_st (rm_new ba first last)) (\<lambda>bootstage_mbr.
     bind_st (\<lambda>s. case create_initial_thread im root_server_mem elf_header
                         \<lparr>bt_kernel = s, bt_mgr = bootstage_mbr, bt_max_vaddr = 0, bt_info = default_boot_info\<rparr> of
                    (r, b) \<Rightarrow> (bind_run r (\<lambda>_. Ok (bt_info b)), bt_kernel b)) (\<lambda>info.
     bind_st (modify_st require_schedule) (\<lambda>_.
     bind_st (modify_st (schedule im)) (\<lambda>_.
     pure_st info))))))))"

definition SIE_SSIE :: usize where "SIE_SSIE = push_bit 1 1"
definition SIE_STIE :: usize where "SIE_STIE = push_bit 5 1"
definition SIE_SEIE :: usize where "SIE_SEIE = push_bit 9 1"
definition MTIME_PER_1MS :: usize where "MTIME_PER_1MS = 10000"

text \<open>
  The control registers that the initialisation sets besides the root of the page
  tables: the trap vector, the enabled interrupts, and the processor variables.
\<close>

record boot_csrs =
  csr_stvec :: usize
  csr_sie :: usize
  csr_sscratch :: usize

definition init_kernel :: "Image \<Rightarrow> usize \<Rightarrow> usize \<Rightarrow> usize \<Rightarrow> usize \<Rightarrow> usize \<Rightarrow> (BootInfo \<times> boot_csrs) kprog" where
  "init_kernel im elf_header free_ram_phys free_ram_end_phys r_sie r_time =
     bind_st (bump_new free_ram_phys free_ram_end_phys) (\<lambda>bump_allocator.
     bind_st (kernel_vm_init im free_ram_end_phys) (\<lambda>_.
     bind_st (init_root_server im bump_allocator elf_header) (\<lambda>info.
     bind_st (set_timer MTIME_PER_1MS r_time) (\<lambda>_.
     pure_st (info, \<lparr>csr_stvec = img_trap_entry im, csr_sie = r_sie OR SIE_SEIE OR SIE_STIE OR SIE_SSIE,
                     csr_sscratch = img_cpu_var im\<rparr>)))))"

text \<open>
  The entry of the kernel: the context that \<open>return_to_user\<close> loads is that of the
  thread the initialisation scheduled.
\<close>

definition kernel_main :: "Image \<Rightarrow> usize \<Rightarrow> usize \<Rightarrow> usize \<Rightarrow> usize \<Rightarrow> usize \<Rightarrow> Registers kprog" where
  "kernel_main im elf_header free_ram_phys free_ram_end_phys r_sie r_time =
     bind_st (init_kernel im elf_header free_ram_phys free_ram_end_phys r_sie r_time) (\<lambda>_.
     gets_st (\<lambda>s. registers (thread s (ks_current s))))"

end
