(* ===== verification/Boot_Map.thy ===== *)
theory Boot_Map
  imports Boot
begin

text \<open>
  The address space that the kernel builds for the first program: tables are linked
  in on demand, pages are mapped and filled from the ELF image. The memory of the
  page allocator is zero, so that a new table is empty and the end of a segment
  reads as zero.
\<close>

section \<open>The invariant of the boot stage\<close>

text \<open>
  The memory not handed out yet is zero, no table and no frame of the address space
  under construction lies in it, and every entry where a walk can stop belongs to
  one level and to one range of addresses only.
\<close>

definition in_free :: "boot \<Rightarrow> usize \<Rightarrow> bool" where
  "in_free b x \<longleftrightarrow>
     (let ba = rm_bump_allocator (bt_mgr b)
      in x - phys_to_kva (ba_start_addr ba) < ba_end_addr ba - ba_start_addr ba)"

definition user_addr :: "VirtAddr \<Rightarrow> bool" where
  "user_addr u \<longleftrightarrow> unat u < 2 ^ 47"

definition free_ok :: "boot \<Rightarrow> bool" where
  "free_ok b \<longleftrightarrow>
     (let ba = rm_bump_allocator (bt_mgr b)
      in bump_ok ba \<and> unat (ba_end_addr ba) < 2 ^ 47 \<and> take_bit 12 (ba_start_addr ba) = 0
         \<and> (\<forall>x. in_free b x \<longrightarrow> ks_pte (bt_kernel b) x = 0 \<and> ks_byte (bt_kernel b) x = 0))"

definition levels_ok :: "kstate \<Rightarrow> usize \<Rightarrow> bool" where
  "levels_ok s root \<longleftrightarrow>
     (\<forall>u u'. user_addr u \<and> user_addr u' \<and> snd (walk s root u) = snd (walk s root u') \<longrightarrow>
        fst (walk s root u) = fst (walk s root u')
        \<and> drop_bit (12 + 9 * fst (walk s root u)) u = drop_bit (12 + 9 * fst (walk s root u)) u')"

lemma same_pte_slot:
  assumes "pte_slot a u n = pte_slot a u' n" and "drop_bit (12 + 9 * Suc n) u = drop_bit (12 + 9 * Suc n) u'"
  shows "drop_bit (12 + 9 * n) u = drop_bit (12 + 9 * n) u'"
proof (rule bit_word_eqI)
  fix k assume "k < LENGTH(64)"
  have "get_vpn u n = get_vpn u' n"
    unfolding word_unat_eq_iff using pte_slot_offset [of a u n] pte_slot_offset [of a u' n] unfolding assms(1) by linarith
  then have v: "bit (get_vpn u n) k = bit (get_vpn u' n) k" by simp
  show "bit (drop_bit (12 + 9 * n) u) k = bit (drop_bit (12 + 9 * n) u') k"
  proof (cases "k < 9")
    case True
    then show ?thesis using v by (simp add: get_vpn_take_bit bit_simps mult.commute)
  next
    case False
    have "bit (drop_bit (12 + 9 * Suc n) u) (k - 9) = bit (drop_bit (12 + 9 * Suc n) u') (k - 9)" using assms(2) by simp
    then show ?thesis using False by (simp add: bit_simps add.commute add.left_commute)
  qed
qed

definition boot_inv :: "CapabilityData \<Rightarrow> boot \<Rightarrow> bool" where
  "boot_inv r b \<longleftrightarrow>
     free_ok b \<and> levels_ok (bt_kernel b) (get_pagetable r)
     \<and> (\<forall>u. user_addr u \<longrightarrow> \<not> in_free b (snd (walk (bt_kernel b) (get_pagetable r) u)))
     \<and> (\<forall>u w x. user_addr u \<and> translate (bt_kernel b) (get_pagetable r) u = Some w
          \<and> x - phys_to_kva (pte_get_address w) < PAGE_SIZE \<longrightarrow> \<not> in_free b x)"

text \<open>What the operations of the boot stage leave alone.\<close>

definition same_sched :: "kstate \<Rightarrow> kstate \<Rightarrow> bool" where
  "same_sched s t \<longleftrightarrow>
     ks_tcb t = ks_tcb s \<and> ks_runqueue t = ks_runqueue s \<and> ks_requested t = ks_requested s
     \<and> ks_current t = ks_current s \<and> ks_cur_reg_base t = ks_cur_reg_base s"

definition grown :: "CapabilityData \<Rightarrow> boot \<Rightarrow> boot \<Rightarrow> bool" where
  "grown r b b' \<longleftrightarrow>
     same_sched (bt_kernel b) (bt_kernel b')
     \<and> (\<forall>x. in_free b' x \<longrightarrow> in_free b x)
     \<and> (\<forall>u w. user_addr u \<and> translate (bt_kernel b) (get_pagetable r) u = Some w \<longrightarrow>
          translate (bt_kernel b') (get_pagetable r) u = Some w)"

lemma same_sched_trans: "same_sched s t \<Longrightarrow> same_sched t u \<Longrightarrow> same_sched s u"
  by (simp add: same_sched_def)

lemma grown_trans: "grown r a b \<Longrightarrow> grown r b c \<Longrightarrow> grown r a c"
  unfolding grown_def by (meson same_sched_trans)

lemma walk_from_cong: "ks_pte s = ks_pte t \<Longrightarrow> walk_from s table v l = walk_from t table v l"
  by (induction l arbitrary: table) (simp_all add: Let_def)

lemma walk_cong: "ks_pte s = ks_pte t \<Longrightarrow> walk s table v = walk t table v"
  unfolding walk_def by (rule walk_from_cong)

lemma translate_cong: "ks_pte s = ks_pte t \<Longrightarrow> translate s table v = translate t table v"
  by (simp add: translate_def walk_cong [of s t] split: prod.split)

lemma free_shrink:
  assumes "4096 \<le> (n :: usize)"
  shows "y - 4096 < n - 4096 \<longleftrightarrow> 4096 \<le> y \<and> y < n"
proof -
  have n: "unat (n - 4096) = unat n - 4096" using assms by (simp add: unat_sub)
  show ?thesis
  proof (cases "4096 \<le> y")
    case True
    then have "unat (y - 4096) = unat y - 4096" by (simp add: unat_sub)
    then show ?thesis using True assms n by (auto simp: word_less_nat_alt word_le_nat_alt)
  next
    case False
    then have "unat y < 4096" by (simp add: word_le_nat_alt)
    then have "unat (y - 4096) = 2 ^ 64 - 4096 + unat y" by (simp add: unat_sub_if')
    moreover have "unat n < 2 ^ 64" using unat_less_exp [of n] by simp
    ultimately show ?thesis using False n by (simp add: word_less_nat_alt)
  qed
qed

lemma page_aligned_iff: "take_bit 12 (t :: usize) = 0 \<longleftrightarrow> unat t mod 4096 = 0"
  using and_mask_unat [of t 12] by (simp add: take_bit_eq_mask word_unat_eq_iff)

lemma phys_to_kva_add: "unat p < 2 ^ 47 \<Longrightarrow> phys_to_kva p = p + KERNEL_V_ADDR_PFX"
proof -
  assume p: "unat p < 2 ^ 47"
  have "unat p + unat KERNEL_V_ADDR_PFX < 2 ^ 64" using p by (simp add: KERNEL_V_ADDR_PFX_def)
  then show ?thesis using unat_phys_to_kva [OF p] by (simp add: word_unat_eq_iff unat_word_ariths)
qed

text \<open>Taking a page: the page was free, and nothing of it is free afterwards.\<close>

lemma take_page:
  assumes "free_ok b" and "allocate_page (rm_bump_allocator (bt_mgr b)) = (Ok (a, ba) :: (PhysAddr \<times> BumpAllocator) kres)"
    and "rm_bump_allocator (bt_mgr b') = ba"
  shows "unat a < 2 ^ 47" and "take_bit 12 a = 0" and "bump_ok ba" and "unat (ba_end_addr ba) < 2 ^ 47"
    and "take_bit 12 (ba_start_addr ba) = 0"
    and "in_free b x \<longleftrightarrow> in_free b' x \<or> x - phys_to_kva a < PAGE_SIZE"
    and "in_free b' x \<Longrightarrow> \<not> x - phys_to_kva a < PAGE_SIZE"
proof -
  let ?b = "rm_bump_allocator (bt_mgr b)"
  have f: "unat (ba_end_addr ?b) < 2 ^ 47" "take_bit 12 (ba_start_addr ?b) = 0"
    using assms(1) by (auto simp: free_ok_def Let_def)
  have al: "a = ba_start_addr ?b" "ba_end_addr ba = ba_end_addr ?b" "unat (ba_start_addr ba) = unat a + 4096"
    "unat (ba_start_addr ba) \<le> unat (ba_end_addr ?b)"
    using assms(2) by (auto simp: allocate_page_Ok)
  then have st: "ba_start_addr ba = a + 4096" using f(1) by (simp add: word_unat_eq_iff unat_word_ariths)
  show "unat a < 2 ^ 47" "take_bit 12 a = 0" "unat (ba_end_addr ba) < 2 ^ 47" using f al by auto
  show "bump_ok ba" using al by (simp add: bump_ok_def word_le_nat_alt)
  show "take_bit 12 (ba_start_addr ba) = 0" using f(2) al(1,3) by (simp add: page_aligned_iff)
  let ?y = "x - phys_to_kva a" and ?n = "ba_end_addr ?b - a"
  have n: "4096 \<le> ?n" using al f(1) by (simp add: word_le_nat_alt unat_sub)
  have kva: "phys_to_kva (ba_start_addr ba) = phys_to_kva a + 4096"
    using al f(1) by (simp add: phys_to_kva_add) (simp add: st)
  have free': "in_free b' x \<longleftrightarrow> ?y - 4096 < ?n - 4096"
    by (simp add: in_free_def assms(3) kva [unfolded st] al(2) st diff_diff_eq)
  then show "in_free b x \<longleftrightarrow> in_free b' x \<or> ?y < PAGE_SIZE"
    using n unfolding free' free_shrink [OF n] by (auto simp: in_free_def Let_def al(1) PAGE_SIZE_def)
  show "in_free b' x \<Longrightarrow> \<not> ?y < PAGE_SIZE"
    unfolding free' free_shrink [OF n] by (auto simp: PAGE_SIZE_def not_less)
qed

section \<open>Linking tables\<close>

lemma write_slot_frame:
  assumes "write_slot c new i s = (r, t)"
  shows "ks_pte t = ks_pte s" and "ks_byte t = ks_byte s" and "same_sched s t"
  using assms by (auto simp: write_slot_def bind_st_def write_entry_def same_sched_def split: prod.splits run.splits)

lemma user_table_cap:
  assumes "unat a < 2 ^ 47"
  shows "get_pagetable (cap_new k a d) = phys_to_kva a"
  using assms by (simp add: get_pagetable_def get_address_new)

text \<open>
  Linking the empty table at \<open>a\<close> where the walk of \<open>v\<close> stops: every walk that
  stopped there goes on into the new table and stops at once; the others stay.
\<close>

lemma link_walks:
  assumes "walk s root v = (Suc n, e)" and "user_addr v" and "user_addr u" and "levels_ok s root"
    and "unat a < 2 ^ 47" and "take_bit 12 a = 0" and "\<forall>x. x - phys_to_kva a < PAGE_SIZE \<longrightarrow> ks_pte s x = 0"
    and "\<not> e - phys_to_kva a < PAGE_SIZE"
  shows "walk (set_pte e (pte_write a PAGE_V) s) root u
    = (if snd (walk s root u) = e then (n, pte_slot (phys_to_kva a) u n) else walk s root u)"
proof -
  let ?t = "set_pte e (pte_write a PAGE_V) s"
  have inv: "\<not> pte_is_valid (ks_pte s e)" using assms(1) unfolding walk_def by (rule walk_stop_invalid)
  obtain l p where w: "walk s root u = (l, p)" by fastforce
  show ?thesis
  proof (cases "p = e")
    case True
    then have "l = Suc n" using assms(1-4) w unfolding levels_ok_def by (metis fst_conv snd_conv)
    then have "walk ?t root u = walk_from ?t (phys_to_kva a) u n"
      unfolding walk_def
      by (intro walk_from_link) (use w True inv assms(5,6) in \<open>simp_all add: walk_def page_aligned_high_bits\<close>)
    also have "\<dots> = (n, pte_slot (phys_to_kva a) u n)"
    proof (rule walk_from_empty_table)
      have "pte_slot (phys_to_kva a) u n \<noteq> e" using assms(8) pte_slot_inside by force
      then show "\<not> pte_is_valid (ks_pte ?t (pte_slot (phys_to_kva a) u n))"
        using assms(7) pte_slot_inside by simp
    qed
    finally show ?thesis using w True by simp
  next
    case False
    then show ?thesis using walk_set_pte [OF inv w] w by simp
  qed
qed

lemma new_page_table_inv:
  assumes "boot_inv r b" and "user_addr v" and "new_page_table c r v b = (Ok level, b')"
  shows "boot_inv r b'" and "fst (walk (bt_kernel b') (get_pagetable r) v) = level"
    and "\<not> pte_is_valid (ks_pte (bt_kernel b') (snd (walk (bt_kernel b') (get_pagetable r) v)))"
    and "grown r b b'" and "ks_byte (bt_kernel b') = ks_byte (bt_kernel b)"
    and "user_addr u \<Longrightarrow> translate (bt_kernel b') (get_pagetable r) u = translate (bt_kernel b) (get_pagetable r) u"
proof -
  let ?root = "get_pagetable r" and ?s = "bt_kernel b" and ?t = "bt_kernel b'"
  let ?cap = "\<lambda>a. cap_new PageTable (kva_to_phys (phys_to_kva a)) 0"
  obtain a ba i j s1 cap' where al: "allocate_page (rm_bump_allocator (bt_mgr b)) = (Ok (a, ba) :: (PhysAddr \<times> BumpAllocator) kres)"
    and ws: "write_slot c (?cap a) i ?s = (Ok (), s1)"
    and pm: "page_table_cap_map (?cap a) r v s1 = (Ok (level, cap'), ?t)"
    and b': "b' = b\<lparr>bt_mgr := (bt_mgr b)\<lparr>rm_bump_allocator := ba, rm_cnode_satrt_idx := j\<rparr>, bt_kernel := ?t\<rparr>"
    using assms(3) by (rule new_page_table_Ok)
  have fo: "free_ok b" and lo: "levels_ok ?s ?root" and nf: "\<And>u. user_addr u \<Longrightarrow> \<not> in_free b (snd (walk ?s ?root u))"
    and fr: "\<And>u w x. user_addr u \<Longrightarrow> translate ?s ?root u = Some w \<Longrightarrow> x - phys_to_kva (pte_get_address w) < PAGE_SIZE \<Longrightarrow> \<not> in_free b x"
    using assms(1) by (auto simp: boot_inv_def)
  have ba: "rm_bump_allocator (bt_mgr b') = ba" by (subst b') simp
  note tp = take_page [OF fo al ba]
  note pte1 = write_slot_frame(1) [OF ws] and byte1 = write_slot_frame(2) [OF ws]
  have "page_table_map (phys_to_kva a) ?root v s1 = (Ok level, ?t)"
    using pm tp(1) by (auto simp: page_table_cap_map_def bind_st_eq_Ok user_table_cap)
  then obtain e where w1: "walk s1 ?root v = (Suc level, e)" and t: "?t = set_pte e (pte_write a PAGE_V) s1"
    by (rule page_table_map_Ok) (use tp(1) in simp)
  have w: "walk ?s ?root v = (Suc level, e)" using w1 walk_cong [OF pte1] by simp
  have e: "\<not> in_free b e" using nf [OF assms(2)] w by simp
  have zero: "ks_pte s1 x = 0" "ks_byte s1 x = 0" if "in_free b x" for x
    using fo that by (auto simp: free_ok_def Let_def pte1 byte1)
  have lo1: "levels_ok s1 ?root" using lo by (simp add: levels_ok_def walk_cong [OF pte1])
  have wt: "walk ?t ?root u
      = (if snd (walk s1 ?root u) = e then (level, pte_slot (phys_to_kva a) u level) else walk s1 ?root u)"
    if "user_addr u" for u
    unfolding t by (rule link_walks [OF w1 assms(2) that lo1 tp(1,2)]) (use zero(1) e tp(6) in auto)
  show "fst (walk ?t ?root v) = level" using wt [OF assms(2)] w1 by simp
  have new: "ks_pte ?t x = 0" if "in_free b x" for x using zero(1) [OF that] e that by (auto simp: t)
  show byte: "ks_byte ?t = ks_byte ?s" by (simp add: t set_pte_def byte1)
  show "\<not> pte_is_valid (ks_pte ?t (snd (walk ?t ?root v)))"
    using wt [OF assms(2)] w1 new tp(6) pte_slot_inside by simp
  have sched: "same_sched ?s ?t" using write_slot_frame(3) [OF ws] by (simp add: t set_pte_def same_sched_def)
  have ow: "\<not> in_free b (snd (walk s1 ?root u))" if "user_addr u" for u
    using nf [OF that] by (simp add: walk_cong [OF pte1])
  have "free_ok b'"
    using tp(3,4,5) new tp(6) zero(2) by (auto simp: free_ok_def Let_def ba byte byte1)
  moreover have "levels_ok ?t ?root"
    unfolding levels_ok_def
  proof (intro allI impI, elim conjE)
    fix u u' assume u: "user_addr u" "user_addr u'" and eq: "snd (walk ?t ?root u) = snd (walk ?t ?root u')"
    have out: "snd (walk s1 ?root x) \<noteq> pte_slot (phys_to_kva a) y level" if "user_addr x" for x y
      using ow [OF that] tp(6) pte_slot_inside by metis
    let ?in = "\<lambda>x. snd (walk s1 ?root x) = e"
    note eqs = wt [OF u(1)] wt [OF u(2)]
    consider "?in u" "?in u'" | "?in u" "\<not> ?in u'" | "\<not> ?in u" "?in u'" | "\<not> ?in u" "\<not> ?in u'" by blast
    then show "fst (walk ?t ?root u) = fst (walk ?t ?root u')
      \<and> drop_bit (12 + 9 * fst (walk ?t ?root u)) u = drop_bit (12 + 9 * fst (walk ?t ?root u)) u'"
    proof cases
      case 1
      have "snd (walk s1 ?root v) = e" "fst (walk s1 ?root v) = Suc level" by (simp_all add: w1)
      then have "drop_bit (12 + 9 * Suc level) v = drop_bit (12 + 9 * Suc level) x" if "user_addr x" "?in x" for x
        using lo1 assms(2) that unfolding levels_ok_def by metis
      then have d: "drop_bit (12 + 9 * Suc level) u = drop_bit (12 + 9 * Suc level) u'" using u 1 by metis
      have "pte_slot (phys_to_kva a) u level = pte_slot (phys_to_kva a) u' level" using eq eqs 1 by simp
      from same_pte_slot [OF this d] show ?thesis using eqs 1 by simp
    next
      case 4
      then have "snd (walk s1 ?root u) = snd (walk s1 ?root u')" using eq eqs by simp
      with lo1 u have "fst (walk s1 ?root u) = fst (walk s1 ?root u')
          \<and> drop_bit (12 + 9 * fst (walk s1 ?root u)) u = drop_bit (12 + 9 * fst (walk s1 ?root u)) u'"
        unfolding levels_ok_def by blast
      moreover have k: "walk ?t ?root u = walk s1 ?root u" "walk ?t ?root u' = walk s1 ?root u'" using 4 eqs by simp_all
      ultimately show ?thesis unfolding k by blast
    qed (use eq eqs out [OF u(1), of u'] out [OF u(2), of u] in auto)
  qed
  moreover have "\<not> in_free b' (snd (walk ?t ?root u))" if "user_addr u" for u
    using wt [OF that] ow [OF that] tp(6) [of "snd (walk s1 ?root u)"]
      tp(7) [of "pte_slot (phys_to_kva a) u level"] pte_slot_inside [of "phys_to_kva a" u level] by auto
  moreover have inv: "\<not> pte_is_valid (ks_pte s1 e)" using w1 unfolding walk_def by (rule walk_stop_invalid)
  have tr: "translate ?t ?root u = translate ?s ?root u" if "user_addr u" for u
  proof (cases "snd (walk s1 ?root u) = e")
    case True
    then have "walk ?t ?root u = (level, pte_slot (phys_to_kva a) u level)" using wt [OF that] by simp
    moreover have "ks_pte ?t (pte_slot (phys_to_kva a) u level) = 0" using new tp(6) pte_slot_inside by simp
    ultimately show ?thesis
      using True inv by (auto simp: translate_def walk_cong [OF pte1, symmetric] pte1 split: prod.splits)
  next
    case False
    then obtain l p where "walk s1 ?root u = (l, p)" "p \<noteq> e" by (metis snd_conv surj_pair)
    then have "translate ?t ?root u = translate s1 ?root u" unfolding t by (intro translate_set_pte_other [OF inv])
    then show ?thesis using translate_cong [OF pte1] by simp
  qed
  then show "grown r b b'" using sched tp(6) by (auto simp: grown_def)
  show "user_addr u \<Longrightarrow> translate ?t ?root u = translate ?s ?root u" by (rule tr)
  have "\<not> in_free b' x"
    if "user_addr u" "translate ?t ?root u = Some w" "x - phys_to_kva (pte_get_address w) < PAGE_SIZE" for u w x
    using fr [of u w x] that tr [OF that(1)] tp(6) by auto
  ultimately show "boot_inv r b'" unfolding boot_inv_def by blast
qed

lemma map_page_tables_inv:
  assumes "boot_inv r b" and "user_addr v" and "map_page_tables c r v b = (Ok (), b')"
  shows "boot_inv r b' \<and> fst (walk (bt_kernel b') (get_pagetable r) v) = 0
    \<and> \<not> pte_is_valid (ks_pte (bt_kernel b') (snd (walk (bt_kernel b') (get_pagetable r) v)))
    \<and> grown r b b' \<and> ks_byte (bt_kernel b') = ks_byte (bt_kernel b)
    \<and> (\<forall>u. user_addr u \<longrightarrow> translate (bt_kernel b') (get_pagetable r) u = translate (bt_kernel b) (get_pagetable r) u)"
  using assms
proof (induction c r v b rule: map_page_tables.induct)
  case (1 c r v b)
  obtain level b1 where n: "new_page_table c r v b = (Ok level, b1)"
    using "1.prems"(3) by (subst (asm) map_page_tables.simps) (auto split: prod.splits run.splits)
  note f = new_page_table_inv [OF "1.prems"(1,2) n]
  show ?case
  proof (cases "level = 0")
    case True
    then have "b' = b1" using "1.prems"(3) n by (simp add: map_page_tables.simps [of c r v b])
    then show ?thesis using f True by simp
  next
    case False
    then have "map_page_tables c r v b1 = (Ok (), b')"
      using "1.prems"(3) n by (simp add: map_page_tables.simps [of c r v b])
    from "1.IH" [OF n [symmetric] refl False f(1) "1.prems"(2) this] show ?thesis
      using f(5,6) grown_trans [OF f(4)] by simp
  qed
qed

section \<open>Mapping a page\<close>

lemma pte_write_low: "take_bit 10 f = f \<Longrightarrow> pte_write a f AND 0x3ff = f"
proof -
  assume f: "take_bit 10 f = f"
  have m: "(0x3ff::usize) = mask 10" by (simp add: mask_eq_exp_minus_1)
  have "take_bit 10 (pte_write a f) = f"
    unfolding pte_write_def take_bit_or f by (simp add: take_bit_push_bit)
  then show ?thesis by (simp add: m take_bit_eq_mask)
qed

lemma flags_valid: "take_bit 10 f = f \<Longrightarrow> take_bit 10 (f OR PAGE_V) = f OR PAGE_V"
  by (simp add: take_bit_or PAGE_V_def)

text \<open>The frame at \<open>a\<close> is mapped at \<open>v\<close>: only translations that were missing change.\<close>

lemma map_frame_inv:
  assumes "boot_inv r b" and "user_addr v" and "unat a < 2 ^ 47" and "take_bit 12 a = 0" and "take_bit 10 f = f"
    and free: "\<And>x. x - phys_to_kva a < PAGE_SIZE \<Longrightarrow> \<not> in_free b x"
    and map: "page_map (phys_to_kva a) (get_pagetable r) v f (bt_kernel b) = (Ok (), t)"
  shows "boot_inv r (b\<lparr>bt_kernel := t\<rparr>)" and "grown r b (b\<lparr>bt_kernel := t\<rparr>)"
    and "translate t (get_pagetable r) v = Some (pte_write a (f OR PAGE_V))" and "ks_byte t = ks_byte (bt_kernel b)"
    and "user_addr u \<Longrightarrow> drop_bit 12 u \<noteq> drop_bit 12 v \<Longrightarrow> translate t (get_pagetable r) u = translate (bt_kernel b) (get_pagetable r) u"
proof -
  let ?root = "get_pagetable r" and ?s = "bt_kernel b" and ?b = "b\<lparr>bt_kernel := t\<rparr>" and ?w = "pte_write a (f OR PAGE_V)"
  have fo: "free_ok b" and lo: "levels_ok ?s ?root" and nf: "\<And>u. user_addr u \<Longrightarrow> \<not> in_free b (snd (walk ?s ?root u))"
    and fr: "\<And>u w x. user_addr u \<Longrightarrow> translate ?s ?root u = Some w \<Longrightarrow> x - phys_to_kva (pte_get_address w) < PAGE_SIZE \<Longrightarrow> \<not> in_free b x"
    using assms(1) by (auto simp: boot_inv_def)
  obtain e where w: "walk ?s ?root v = (0, e)" and inv: "\<not> pte_is_valid (ks_pte ?s e)" and t: "t = set_pte e ?w ?s"
    using map by (rule page_map_Ok) (use assms(3) in simp)
  have e: "\<not> in_free b e" using nf [OF assms(2)] w by simp
  have fb: "in_free ?b x \<longleftrightarrow> in_free b x" for x by (simp add: in_free_def)
  have z: "fst (walk ?s ?root u) = 0" if "user_addr u" "snd (walk ?s ?root u) = e" for u
    using lo that assms(2) w unfolding levels_ok_def by (metis fst_conv snd_conv)
  have wt: "walk t ?root u = walk ?s ?root u" if "user_addr u" for u
  proof -
    obtain l p where lp: "walk ?s ?root u = (l, p)" by fastforce
    show ?thesis unfolding t lp using z [OF that] lp by (intro walk_set_pte [OF inv]) auto
  qed
  have tr: "translate t ?root u = (if snd (walk ?s ?root u) = e then Some ?w else translate ?s ?root u)" if "user_addr u" for u
    using wt [OF that] z [OF that] by (auto simp: translate_def t split: prod.splits)
  show "translate t ?root v = Some ?w" using tr [OF assms(2)] w by simp
  show "translate t ?root u = translate ?s ?root u" if "user_addr u" "drop_bit 12 u \<noteq> drop_bit 12 v"
  proof -
    have "snd (walk ?s ?root u) \<noteq> e"
    proof
      assume e: "snd (walk ?s ?root u) = e"
      then have "drop_bit (12 + 9 * fst (walk ?s ?root u)) u = drop_bit (12 + 9 * fst (walk ?s ?root u)) v"
        using lo that(1) assms(2) w unfolding levels_ok_def by (metis snd_conv)
      then show False using z [OF that(1) e] that(2) by simp
    qed
    then show ?thesis using tr [OF that(1)] by simp
  qed
  show byte: "ks_byte t = ks_byte ?s" by (simp add: t set_pte_def)
  have "ks_pte t x = ks_pte ?s x" if "in_free b x" for x using e that by (auto simp: t)
  then have "free_ok ?b" using fo by (simp add: free_ok_def Let_def fb byte)
  moreover have "levels_ok t ?root"
    unfolding levels_ok_def
  proof (intro allI impI, elim conjE)
    fix u u' assume u: "user_addr u" "user_addr u'" and "snd (walk t ?root u) = snd (walk t ?root u')"
    then have "snd (walk ?s ?root u) = snd (walk ?s ?root u')" by (simp add: wt)
    with lo u show "fst (walk t ?root u) = fst (walk t ?root u')
        \<and> drop_bit (12 + 9 * fst (walk t ?root u)) u = drop_bit (12 + 9 * fst (walk t ?root u)) u'"
      unfolding levels_ok_def wt [OF u(1)] wt [OF u(2)] by blast
  qed
  moreover have "\<not> in_free ?b (snd (walk t ?root u))" if "user_addr u" for u using nf [OF that] wt [OF that] by (simp add: fb)
  moreover have "\<not> in_free ?b x"
    if u: "user_addr u" "translate t ?root u = Some w" "x - phys_to_kva (pte_get_address w) < PAGE_SIZE" for u w x
  proof (cases "snd (walk ?s ?root u) = e")
    case True
    then have "w = ?w" using tr [OF u(1)] u(2) by simp
    moreover have "unat a < 2 ^ 56" using assms(3) by (rule less_trans) simp
    ultimately have "pte_get_address w = a" using flags_valid [OF assms(5)] assms(4) by (simp add: pte_get_address_write)
    then show ?thesis using free u(3) by (simp add: fb)
  next
    case False
    then show ?thesis using fr u tr [OF u(1)] by (simp add: fb)
  qed
  ultimately show "boot_inv r ?b" unfolding boot_inv_def by simp blast
  have "translate t ?root u = Some w" if "user_addr u" "translate ?s ?root u = Some w" for u w
    using that tr [OF that(1)] inv by (auto simp: translate_def split: prod.splits if_splits)
  moreover have "same_sched ?s t" by (simp add: t set_pte_def same_sched_def)
  ultimately show "grown r b ?b" by (auto simp: grown_def fb)
qed

lemma create_mapped_page_cap_inv:
  assumes "boot_inv r b" and "user_addr v" and "unat a < 2 ^ 47" and "take_bit 12 a = 0" and "take_bit 10 f = f"
    and free: "\<And>x. x - phys_to_kva a < PAGE_SIZE \<Longrightarrow> \<not> in_free b x"
    and ok: "create_mapped_page_cap c r (phys_to_kva a) v f b = (Ok pc, b')"
  shows "boot_inv r b'" and "grown r b b'" and "get_address pc = a"
    and "translate (bt_kernel b') (get_pagetable r) v = Some (pte_write a (f OR PAGE_V))"
    and "ks_byte (bt_kernel b') = ks_byte (bt_kernel b)"
    and "user_addr u \<Longrightarrow> drop_bit 12 u \<noteq> drop_bit 12 v \<Longrightarrow>
      translate (bt_kernel b') (get_pagetable r) u = translate (bt_kernel b) (get_pagetable r) u"
proof -
  let ?c = "cap_new Page a 0"
  have gp: "get_pagetable ?c = phys_to_kva a" "get_address ?c = a"
    using assms(3) by (simp_all add: user_table_cap get_address_new)
  have page: "boot_inv r b2 \<and> grown r b1 b2 \<and> translate (bt_kernel b2) (get_pagetable r) v = Some (pte_write a (f OR PAGE_V))
      \<and> ks_byte (bt_kernel b2) = ks_byte (bt_kernel b1) \<and> get_address pc = a
      \<and> (\<forall>u. user_addr u \<and> drop_bit 12 u \<noteq> drop_bit 12 v \<longrightarrow>
           translate (bt_kernel b2) (get_pagetable r) u = translate (bt_kernel b1) (get_pagetable r) u)"
    if i: "boot_inv r b1" and g: "grown r b b1" and m: "in_kernel (page_cap_map ?c r v f) b1 = (Ok pc, b2)" for b1 b2
  proof -
    have fr1: "\<not> in_free b1 x" if "x - phys_to_kva a < PAGE_SIZE" for x using free [OF that] g by (auto simp: grown_def)
    obtain t where t: "page_map (phys_to_kva a) (get_pagetable r) v f (bt_kernel b1) = (Ok (), t)" "b2 = b1\<lparr>bt_kernel := t\<rparr>"
      and pc: "pc = cap_set_mapped ?c v"
      using m gp by (auto simp: in_kernel_eq page_cap_map_Ok)
    then show ?thesis using map_frame_inv [OF i assms(2-5) fr1 t(1)] gp(2) by (simp add: cap_set_mapped_def)
  qed
  have refl: "grown r b b" by (simp add: grown_def same_sched_def)
  have init: "cap_init Page (phys_to_kva a) 0 = (Ok ?c :: CapabilityData kres)" using assms(3) by (simp add: cap_init_def)
  consider "in_kernel (page_cap_map ?c r v f) b = (Ok pc, b')"
    | e b0 b1 where "in_kernel (page_cap_map ?c r v f) b = (Err e, b0)" "map_page_tables c r v b0 = (Ok (), b1)"
        "in_kernel (page_cap_map ?c r v f) b1 = (Ok pc, b')"
    using ok by (auto simp: create_mapped_page_cap_def init bind_st_eq_Ok unwrap_st_Ok split: prod.splits run.splits if_splits)
  then have "boot_inv r b' \<and> grown r b b' \<and> get_address pc = a
      \<and> translate (bt_kernel b') (get_pagetable r) v = Some (pte_write a (f OR PAGE_V)) \<and> ks_byte (bt_kernel b') = ks_byte (bt_kernel b)
      \<and> (\<forall>u. user_addr u \<and> drop_bit 12 u \<noteq> drop_bit 12 v \<longrightarrow>
           translate (bt_kernel b') (get_pagetable r) u = translate (bt_kernel b) (get_pagetable r) u)"
  proof cases
    case 1
    then show ?thesis using page [OF assms(1) refl] by simp
  next
    case (2 e b0 b1)
    then have b0: "b0 = b"
      by (auto simp: in_kernel_eq page_cap_map_def page_map_def bind_st_eq_Err Let_def split: prod.splits if_splits)
    then have b1: "boot_inv r b1 \<and> grown r b b1 \<and> ks_byte (bt_kernel b1) = ks_byte (bt_kernel b)
        \<and> (\<forall>u. user_addr u \<longrightarrow> translate (bt_kernel b1) (get_pagetable r) u = translate (bt_kernel b) (get_pagetable r) u)"
      using map_page_tables_inv [OF assms(1,2)] 2(2) by blast
    then have "grown r b b1" by blast
    with b1 page [OF _ this 2(3)] grown_trans [OF this] show ?thesis by simp
  qed
  then show "boot_inv r b'" "grown r b b'" "get_address pc = a"
    "translate (bt_kernel b') (get_pagetable r) v = Some (pte_write a (f OR PAGE_V))"
    "ks_byte (bt_kernel b') = ks_byte (bt_kernel b)"
    "user_addr u \<Longrightarrow> drop_bit 12 u \<noteq> drop_bit 12 v \<Longrightarrow>
      translate (bt_kernel b') (get_pagetable r) u = translate (bt_kernel b) (get_pagetable r) u" by auto
qed

end
