(* ===== verification/Boot_Load.thy ===== *)
theory Boot_Load
imports Boot_Map
begin

text \<open>
  The address space of the root server: what \<open>create_address_space\<close> of
  \<open>init/root_server.rs\<close> puts into it. A page of a segment is loaded, then a segment,
  and, by the contract of the ELF loader, the image.
\<close>

section \<open>Loading a page\<close>

text \<open>The byte that the program reads at \<open>v\<close>.\<close>

definition user_byte :: "kstate \<Rightarrow> usize \<Rightarrow> VirtAddr \<Rightarrow> u8 option" where
  "user_byte s root v =
     map_option (\<lambda>w. ks_byte s (phys_to_kva (pte_get_address w) + take_bit 12 v)) (translate s root v)"

lemma walk_from_same_page:
  assumes "drop_bit 12 u = drop_bit 12 v"
  shows "walk_from s table u l = walk_from s table v l"
proof -
  have "get_vpn u i = get_vpn v i" for i
  proof -
    have "drop_bit (i * 9 + 12) w = drop_bit (i * 9) (drop_bit 12 w)" for w :: usize by simp
    then have "drop_bit (i * 9 + 12) u = drop_bit (i * 9 + 12) v" using assms by metis
    then show ?thesis by (simp add: get_vpn_take_bit add.commute)
  qed
  then have "pte_slot t u i = pte_slot t v i" for t i by (simp add: pte_slot_def)
  then show ?thesis by (induction l arbitrary: table) (simp_all add: Let_def)
qed

lemma translate_same_page: "drop_bit 12 u = drop_bit 12 v \<Longrightarrow> translate s root u = translate s root v"
  using walk_from_same_page [of u v s root 3] by (simp add: translate_def walk_def)

lemma page_split:
  assumes "take_bit 12 (v :: usize) = 0" and "unat k < 4096"
  shows "drop_bit 12 (v + k) = drop_bit 12 v" and "take_bit 12 (v + k) = k" and "unat (v + k) = unat v + unat k"
proof -
  have "v AND k = 0"
  proof (rule bit_word_eqI)
    fix n
    have "take_bit 12 k = k" using assms(2) by (simp add: word_unat_eq_iff unsigned_take_bit_eq take_bit_nat_eq_self)
    then have "bit k n \<Longrightarrow> n < 12" by (metis bit_take_bit_iff)
    moreover have "n < 12 \<Longrightarrow> \<not> bit v n" using assms(1) bit_take_bit_iff [of 12 v n] by simp
    ultimately show "bit (v AND k) n = bit (0 :: usize) n" by (auto simp: bit_and_iff)
  qed
  then have s: "v + k = v OR k" by (simp add: disjunctive_add_eq_or)
  have k: "take_bit 12 k = k" using assms(2) by (simp add: word_unat_eq_iff unsigned_take_bit_eq take_bit_nat_eq_self)
  then have "drop_bit 12 k = 0" by (metis drop_bit_take_bit diff_self_eq_0 take_bit_0)
  then show "drop_bit 12 (v + k) = drop_bit 12 v" by (simp add: s drop_bit_or)
  show "take_bit 12 (v + k) = k" by (simp add: s take_bit_or assms(1) k)
  show "unat (v + k) = unat v + unat k" using \<open>v AND k = 0\<close> by (simp add: s or_disjoint_unat)
qed

lemma boot_inv_cong:
  assumes "boot_inv r b" and "ks_pte (bt_kernel b') = ks_pte (bt_kernel b)"
    and "rm_bump_allocator (bt_mgr b') = rm_bump_allocator (bt_mgr b)"
    and "\<And>x. in_free b x \<Longrightarrow> ks_byte (bt_kernel b') x = ks_byte (bt_kernel b) x"
  shows "boot_inv r b'"
proof -
  have f: "in_free b' x = in_free b x" for x by (simp add: in_free_def assms(3))
  have "free_ok b'" using assms(1,2,4) by (auto simp: boot_inv_def free_ok_def Let_def f assms(3))
  then show ?thesis
    using assms(1) by (simp add: boot_inv_def levels_ok_def f walk_cong [OF assms(2)] translate_cong [OF assms(2)])
qed

lemma alloc_page_inv:
  assumes "boot_inv r b" and "alloc_page b = (Ok p, b')"
  obtains a where "p = phys_to_kva a" "unat a < 2 ^ 47" "take_bit 12 a = 0" "boot_inv r b'" "bt_kernel b' = bt_kernel b"
    "\<And>x. in_free b x \<longleftrightarrow> in_free b' x \<or> x - phys_to_kva a < PAGE_SIZE"
    "\<And>x. x - phys_to_kva a < PAGE_SIZE \<Longrightarrow> \<not> in_free b' x"
proof -
  obtain a ba where al: "allocate_page (rm_bump_allocator (bt_mgr b)) = (Ok (a, ba) :: (PhysAddr \<times> BumpAllocator) kres)"
    and p: "p = phys_to_kva a" and b': "b' = b\<lparr>bt_mgr := (bt_mgr b)\<lparr>rm_bump_allocator := ba\<rparr>\<rparr>"
    using assms(2) by (auto simp: alloc_page_Ok)
  have fo: "free_ok b" using assms(1) by (simp add: boot_inv_def)
  have ba: "rm_bump_allocator (bt_mgr b') = ba" by (simp add: b')
  note tp = take_page [OF fo al ba]
  have "free_ok b'" using fo tp(3-6) by (auto simp: free_ok_def Let_def ba) (simp_all add: b')
  then have "boot_inv r b'" using assms(1) tp(6) by (auto simp: boot_inv_def b')
  then show thesis using that [OF p tp(1,2) _ _ tp(6)] tp(7) by (auto simp: b')
qed

text \<open>
  Loading keeps what the program can read, and touches no memory that was in use.
\<close>

definition loaded :: "CapabilityData \<Rightarrow> boot \<Rightarrow> boot \<Rightarrow> bool" where
  "loaded r b b' \<longleftrightarrow>
     boot_inv r b' \<and> grown r b b'
     \<and> (\<forall>u y. user_addr u \<and> user_byte (bt_kernel b) (get_pagetable r) u = Some y \<longrightarrow>
          user_byte (bt_kernel b') (get_pagetable r) u = Some y)
     \<and> (\<forall>x. \<not> in_free b x \<longrightarrow> ks_byte (bt_kernel b') x = ks_byte (bt_kernel b) x)"

lemma loaded_trans: "loaded r a b \<Longrightarrow> loaded r b c \<Longrightarrow> loaded r a c"
  unfolding loaded_def using grown_trans [of r a b c] by (metis grown_def)

lemma map_one_page_frame:
  assumes inv: "boot_inv r b" and us: "unat v + 4096 * i < 2 ^ 47" and fl: "take_bit 10 f = f"
    and ok: "map_one_page c r v p f i rem b = (Ok rem', b')"
  obtains a b1 where "unat a < 2 ^ 47" "take_bit 12 a = 0" "boot_inv r b1" "grown r b b1"
    "ks_byte (bt_kernel b1) = ks_byte (bt_kernel b)"
    "translate (bt_kernel b1) (get_pagetable r) (v + of_nat (4096 * i)) = Some (pte_write a (f OR PAGE_V))"
    "\<And>x. x - phys_to_kva a < PAGE_SIZE \<Longrightarrow> in_free b x \<and> \<not> in_free b1 x"
    "b' = b1\<lparr>bt_kernel := copy_bytes (p + of_nat (4096 * i)) (phys_to_kva a) (min PAGE_SIZE rem) (bt_kernel b1)\<rparr>"
    "rem' = saturating_sub rem PAGE_SIZE"
proof -
  let ?s = "bt_kernel b" and ?root = "get_pagetable r" and ?o = "of_nat (4096 * i) :: usize"
  have i: "unat (of_nat i :: usize) = i" "unat ?o = 4096 * i"
    using us by (simp_all only: unat_of_nat) (simp_all add: take_bit_nat_eq_self)
  obtain off vn p0 pc idx b1 b2 b3 b4 b5 where off: "mul_ck PAGE_SIZE (of_nat i) = (Ok off :: usize kres)"
    and vn: "addr_add v off = (Ok vn :: usize kres)"
    and b1: "b1 = (if bt_max_vaddr b < vn then b\<lparr>bt_max_vaddr := vn\<rparr> else b)"
    and al: "alloc_page b1 = (Ok p0, b2)"
    and cm: "create_mapped_page_cap c r p0 vn f b2 = (Ok pc, b3)"
    and ci: "alloc_cnode_idx b3 = (Ok idx, b4)"
    and ws: "in_kernel (write_slot c pc idx) b4 = (Ok (), b5)"
    and fin: "(rem \<noteq> 0 \<and> b' = b5\<lparr>bt_kernel := copy_bytes (p + off) (phys_to_kva (get_address pc)) (min PAGE_SIZE rem) (bt_kernel b5)\<rparr>
          \<and> rem' = saturating_sub rem PAGE_SIZE) \<or> (rem = 0 \<and> b' = b5 \<and> rem' = rem)"
    using ok
    by (cases "rem = 0")
      (auto simp: map_one_page_def bind_st_eq_Ok lift_st_def modify_st_def pure_st_def unwrap_st_Ok in_kernel_eq simp del: split_paired_Ex split: prod.splits)
  have off: "off = ?o" using off i by (simp add: mul_ck_Ok PAGE_SIZE_def word_unat_eq_iff)
  have vn: "vn = v + ?o" "user_addr vn"
    using vn i us by (auto simp: off addr_add_def add_ck_Ok user_addr_def word_unat_eq_iff unat_word_ariths)
  have i1: "boot_inv r b1" and f1: "in_free b1 = in_free b" and k1: "bt_kernel b1 = bt_kernel b"
    using boot_inv_cong [OF inv, of b1] by (auto simp: b1 in_free_def fun_eq_iff)
  obtain a where p0: "p0 = phys_to_kva a" and a: "unat a < 2 ^ 47" "take_bit 12 a = 0" and i2: "boot_inv r b2" and k2: "bt_kernel b2 = bt_kernel b1"
    and f2: "\<And>x. in_free b1 x \<longleftrightarrow> in_free b2 x \<or> x - phys_to_kva a < PAGE_SIZE" "\<And>x. x - phys_to_kva a < PAGE_SIZE \<Longrightarrow> \<not> in_free b2 x"
    using alloc_page_inv [OF i1 al] by metis
  note m = create_mapped_page_cap_inv [OF i2 vn(2) a fl f2(2) cm [unfolded p0]]
  have k4: "bt_kernel b4 = bt_kernel b3" and r4: "rm_bump_allocator (bt_mgr b4) = rm_bump_allocator (bt_mgr b3)"
    using ci by (auto simp: alloc_cnode_idx_Ok)
  obtain t where t: "write_slot c pc idx (bt_kernel b4) = (Ok (), t)" and b5: "b5 = b4\<lparr>bt_kernel := t\<rparr>" using ws by (auto simp: in_kernel_eq)
  note w = write_slot_frame [OF t]
  have i5: "boot_inv r b5" using boot_inv_cong [OF m(1), of b5] w r4 by (simp add: b5 k4)
  have f5: "in_free b5 = in_free b3" by (simp add: in_free_def fun_eq_iff b5 r4)
  have tr: "translate (bt_kernel b5) = translate (bt_kernel b3)"
    using translate_cong [of "bt_kernel b5" "bt_kernel b3"] w(1) by (simp add: b5 k4 fun_eq_iff)
  have g5: "grown r b b5"
    using m(2) w(3) f2(1) same_sched_trans unfolding grown_def f5 tr f1 [symmetric] by (simp add: b5 k4 k2 k1) blast
  have "in_free b x \<and> \<not> in_free b5 x" if "x - phys_to_kva a < PAGE_SIZE" for x
    using that f2 [of x] m(2) by (auto simp: f1 f5 grown_def)
  moreover have "copy_bytes (p + off) (phys_to_kva a) 0 s = s" for s by (simp add: copy_bytes_def)
  then have "b' = b5\<lparr>bt_kernel := copy_bytes (p + ?o) (phys_to_kva a) (min PAGE_SIZE rem) (bt_kernel b5)\<rparr>"
    using fin m(3) by (auto simp: off)
  moreover have "rem' = saturating_sub rem PAGE_SIZE" using fin by (auto simp: saturating_sub_def)
  ultimately show thesis using that [OF a i5 g5] m(4,5) w(2) vn(1) tr by (simp add: b5 k4 k2 k1)
qed

lemma map_one_page_loads:
  assumes inv: "boot_inv r b" and al: "take_bit 12 v = 0" and us: "unat v + 4096 * i < 2 ^ 47" and fl: "take_bit 10 f = f"
    and ok: "map_one_page c r v p f i rem b = (Ok rem', b')"
  shows "loaded r b b'" and "rem' = saturating_sub rem PAGE_SIZE"
    and "k < 4096 \<Longrightarrow> user_byte (bt_kernel b') (get_pagetable r) (v + of_nat (4096 * i + k))
      = Some (if k < unat rem then ks_byte (bt_kernel b) (p + of_nat (4096 * i + k)) else 0)"
proof -
  let ?root = "get_pagetable r" and ?o = "of_nat (4096 * i) :: usize"
  obtain a b1 where a: "unat a < 2 ^ 47" "take_bit 12 a = 0" and i1: "boot_inv r b1" and g1: "grown r b b1"
    and k1: "ks_byte (bt_kernel b1) = ks_byte (bt_kernel b)" and tr: "translate (bt_kernel b1) ?root (v + ?o) = Some (pte_write a (f OR PAGE_V))"
    and pg: "\<And>x. x - phys_to_kva a < PAGE_SIZE \<Longrightarrow> in_free b x \<and> \<not> in_free b1 x"
    and b': "b' = b1\<lparr>bt_kernel := copy_bytes (p + ?o) (phys_to_kva a) (min PAGE_SIZE rem) (bt_kernel b1)\<rparr>"
    and rem: "rem' = saturating_sub rem PAGE_SIZE"
    using map_one_page_frame [OF inv us fl ok] by metis
  have out: "ks_byte (bt_kernel b') x = ks_byte (bt_kernel b) x" if "\<not> x - phys_to_kva a < PAGE_SIZE" for x
    using that k1 by (simp add: b' copy_bytes_def)
  have pte: "ks_pte (bt_kernel b') = ks_pte (bt_kernel b1)" by (simp add: b' copy_bytes_def)
  have "ks_byte (bt_kernel b') x = ks_byte (bt_kernel b1) x" if "in_free b1 x" for x using out k1 pg that by metis
  then have i': "boot_inv r b'" using boot_inv_cong [OF i1 pte] by (simp add: b')
  have g': "grown r b b'" using g1 translate_cong [OF pte] unfolding grown_def
    by (simp add: b' copy_bytes_def same_sched_def in_free_def)
  have "user_byte (bt_kernel b') ?root u = Some y" if u: "user_addr u" and y: "user_byte (bt_kernel b) ?root u = Some y" for u y
  proof -
    obtain w where w: "translate (bt_kernel b) ?root u = Some w" using y by (auto simp: user_byte_def)
    let ?x = "phys_to_kva (pte_get_address w) + take_bit 12 u"
    have "take_bit 12 u < (PAGE_SIZE :: usize)" by (simp add: word_less_nat_alt unat_mod PAGE_SIZE_def take_bit_eq_mod)
    then have "?x - phys_to_kva (pte_get_address w) < PAGE_SIZE" by simp
    then have "\<not> in_free b ?x" using inv u w unfolding boot_inv_def by blast
    then have "\<not> ?x - phys_to_kva a < PAGE_SIZE" using pg by blast
    moreover have "translate (bt_kernel b') ?root u = Some w" using g' u w by (simp add: grown_def)
    ultimately show ?thesis using y w out by (simp add: user_byte_def)
  qed
  then show "loaded r b b'" using i' g' out pg unfolding loaded_def by blast
  show "rem' = saturating_sub rem PAGE_SIZE" by (rule rem)
  assume k: "k < 4096"
  have uo: "unat ?o = 4096 * i" using us by (simp only: unat_of_nat) (simp add: take_bit_nat_eq_self)
  then have "unat (v + ?o) = unat v + 4096 * i" using us by (simp add: unat_word_ariths)
  then have al': "take_bit 12 (v + ?o) = 0" using al by (simp add: page_aligned_iff)
  have uk: "unat (of_nat k :: usize) = k" using k by (simp add: unat_of_nat take_bit_nat_eq_self)
  note sp = page_split [OF al', of "of_nat k"]
  have adr: "pte_get_address (pte_write a (f OR PAGE_V)) = a"
    using pte_get_address_write [OF _ a(2) flags_valid [OF fl]] a(1) by simp
  have z: "ks_byte (bt_kernel b) (phys_to_kva a + of_nat k) = 0"
    using pg [of "phys_to_kva a + of_nat k"] inv k uk by (simp add: boot_inv_def free_ok_def Let_def word_less_nat_alt PAGE_SIZE_def)
  have "translate (bt_kernel b') ?root (v + ?o + of_nat k) = Some (pte_write a (f OR PAGE_V))"
    using tr translate_same_page [OF sp(1)] translate_cong [OF pte] uk k by simp
  then show "user_byte (bt_kernel b') ?root (v + of_nat (4096 * i + k))
      = Some (if k < unat rem then ks_byte (bt_kernel b) (p + of_nat (4096 * i + k)) else 0)"
    using sp(2) uk k z k1 by (simp add: user_byte_def adr b' copy_bytes_def word_less_nat_alt word_le_nat_alt min_def PAGE_SIZE_def add.assoc)
qed

lemma saturating_sub_unat: "unat (saturating_sub a b) = unat a - unat b"
  by (auto simp: saturating_sub_def word_le_nat_alt unat_sub)

lemma unat_add_of_nat: "unat a + k < 2 ^ 64 \<Longrightarrow> unat (a + of_nat k :: usize) = unat a + k"
  by (simp add: unat_word_ariths unat_of_nat take_bit_nat_eq_self)

lemma loaded_refl: "boot_inv r b \<Longrightarrow> loaded r b b"
  by (simp add: loaded_def grown_def same_sched_def)

lemma map_pages_loads:
  assumes "boot_inv r b" and al: "take_bit 12 v = 0" and us: "unat v + 4096 * n \<le> 2 ^ 47" and fl: "take_bit 10 f = f"
    and "\<And>k. k < fs \<Longrightarrow> \<not> in_free b (p + of_nat k)"
    and "unat rem = fs - 4096 * i" and "i \<le> n"
    and "map_pages c r v p f [i..<n] rem b = (Ok (), b')"
  shows "loaded r b b' \<and> (\<forall>k. 4096 * i \<le> k \<and> k < 4096 * n \<longrightarrow>
    user_byte (bt_kernel b') (get_pagetable r) (v + of_nat k) = Some (if k < fs then ks_byte (bt_kernel b) (p + of_nat k) else 0))"
  using assms(1,5-)
proof (induction "n - i" arbitrary: i rem b)
  case 0
  then show ?case by (auto intro: loaded_refl)
next
  case (Suc d)
  let ?root = "get_pagetable r" and ?g = "\<lambda>b k. if k < fs then ks_byte (bt_kernel b) (p + of_nat k) else 0"
  have i: "i < n" using Suc.hyps(2) by simp
  then obtain rem1 b1 where one: "map_one_page c r v p f i rem b = (Ok rem1, b1)"
    and rest: "map_pages c r v p f [Suc i..<n] rem1 b1 = (Ok (), b')"
    using Suc.prems(5) by (auto simp: upt_conv_Cons bind_st_eq_Ok)
  have ui: "unat v + 4096 * i < 2 ^ 47" using us i by linarith
  note m = map_one_page_loads [OF Suc.prems(1) al ui fl one]
  have b1: "boot_inv r b1" and nf: "\<And>k. k < fs \<Longrightarrow> \<not> in_free b1 (p + of_nat k)"
    and same: "\<And>k. k < fs \<Longrightarrow> ks_byte (bt_kernel b1) (p + of_nat k) = ks_byte (bt_kernel b) (p + of_nat k)"
    using m(1) Suc.prems(2) by (auto simp: loaded_def grown_def)
  have r1: "unat rem1 = fs - 4096 * Suc i" using m(2) Suc.prems(3) by (simp add: saturating_sub_unat PAGE_SIZE_def)
  have IH: "loaded r b1 b'" "\<And>k. 4096 * Suc i \<le> k \<Longrightarrow> k < 4096 * n \<Longrightarrow>
      user_byte (bt_kernel b') ?root (v + of_nat k) = Some (?g b k)"
    using Suc.hyps(1) [OF _ b1 nf r1 _ rest] Suc.hyps(2) i same by auto
  have "user_byte (bt_kernel b') ?root (v + of_nat k) = Some (?g b k)" if k: "4096 * i \<le> k" "k < 4096 * n" for k
  proof (cases "k < 4096 * Suc i")
    case True
    define j where "j = k - 4096 * i"
    have j: "k = 4096 * i + j" "j < 4096" using True k by (simp_all add: j_def)
    have "user_byte (bt_kernel b1) ?root (v + of_nat k) = Some (?g b k)"
      using m(3) [of j] j Suc.prems(3) by (simp add: less_diff_conv add.commute)
    moreover have "user_addr (v + of_nat k)" using k us by (simp add: user_addr_def unat_add_of_nat)
    ultimately show ?thesis using IH(1) by (auto simp: loaded_def)
  next
    case False
    then show ?thesis using IH(2) k by simp
  qed
  then show ?case using loaded_trans [OF m(1) IH(1)] by blast
qed

text \<open>
  A segment that starts at a page boundary, lies in the user half and is read from
  memory that is in use is loaded: what the file does not provide is zero.
\<close>

lemma boot_map_program_loads:
  assumes "boot_inv r b" and al: "take_bit 12 v = 0" and us: "unat v + unat ms \<le> 2 ^ 47" and fl: "take_bit 10 f = f"
    and "\<And>k. k < unat fs \<Longrightarrow> \<not> in_free b (p + of_nat k)"
    and "boot_map_program c r v p ms fs f b = (Ok (), b')"
  shows "loaded r b b'" and "k < unat ms \<Longrightarrow> user_byte (bt_kernel b') (get_pagetable r) (v + of_nat k)
    = Some (if k < unat fs then ks_byte (bt_kernel b) (p + of_nat k) else 0)"
proof -
  obtain n where n: "align_up ms PAGE_SIZE = (Ok n :: usize kres)"
    and m: "map_pages c r v p f [0..<unat (n div PAGE_SIZE)] fs b = (Ok (), b')"
    using assms(6) by (auto simp: boot_map_program_def bind_st_eq_Ok lift_st_def)
  have ps: "PAGE_SIZE = (2 :: usize) ^ 12" by (simp add: PAGE_SIZE_def)
  note a = align_up_Ok [OF _ n [unfolded ps], simplified]
  define q where "q = unat n div 4096"
  have un: "unat (n div PAGE_SIZE) = q" by (simp add: q_def unat_div PAGE_SIZE_def)
  have q: "unat ms \<le> 4096 * q" "4096 * q < unat ms + 4096" using a by (auto simp: q_def)
  obtain j where j: "unat v = 4096 * j" using al by (auto simp: page_aligned_iff)
  then have "4096 * (j + q) < 4096 * (2 ^ 35 + 1)" using us q(2) by simp
  then have "j + q < 2 ^ 35 + 1" by (simp only: mult_less_cancel1)
  then have "unat v + 4096 * q \<le> 2 ^ 47" unfolding j by simp
  note l = map_pages_loads [OF assms(1) al this fl assms(5) _ _ m [unfolded un], simplified]
  show "loaded r b b'" using l by blast
  assume "k < unat ms"
  then show "user_byte (bt_kernel b') (get_pagetable r) (v + of_nat k)
    = Some (if k < unat fs then ks_byte (bt_kernel b) (p + of_nat k) else 0)" using l q(1) by simp
qed

section \<open>Loading the image\<close>

text \<open>
  The memory \<open>[a, a + n)\<close> holds the image: it is in use and its bytes are \<open>m\<close>.
\<close>

definition image_at :: "(usize \<Rightarrow> u8) \<Rightarrow> usize \<Rightarrow> nat \<Rightarrow> boot \<Rightarrow> bool" where
  "image_at m a n b \<longleftrightarrow>
     (\<forall>k < n. \<not> in_free b (a + of_nat k) \<and> ks_byte (bt_kernel b) (a + of_nat k) = m (a + of_nat k))"

definition segment_ok :: "usize \<Rightarrow> nat \<Rightarrow> usize \<Rightarrow> usize \<Rightarrow> usize \<Rightarrow> usize \<Rightarrow> bool" where
  "segment_ok a n v p ms fs \<longleftrightarrow>
     take_bit 12 v = 0 \<and> unat v + unat ms \<le> 2 ^ 47 \<and> unat (p - a) + unat fs \<le> n"

definition user_content :: "CapabilityData \<Rightarrow> boot \<Rightarrow> usize \<Rightarrow> u8 option" where
  "user_content r b u = (if user_addr u then user_byte (bt_kernel b) (get_pagetable r) u else None)"

lemma mapper_flags_low: "take_bit 10 (mapper_get_flags f) = mapper_get_flags f"
  by (simp add: mapper_get_flags_def boot_get_flags_def take_bit_or PAGE_X_def PAGE_W_def PAGE_R_def PAGE_U_def)

lemma loaded_image_at: "loaded r b b' \<Longrightarrow> image_at m a n b \<Longrightarrow> image_at m a n b'"
  unfolding loaded_def grown_def image_at_def by metis

lemma segment_source:
  assumes "segment_ok a n v p ms fs" and "k < unat fs"
  obtains j where "j < n" "p + of_nat k = a + of_nat j"
proof
  show "unat (p - a) + k < n" using assms by (simp add: segment_ok_def)
  show "p + of_nat k = a + of_nat (unat (p - a) + k)" by simp
qed

interpretation root_server_loader: segment_loader mapper_get_flags "boot_map_program c r"
    "\<lambda>b. boot_inv r b \<and> image_at m a n b" "user_content r" m "segment_ok a n"
  for c r m a n
proof
  fix b v p ms fs fl b'
  assume inv: "boot_inv r b \<and> image_at m a n b" and fits: "segment_ok a n v p ms fs"
    and ok: "boot_map_program c r v p ms fs (mapper_get_flags fl) b = (Ok (), b')"
  have src: "\<not> in_free b (p + of_nat k) \<and> ks_byte (bt_kernel b) (p + of_nat k) = m (p + of_nat k)" if "k < unat fs" for k
    using segment_source [OF fits that] inv unfolding image_at_def by metis
  note l = boot_map_program_loads [OF conjunct1 [OF inv] _ _ mapper_flags_low _ ok]
  have s: "take_bit 12 v = 0" "unat v + unat ms \<le> 2 ^ 47" using fits by (simp_all add: segment_ok_def)
  have l1: "loaded r b b'" using l(1) s src by blast
  show "boot_inv r b' \<and> image_at m a n b'" using l1 inv loaded_image_at by (auto simp: loaded_def)
  show "user_content r b' u = Some y" if "user_content r b u = Some y" for u y
    using that l1 by (auto simp: user_content_def loaded_def split: if_splits)
  show "user_content r b' (v + of_nat k) = Some (if k < unat fs then m (p + of_nat k) else 0)" if k: "k < unat ms" for k
  proof -
    have "user_addr (v + of_nat k)" using s(2) k by (simp add: user_addr_def unat_add_of_nat)
    then show ?thesis using l(2) [OF s _ k] src by (auto simp: user_content_def)
  qed
qed

text \<open>
  The state in which the address space is made: the memory of the allocator is
  unused and zero, the page for the root table is apart from it and from the
  kernel's root table, and the kernel's root table maps nothing in the user half.
\<close>

definition fresh_space :: "Image \<Rightarrow> RootServerMemory \<Rightarrow> PhysAddr \<Rightarrow> boot \<Rightarrow> bool" where
  "fresh_space im mem t b \<longleftrightarrow>
     free_ok b \<and> rsm_vspace mem = phys_to_kva t \<and> unat t < 2 ^ 47
     \<and> (\<forall>x. x - phys_to_kva t < PAGE_SIZE \<longrightarrow> \<not> in_free b x \<and> \<not> x - img_vm_root im < PAGE_SIZE)
     \<and> (\<forall>u. user_addr u \<longrightarrow> \<not> pte_is_valid (ks_pte (bt_kernel b) (pte_slot (img_vm_root im) u 3)))"

lemma pte_slot_in_table: "pte_slot t u i - t < PAGE_SIZE"
  using get_vpn_less [of u i] by (simp add: pte_slot_def word_less_nat_alt PAGE_SIZE_def unat_word_ariths)

lemma user_addr_high: "user_addr x \<Longrightarrow> drop_bit 48 x = 0"
proof -
  assume "user_addr x"
  then have "unat x div 2 ^ 48 = 0" by (simp add: user_addr_def)
  then show ?thesis by (simp add: word_unat_eq_iff unat_drop_bit_eq drop_bit_nat_def)
qed

lemma fresh_space_inv:
  assumes "fresh_space im mem t b" and "get_pagetable r = phys_to_kva t"
    and "ks_pte (bt_kernel b') = ks_pte (copy_global_mapping im (phys_to_kva t) (zero_page_table (phys_to_kva t) (bt_kernel b)))"
    and "ks_byte (bt_kernel b') = ks_byte (bt_kernel b)"
    and "bt_mgr b' = bt_mgr b"
  shows "boot_inv r b'" and "user_addr u \<Longrightarrow> translate (bt_kernel b') (get_pagetable r) u = None"
proof -
  let ?t = "phys_to_kva t"
  have f: "free_ok b" and apart: "\<And>x. x - ?t < PAGE_SIZE \<Longrightarrow> \<not> in_free b x \<and> \<not> x - img_vm_root im < PAGE_SIZE"
    and e: "\<And>u. user_addr u \<Longrightarrow> \<not> pte_is_valid (ks_pte (bt_kernel b) (pte_slot (img_vm_root im) u 3))"
    using assms(1) by (auto simp: fresh_space_def)
  have fr: "in_free b' x = in_free b x" for x by (simp add: in_free_def assms(5))
  have w: "walk (bt_kernel b') ?t u = (3, pte_slot ?t u 3)" if u: "user_addr u" for u
  proof -
    have k: "pte_slot (img_vm_root im) u 3 - ?t < PAGE_SIZE \<Longrightarrow> False"
      using apart [of "pte_slot (img_vm_root im) u 3"] pte_slot_in_table [of "img_vm_root im" u 3] by simp
    have "ks_pte (bt_kernel b') (pte_slot ?t u 3) = ks_pte (bt_kernel b) (pte_slot (img_vm_root im) u 3)"
      using pte_slot_in_table [of ?t u 3] k unfolding assms(3) by (auto simp: copy_global_mapping_def zero_page_table_def pte_slot_def)
    then show ?thesis using e [OF u] by (simp add: walk_def numeral_3_eq_3 Let_def)
  qed
  have d: "drop_bit 39 u = drop_bit 39 u'" if "user_addr u" "user_addr u'" "pte_slot ?t u 3 = pte_slot ?t u' 3" for u u'
  proof -
    have "drop_bit (12 + 9 * Suc 3) u = drop_bit (12 + 9 * Suc 3) u'"
      using user_addr_high that(1,2) by simp
    from same_pte_slot [OF that(3) this] show ?thesis by simp
  qed
  have "free_ok b'"
    using f apart by (auto simp: free_ok_def Let_def fr assms copy_global_mapping_def zero_page_table_def)
  moreover have "levels_ok (bt_kernel b') ?t"
    unfolding levels_ok_def
  proof (intro allI impI, elim conjE)
    fix u u' assume u: "user_addr u" "user_addr u'" and "snd (walk (bt_kernel b') ?t u) = snd (walk (bt_kernel b') ?t u')"
    then have "drop_bit 39 u = drop_bit 39 u'" by (intro d) (simp_all add: w)
    then show "fst (walk (bt_kernel b') ?t u) = fst (walk (bt_kernel b') ?t u')
        \<and> drop_bit (12 + 9 * fst (walk (bt_kernel b') ?t u)) u = drop_bit (12 + 9 * fst (walk (bt_kernel b') ?t u)) u'"
      by (simp add: w u)
  qed
  moreover have "\<not> in_free b' (snd (walk (bt_kernel b') ?t u))" if "user_addr u" for u
    using apart pte_slot_in_table [of ?t u 3] by (simp add: w [OF that] fr)
  moreover have tr: "translate (bt_kernel b') ?t u = None" if "user_addr u" for u
    by (simp add: translate_def w [OF that])
  ultimately show "boot_inv r b'" unfolding boot_inv_def assms(2) by fastforce
  show "user_addr u \<Longrightarrow> translate (bt_kernel b') (get_pagetable r) u = None" unfolding assms(2) by (rule tr)
qed

text \<open>
  When the address space was created, the first program finds every byte of its loadable segments at its address in the
  new address space: the bytes of the image, and zero behind the contents of the file.
\<close>

theorem create_address_space_loads:
  assumes "fresh_space im mem t b"
    and "\<forall>k < n. \<not> in_free b (elf + of_nat k)"
    and "\<forall>p \<in> set (program_headers (ks_byte (bt_kernel b)) elf). loadable p \<longrightarrow>
           segment_ok elf n (p_vaddr p) (elf + p_offset p) (p_memsz p) (p_filesz p)"
    and "create_address_space im mem c elf b = (Ok (cap, max_vaddr), b')"
    and "p \<in> set (program_headers (ks_byte (bt_kernel b)) elf)" and "loadable p" and "k < unat (p_memsz p)"
  shows "user_byte (bt_kernel b') (get_pagetable cap) (p_vaddr p + of_nat k) =
           Some (if k < unat (p_filesz p) then ks_byte (bt_kernel b) (elf + p_offset p + of_nat k) else 0)"
proof -
  obtain cap0 s1 s2 where c0: "cap_init PageTable (rsm_vspace mem) 0 = (Ok cap0 :: CapabilityData kres)"
    and mk: "make_as_root im cap0 (zero_page_table (rsm_vspace mem) (bt_kernel b)) = (Ok cap, s1)"
    and wr: "write_slot c (cap_replicate cap) ROOT_VSPACE_IDX s1 = (Ok (), s2)"
    and ms: "map_self mapper_get_flags (boot_map_program c cap) (ks_byte s2) elf (b\<lparr>bt_kernel := s2, bt_max_vaddr := 0\<rparr>) = (Ok (), b')"
    using assms(4)
    by (auto simp: create_address_space_def bind_st_eq_Ok lift_st_def modify_st_def pure_st_def gets_st_def unwrap_st_Ok in_kernel_eq split: prod.splits)
  let ?t = "phys_to_kva t" and ?b = "b\<lparr>bt_kernel := s2, bt_max_vaddr := 0\<rparr>"
  have t: "rsm_vspace mem = ?t" "unat t < 2 ^ 47" using assms(1) by (auto simp: fresh_space_def)
  have "cap0 = cap_new PageTable t 0" using c0 t by (simp add: cap_init_def)
  then have g0: "get_pagetable cap0 = ?t" using t(2) by (simp add: user_table_cap)
  have s1: "s1 = copy_global_mapping im ?t (zero_page_table ?t (bt_kernel b))" and g: "get_pagetable cap = ?t"
    using mk g0 t(1) by (auto simp: make_as_root_def bind_st_eq_Ok get_pagetable_def get_address_def cap_set_root_def cap_set_mapped_def)
  have pte: "ks_pte s2 = ks_pte s1" and by2: "ks_byte s2 = ks_byte (bt_kernel b)"
    using write_slot_frame [OF wr] by (simp_all add: s1 copy_global_mapping_def zero_page_table_def)
  have inv: "boot_inv cap ?b" using fresh_space_inv(1) [OF assms(1) g, of ?b] pte by2 by (simp add: s1)
  have im: "image_at (ks_byte (bt_kernel b)) elf n ?b" using assms(2) by2 by (simp add: image_at_def in_free_def)
  have "user_content cap b' (p_vaddr p + of_nat k) =
      Some (if k < unat (p_filesz p) then ks_byte (bt_kernel b) (elf + p_offset p + of_nat k) else 0)"
    by (rule root_server_loader.map_self_segments(2) [OF conjI [OF inv im] _ ms [unfolded by2] assms(5-7)]) (use assms(3) in blast)
  then show ?thesis by (auto simp: user_content_def split: if_splits)
qed

end
