(* ===== verification/Boot_Untyped.thy ===== *)
theory Boot_Untyped
imports Boot Interfaces
begin

text \<open>
  The memory that the kernel hands to the root server: the generator of untyped
  capabilities of \<open>init/root_server.rs\<close> and the loop of \<open>create_initial_thread\<close> that
  stores them and describes them in the boot information.
\<close>

section \<open>The generator\<close>

definition ug_low :: "UntypedCapGenerator \<Rightarrow> nat" where
  "ug_low g = unat (kva_to_phys (ug_start_address g))"

definition ug_high :: "UntypedCapGenerator \<Rightarrow> nat" where
  "ug_high g = unat (kva_to_phys (ug_end_address g))"

definition ug_ok :: "UntypedCapGenerator \<Rightarrow> bool" where
  "ug_ok g \<longleftrightarrow>
     phys_to_kva (kva_to_phys (ug_start_address g)) = ug_start_address g
     \<and> phys_to_kva (kva_to_phys (ug_end_address g)) = ug_end_address g
     \<and> ug_low g \<le> ug_high g \<and> ug_high g + 4096 < 2 ^ 47 \<and> unat (ug_idx_max g) < 2 ^ 63"

lemma ug_bounds:
  assumes "ug_ok g"
  shows "unat (ug_start_address g) = ug_low g + unat KERNEL_V_ADDR_PFX"
    and "unat (ug_end_address g) = ug_high g + unat KERNEL_V_ADDR_PFX"
    and "ug_low g \<le> ug_high g" and "ug_high g + 4096 < 2 ^ 47"
proof -
  show le: "ug_low g \<le> ug_high g" and hi: "ug_high g + 4096 < 2 ^ 47" using assms by (auto simp: ug_ok_def)
  have p: "phys_to_kva (kva_to_phys (ug_start_address g)) = ug_start_address g"
    "phys_to_kva (kva_to_phys (ug_end_address g)) = ug_end_address g" using assms by (simp_all add: ug_ok_def)
  have "unat (kva_to_phys (ug_start_address g)) < 2 ^ 47" "unat (kva_to_phys (ug_end_address g)) < 2 ^ 47"
    using le hi by (simp_all add: ug_low_def ug_high_def)
  then show "unat (ug_start_address g) = ug_low g + unat KERNEL_V_ADDR_PFX"
    and "unat (ug_end_address g) = ug_high g + unat KERNEL_V_ADDR_PFX"
    using unat_phys_to_kva p unfolding ug_low_def ug_high_def by metis+
qed

lemma KERNEL_V_ADDR_PFX_unat: "unat KERNEL_V_ADDR_PFX = 2 ^ 64 - 2 ^ 47"
  by (simp add: KERNEL_V_ADDR_PFX_def)

lemma ug_next_done:
  assumes "ug_ok g" and "ug_high g \<le> ug_low g + 4096"
  shows "ug_next g = Ok None"
  using ug_bounds [OF assms(1)] assms(2) KERNEL_V_ADDR_PFX_unat
  by (auto simp: ug_next_def addr_add_def add_ck_def word_le_nat_alt unat_word_ariths)

text \<open>
  One step takes the largest power of two that fits.
\<close>

lemma ug_next_more:
  assumes ok: "ug_ok g" and more: "ug_low g + 4096 < ug_high g" and idx: "ug_idx_start g \<le> ug_idx_max g"
  obtains cap g' where "ug_next g = Ok (Some ((ug_idx_start g, cap), g'))"
    "get_cap_type cap = Ok Untyped" "unat (get_address cap) = ug_low g" "get_free_index cap = ug_start_address g"
    "unat (block_size cap) = 2 ^ ilog2_nat (ug_high g - ug_low g)"
    "ug_ok g'" "ug_low g' = ug_low g + unat (block_size cap)" "ug_high g' = ug_high g"
    "ug_idx_start g' = ug_idx_start g + 1" "ug_idx_max g' = ug_idx_max g"
proof -
  let ?S = "ug_start_address g" and ?E = "ug_end_address g" and ?n = "ug_high g - ug_low g" and ?P = "unat KERNEL_V_ADDR_PFX"
  note b = ug_bounds [OF ok] and P = KERNEL_V_ADDR_PFX_unat
  have sz: "unat (?E - ?S) = ?n" using b by (simp add: unat_sub word_le_nat_alt)
  have lg: "2 ^ ilog2_nat ?n \<le> ?n" using ilog2_nat_bounds [of ?n] more by simp
  have "?E - ?S \<noteq> 0" using sz more by auto
  then obtain d where d: "create_cap_dep_val Untyped ?S (?E - ?S) = (Ok d :: usize kres)" by (simp add: ilog2_def)
  note df = untyped_dep_val_fields [OF d]
  define cap where "cap = cap_new Untyped (kva_to_phys ?S) d"
  define g' where "g' = g\<lparr>ug_start_address := ?S + block_size cap, ug_idx_start := ug_idx_start g + 1\<rparr>"
  have cd: "cap_dep_val cap = d" "cap_type cap = cap_type_u8 Untyped" by (simp_all add: cap_def cap_new_def set_address_def)
  have bs: "unat (block_size cap) = 2 ^ ilog2_nat ?n" by (simp add: block_size_unat cd df(1) sz)
  have low: "unat (kva_to_phys ?S) = ug_low g" by (simp add: ug_low_def)
  have st: "unat (?S + block_size cap) = ug_low g + 2 ^ ilog2_nat ?n + ?P"
    using b bs lg more P by (simp add: unat_word_ariths)
  have st': "?S + block_size cap = phys_to_kva (of_nat (ug_low g + 2 ^ ilog2_nat ?n))"
  proof -
    have "unat (of_nat (ug_low g + 2 ^ ilog2_nat ?n) :: usize) = ug_low g + 2 ^ ilog2_nat ?n"
      using b lg more by (simp only: unat_of_nat) (simp add: take_bit_nat_eq_self)
    then show ?thesis using st b lg more unat_phys_to_kva [of "of_nat (ug_low g + 2 ^ ilog2_nat ?n)"] by (simp add: word_unat_eq_iff)
  qed
  have im: "unat (ug_idx_max g) < 2 ^ 63" using ok by (simp add: ug_ok_def)
  have up: "unat (of_nat (ug_low g + 2 ^ ilog2_nat ?n) :: usize) = ug_low g + 2 ^ ilog2_nat ?n"
      using b lg more by (simp only: unat_of_nat) (simp add: take_bit_nat_eq_self)
  then have ks: "kva_to_phys (?S + block_size cap) = of_nat (ug_low g + 2 ^ ilog2_nat ?n)"
    unfolding st' using b lg more by (intro phys_kva_id) simp
  have ci: "cap_init Untyped ?S (?E - ?S) = (Ok cap :: CapabilityData kres)"
    unfolding cap_init_def d by (simp add: cap_def)
  have "addr_add ?S 4096 = (Ok (?S + 4096) :: usize kres)" "\<not> ?E \<le> ?S + 4096"
    using b more P by (simp_all add: addr_add_def add_ck_def word_le_nat_alt unat_word_ariths)
  moreover have "addr_sub ?E ?S = (Ok (?E - ?S) :: usize kres)" "addr_add ?S (block_size cap) = (Ok (?S + block_size cap) :: usize kres)"
    "add_ck (ug_idx_start g) 1 = (Ok (ug_idx_start g + 1) :: usize kres)"
    using b lg bs more P idx im by (simp_all add: addr_add_def addr_sub_def add_ck_def sub_ck_def word_le_nat_alt)
  ultimately have next_def: "ug_next g = Ok (Some ((ug_idx_start g, cap), g'))"
    using idx ci by (simp add: ug_next_def assert_run_def g'_def)
  have "ug_start_address g' = ?S + block_size cap" by (simp add: g'_def)
  then have low': "ug_low g' = ug_low g + unat (block_size cap)" unfolding ug_low_def [of g'] bs by (simp only: ks up)
  have high': "ug_high g' = ug_high g" by (simp add: ug_high_def g'_def)
  have rt: "phys_to_kva (kva_to_phys (ug_start_address g')) = ug_start_address g'"
    using ks st' by (simp only: \<open>ug_start_address g' = _\<close>)
  have "ug_low g' \<le> ug_high g'" using low' high' lg more bs by linarith
  then have "ug_ok g'" using ok rt unfolding ug_ok_def high' by (simp add: g'_def)
  moreover have "unat (get_address cap) = ug_low g" using low b by (simp add: cap_def get_address_new)
  moreover have "get_free_index cap = ?S" using ok by (simp add: get_free_index_def cd df(3) ug_ok_def)
  ultimately show thesis using that [OF next_def] cd bs low' high' by (simp add: get_cap_type_Ok g'_def)
qed


definition ug_step :: "unit \<Rightarrow> UntypedCapGenerator \<Rightarrow> ((nat \<times> nat) \<times> UntypedCapGenerator) option" where
  "ug_step _ g =
     (case ug_next g of
        Ok (Some ((_, cap), g')) \<Rightarrow> Some ((unat (get_address cap), unat (block_size cap)), g')
      | _ \<Rightarrow> None)"

lemma ug_step_facts:
  assumes "ug_ok g" and "ug_step i g = Some ((a, n), g')"
  shows "a = ug_low g \<and> ug_low g' = ug_low g + n \<and> ug_high g' = ug_high g \<and> ug_ok g'"
proof -
  have "ug_next g \<noteq> Ok None" using assms(2) by (auto simp: ug_step_def)
  then have "ug_low g + 4096 < ug_high g" using ug_next_done [OF assms(1)] by fastforce
  moreover have "ug_idx_start g \<le> ug_idx_max g"
    using assms(2) by (auto simp: ug_step_def ug_next_def assert_run_def split: run.splits option.splits if_splits)
  ultimately obtain idx cap h where h: "ug_next g = Ok (Some ((idx, cap), h))" "unat (get_address cap) = ug_low g" "ug_ok h"
      "ug_low h = ug_low g + unat (block_size cap)" "ug_high h = ug_high g"
    using ug_next_more [OF assms(1)] by metis
  then show ?thesis using assms(2) by (simp add: ug_step_def)
qed

interpretation untyped: region_alloc ug_step ug_low ug_high ug_ok
proof
  show "ug_low g \<le> ug_high g" if "ug_ok g" for g using that by (simp add: ug_ok_def)
qed (use ug_step_facts in blast)+

section \<open>Storing the capabilities\<close>

text \<open>
  Entry \<open>i\<close> of the boot information describes the untyped capability in slot \<open>idx\<close>,
  an unused block of \<open>n\<close> bytes at \<open>a\<close>.
\<close>

definition untyped_block :: "CapabilityData \<Rightarrow> boot \<Rightarrow> nat \<Rightarrow> nat \<Rightarrow> nat \<Rightarrow> nat \<Rightarrow> bool" where
  "untyped_block c b i idx a n \<longleftrightarrow>
     (\<exists>cap. ks_cap (bt_kernel b) (slot_addr (cnode_base c) idx) = Some cap
        \<and> get_cap_type cap = Ok Untyped \<and> unat (get_address cap) = a \<and> unat (block_size cap) = n
        \<and> get_free_index cap = phys_to_kva (get_address cap)
        \<and> bi_untyped_infos (bt_info b) ! i = \<lparr>ui_bits = of_nat n, ui_idx = of_nat idx, ui_is_device = False\<rparr>)"

definition slots_free :: "CapabilityData \<Rightarrow> boot \<Rightarrow> nat \<Rightarrow> nat \<Rightarrow> bool" where
  "slots_free c b i n \<longleftrightarrow>
     unat (radix c) \<le> 32 \<and> i + n \<le> 2 ^ unat (radix c)
     \<and> (\<forall>j. i \<le> j \<and> j < i + n \<longrightarrow> slot_at (bt_kernel b) (slot_addr (cnode_base c) j) = None)"

lemma write_free_slot:
  assumes "slots_free c b (unat idx) (Suc n)"
  obtains b' where "in_kernel (write_slot c cap idx) b = (Ok (), b')"
    "b' = b\<lparr>bt_kernel := write_entry (slot_addr (cnode_base c) (unat idx)) (new_with_rawcap cap) (bt_kernel b)\<rparr>"
    "slots_free c b' (Suc (unat idx)) n"
    "ks_cap (bt_kernel b') (slot_addr (cnode_base c) (unat idx)) = Some cap"
    "\<And>j. j < unat idx \<Longrightarrow> ks_cap (bt_kernel b') (slot_addr (cnode_base c) j) = ks_cap (bt_kernel b) (slot_addr (cnode_base c) j)"
proof -
  let ?a = "\<lambda>j. slot_addr (cnode_base c) j" and ?s = "bt_kernel b"
  define t where "t = write_entry (?a (unat idx)) (new_with_rawcap cap) ?s"
  have r: "unat (radix c) \<le> 32" "unat idx + Suc n \<le> 2 ^ unat (radix c)"
    and none: "\<And>j. unat idx \<le> j \<Longrightarrow> j < unat idx + Suc n \<Longrightarrow> slot_at ?s (?a j) = None"
    using assms by (auto simp: slots_free_def)
  have cap: "unat ((2 :: usize) ^ unat (radix c)) = 2 ^ unat (radix c)" using r(1) by (simp add: unat_pow2)
  have ws: "write_slot c cap idx ?s = (Ok (), t)"
    using r cap none [of "unat idx"]
    by (simp add: write_slot_def capacity_def pow2_ck_def index_slot_def bind_st_def lift_st_def ensure_def modify_st_def t_def
        word_le_nat_alt word_less_nat_alt)
  have "(2 :: nat) ^ unat (radix c) \<le> 2 ^ 32" using r(1) by (intro power_increasing) auto
  then have ne: "?a j \<noteq> ?a (unat idx)" if "j \<noteq> unat idx" "j < unat idx + Suc n" for j
    using slot_addr_inj [of "cnode_base c" j "unat idx"] that r(2) by auto
  have kc: "ks_cap t (?a j) = ks_cap ?s (?a j)" "slot_at t (?a j) = slot_at ?s (?a j)" if "j \<noteq> unat idx" "j < unat idx + Suc n" for j
    using ne [OF that] by (simp_all add: t_def write_entry_def slot_at_def split: option.splits)
  show thesis
    by (rule that [of "b\<lparr>bt_kernel := t\<rparr>"])
      (use ws r none kc in \<open>auto simp: in_kernel_eq t_def [symmetric] slots_free_def\<close>, simp add: t_def write_entry_def new_with_rawcap_def)
qed


text \<open>
  Less than \<open>2 ^ (12 + k)\<close> bytes are handed out in at most \<open>k\<close> blocks, one after the
  other; at most a page is left over.
\<close>

definition tiles :: "CapabilityData \<Rightarrow> boot \<Rightarrow> nat \<Rightarrow> nat \<Rightarrow> (nat \<Rightarrow> nat) \<Rightarrow> nat \<Rightarrow> bool" where
  "tiles c b n num addr idx \<longleftrightarrow>
     (\<forall>i. n \<le> i \<and> i < num \<longrightarrow> addr i < addr (Suc i) \<and> untyped_block c b i (idx + (i - n)) (addr i) (addr (Suc i) - addr i))"

lemma block_count:
  assumes "0 < m" and "m < 2 ^ (12 + Suc k)"
  shows "m - 2 ^ ilog2_nat m < 2 ^ (12 + k)" and "2 ^ ilog2_nat m \<le> m"
proof -
  have l: "2 ^ ilog2_nat m \<le> m" "m < 2 ^ Suc (ilog2_nat m)" using ilog2_nat_bounds assms(1) by auto
  have "(2 :: nat) ^ ilog2_nat m < 2 ^ (12 + Suc k)" using l(1) assms(2) by (rule le_less_trans)
  then have "ilog2_nat m < 12 + Suc k" by (rule power_less_imp_less_exp [rotated]) simp
  then have "ilog2_nat m \<le> 12 + k" by simp
  then have "(2 :: nat) ^ ilog2_nat m \<le> 2 ^ (12 + k)" by (intro power_increasing) auto
  then show "m - 2 ^ ilog2_nat m < 2 ^ (12 + k)" using l unfolding power_Suc by linarith
  show "2 ^ ilog2_nat m \<le> m" by (rule l(1))
qed

text \<open>One round of the loop.\<close>

lemma store_untyped_step:
  assumes ok: "ug_ok g" and sz: "ug_high g - ug_low g < 2 ^ (12 + Suc k)" and n: "n + Suc k \<le> 32"
    and len: "length (bi_untyped_infos (bt_info b)) = 32" and fr: "slots_free c b (unat (ug_idx_start g)) (Suc k)"
    and mx: "unat (ug_idx_start g) + Suc k \<le> Suc (unat (ug_idx_max g))" and more: "ug_low g + 4096 < ug_high g"
  obtains g' b' where "store_untyped c n g b = store_untyped c (Suc n) g' b'"
    "ug_ok g'" "ug_high g' - ug_low g' < 2 ^ (12 + k)" "ug_high g' = ug_high g" "ug_low g < ug_low g'"
    "length (bi_untyped_infos (bt_info b')) = 32" "unat (ug_idx_start g') = Suc (unat (ug_idx_start g))"
    "slots_free c b' (unat (ug_idx_start g')) k" "ug_idx_max g' = ug_idx_max g"
    "untyped_block c b' n (unat (ug_idx_start g)) (ug_low g) (ug_low g' - ug_low g)"
    "\<And>i. i < n \<Longrightarrow> bi_untyped_infos (bt_info b') ! i = bi_untyped_infos (bt_info b) ! i"
    "\<And>j. j < unat (ug_idx_start g) \<Longrightarrow>
       ks_cap (bt_kernel b') (slot_addr (cnode_base c) j) = ks_cap (bt_kernel b) (slot_addr (cnode_base c) j)"
proof -
  let ?idx = "ug_idx_start g" and ?a = "\<lambda>j. slot_addr (cnode_base c) j"
  have le: "?idx \<le> ug_idx_max g" using mx by (simp add: word_le_nat_alt)
  obtain cap g' where nx: "ug_next g = Ok (Some ((?idx, cap), g'))" and cap: "get_cap_type cap = Ok Untyped" "unat (get_address cap) = ug_low g"
      "get_free_index cap = ug_start_address g"
    and bs: "unat (block_size cap) = 2 ^ ilog2_nat (ug_high g - ug_low g)" and ok': "ug_ok g'"
    and lo': "ug_low g' = ug_low g + unat (block_size cap)" and hi': "ug_high g' = ug_high g"
    and ix': "ug_idx_start g' = ?idx + 1" and mx': "ug_idx_max g' = ug_idx_max g"
    using ug_next_more [OF ok more le] by metis
  have "unat (ug_idx_max g) < 2 ^ 63" using ok by (simp add: ug_ok_def)
  then have ui: "unat (?idx + 1) = Suc (unat ?idx)" and ad: "add_ck ?idx 1 = (Ok (?idx + 1) :: usize kres)"
    using le by (simp_all add: word_le_nat_alt unat_word_ariths add_ck_def)
  obtain b1 where "in_kernel (write_slot c (cap_replicate cap) ?idx) b = (Ok (), b1)"
    and b1: "b1 = b\<lparr>bt_kernel := write_entry (?a (unat ?idx)) (new_with_rawcap (cap_replicate cap)) (bt_kernel b)\<rparr>"
    and fr1: "slots_free c b1 (Suc (unat ?idx)) k" and new: "ks_cap (bt_kernel b1) (?a (unat ?idx)) = Some (cap_replicate cap)"
    and old: "\<And>j. j < unat ?idx \<Longrightarrow> ks_cap (bt_kernel b1) (?a j) = ks_cap (bt_kernel b) (?a j)"
    using write_free_slot [OF fr] by metis
  then have ws: "unwrap_st (in_kernel (write_slot c (cap_replicate cap) ?idx)) b = (Ok (), b1)" by (simp only: unwrap_st_Ok)
  let ?info = "\<lparr>ui_bits = block_size cap, ui_idx = ?idx, ui_is_device = False\<rparr>"
  define b2 where "b2 = b1\<lparr>bt_info := (bt_info b1)\<lparr>bi_untyped_infos := (bi_untyped_infos (bt_info b1))[n := ?info],
    bi_first_empty_idx := ?idx + 1\<rparr>\<rparr>"
  have st: "store_untyped c n g b = store_untyped c (Suc n) g' b2"
    using n ws by (subst store_untyped.simps) (simp add: nx bind_st_def lift_st_def modify_st_def ad b2_def)
  have m: "0 < ug_high g - ug_low g" using more by simp
  have inf: "bi_untyped_infos (bt_info b2) = (bi_untyped_infos (bt_info b))[n := ?info]" by (simp add: b2_def b1)
  have "get_address cap = kva_to_phys (ug_start_address g)" using cap(2) by (simp add: ug_low_def word_unat_eq_iff)
  then have "get_free_index cap = phys_to_kva (get_address cap)" using ok cap(3) by (simp add: ug_ok_def)
  then have blk: "untyped_block c b2 n (unat ?idx) (ug_low g) (ug_low g' - ug_low g)"
    using new cap lo' n len unfolding untyped_block_def inf by (intro exI [of _ cap]) (simp add: b2_def)
  show thesis
  proof (rule that [OF st ok' _ hi' _ _ _ _ mx' blk])
    show "ug_high g' - ug_low g' < 2 ^ (12 + k)" using block_count [OF m sz] bs lo' hi' by simp
  qed (use len fr1 ui old lo' bs inf in \<open>simp_all add: ix' b2_def slots_free_def\<close>)
qed

lemma untyped_block_cong:
  assumes "untyped_block c b i idx a n" and "bi_untyped_infos (bt_info b') ! i = bi_untyped_infos (bt_info b) ! i"
    and "ks_cap (bt_kernel b') (slot_addr (cnode_base c) idx) = ks_cap (bt_kernel b) (slot_addr (cnode_base c) idx)"
  shows "untyped_block c b' i idx a n"
  using assms by (simp add: untyped_block_def)

lemma store_untyped_none: "ug_next g = Ok None \<Longrightarrow> store_untyped c n g b = (Ok n, b)"
  by (subst store_untyped.simps) simp

lemma store_untyped_run:
  assumes "ug_ok g" and "ug_high g - ug_low g < 2 ^ (12 + k)" and "n + k \<le> 32"
    and "length (bi_untyped_infos (bt_info b)) = 32" and "slots_free c b (unat (ug_idx_start g)) k"
    and "unat (ug_idx_start g) + k \<le> Suc (unat (ug_idx_max g))"
  shows "\<exists>num b' addr. store_untyped c n g b = (Ok num, b') \<and> n \<le> num \<and> num \<le> n + k
    \<and> addr n = ug_low g \<and> addr num \<le> ug_high g \<and> ug_high g \<le> addr num + 4096
    \<and> tiles c b' n num addr (unat (ug_idx_start g))
    \<and> (\<forall>i < n. bi_untyped_infos (bt_info b') ! i = bi_untyped_infos (bt_info b) ! i)
    \<and> (\<forall>j < unat (ug_idx_start g). ks_cap (bt_kernel b') (slot_addr (cnode_base c) j) = ks_cap (bt_kernel b) (slot_addr (cnode_base c) j))"
  using assms
proof (induction k arbitrary: n g b)
  case 0
  then have "store_untyped c n g b = (Ok n, b)" by (intro store_untyped_none ug_next_done) auto
  then show ?case using "0.prems" by (intro exI [of _ n] exI [of _ b] exI [of _ "\<lambda>_. ug_low g"]) (auto simp: tiles_def ug_ok_def)
next
  case (Suc k)
  show ?case
  proof (cases "ug_high g \<le> ug_low g + 4096")
    case True
    then have "store_untyped c n g b = (Ok n, b)" using Suc.prems(1) by (intro store_untyped_none ug_next_done) auto
    then show ?thesis using Suc.prems True by (intro exI [of _ n] exI [of _ b] exI [of _ "\<lambda>_. ug_low g"]) (auto simp: tiles_def ug_ok_def)
  next
    case False
    let ?a = "\<lambda>j. slot_addr (cnode_base c) j" and ?infos = "\<lambda>b. bi_untyped_infos (bt_info b)"
    obtain g' b1 where st: "store_untyped c n g b = store_untyped c (Suc n) g' b1" and ok': "ug_ok g'"
      and sz: "ug_high g' - ug_low g' < 2 ^ (12 + k)" and hl: "ug_high g' = ug_high g" "ug_low g < ug_low g'"
      and len: "length (?infos b1) = 32" and ix: "unat (ug_idx_start g') = Suc (unat (ug_idx_start g))"
      and fr: "slots_free c b1 (unat (ug_idx_start g')) k" and mx: "ug_idx_max g' = ug_idx_max g"
      and blk: "untyped_block c b1 n (unat (ug_idx_start g)) (ug_low g) (ug_low g' - ug_low g)"
      and io: "\<And>i. i < n \<Longrightarrow> ?infos b1 ! i = ?infos b ! i"
      and co: "\<And>j. j < unat (ug_idx_start g) \<Longrightarrow> ks_cap (bt_kernel b1) (?a j) = ks_cap (bt_kernel b) (?a j)"
      using store_untyped_step [OF Suc.prems] False by (metis linorder_not_less)
    have "Suc n + k \<le> 32" "unat (ug_idx_start g') + k \<le> Suc (unat (ug_idx_max g'))" using Suc.prems ix mx by simp_all
    then obtain num b' addr where r: "store_untyped c (Suc n) g' b1 = (Ok num, b')" "Suc n \<le> num" "num \<le> Suc n + k"
        "addr (Suc n) = ug_low g'" "addr num \<le> ug_high g'" "ug_high g' \<le> addr num + 4096"
      and ti: "tiles c b' (Suc n) num addr (unat (ug_idx_start g'))"
      and i2: "\<forall>i < Suc n. ?infos b' ! i = ?infos b1 ! i"
      and c2: "\<forall>j < unat (ug_idx_start g'). ks_cap (bt_kernel b') (?a j) = ks_cap (bt_kernel b1) (?a j)"
      using Suc.IH [OF ok' sz _ len fr] by metis
    let ?addr = "addr(n := ug_low g)"
    have "untyped_block c b' n (unat (ug_idx_start g)) (ug_low g) (ug_low g' - ug_low g)"
      using untyped_block_cong [OF blk] i2 c2 ix by simp
    moreover have "addr i < addr (Suc i) \<and> untyped_block c b' i (unat (ug_idx_start g) + (i - n)) (addr i) (addr (Suc i) - addr i)"
      if "Suc n \<le> i" "i < num" for i
    proof -
      have "unat (ug_idx_start g') + (i - Suc n) = unat (ug_idx_start g) + (i - n)" using that ix by simp
      then show ?thesis using ti that unfolding tiles_def by metis
    qed
    ultimately have "tiles c b' n num ?addr (unat (ug_idx_start g))"
      using hl r(2,4) unfolding tiles_def by (metis Suc_leI add_0_right diff_self_eq_0 fun_upd_apply le_neq_implies_less n_not_Suc_n not_less_eq_eq le_refl)
    moreover have "\<forall>i < n. ?infos b' ! i = ?infos b ! i" using i2 io by simp
    moreover have "\<forall>j < unat (ug_idx_start g). ks_cap (bt_kernel b') (?a j) = ks_cap (bt_kernel b) (?a j)" using c2 co ix by simp
    ultimately show ?thesis using st r hl by (intro exI [of _ num] exI [of _ b'] exI [of _ ?addr]) (auto simp: fun_upd_def)
  qed
qed

text \<open>
  C34: Storing the untyped capabilities terminates with at most 32 of them. They cover the rest
  of memory, one block after the other, up to at most one page; each lies in its slot of the
  root CNode, is unused, and is described by its entry of the boot information.
\<close>

theorem untyped_handed_over:
  assumes "ug_ok g" and "ug_high g - ug_low g < 2 ^ 44"
    and "length (bi_untyped_infos (bt_info b)) = 32" and "slots_free c b (unat (ug_idx_start g)) 32"
    and "unat (ug_idx_start g) + 31 \<le> unat (ug_idx_max g)"
  shows "\<exists>num b' addr. store_untyped c 0 g b = (Ok num, b') \<and> num \<le> 32
    \<and> addr 0 = ug_low g \<and> addr num \<le> ug_high g \<and> ug_high g \<le> addr num + 4096
    \<and> tiles c b' 0 num addr (unat (ug_idx_start g))"
  using store_untyped_run [of g 32 0 b c] assms by auto

end
