(* ===== verification/Boot_Total.thy ===== *)
theory Boot_Total
  imports Boot_Load Boot_Untyped
begin

text \<open>
  The address space of the first program is built whenever there is enough memory: every
  step of \<open>create_address_space\<close> of \<open>init/root_server.rs\<close> succeeds when the resource manager
  has five pages and slots for every page of the image, one for the page itself, at most
  three for page tables, and a spare one.
\<close>

section \<open>Memory and slots\<close>

text \<open>The resource manager can still give \<open>n\<close> pages and \<open>n\<close> empty slots of the node \<open>c\<close>.\<close>

definition room :: "CapabilityData \<Rightarrow> boot \<Rightarrow> nat \<Rightarrow> bool" where
  "room c b n \<longleftrightarrow>
     (let m = bt_mgr b
      in unat (ba_start_addr (rm_bump_allocator m)) + 4096 * n \<le> unat (ba_end_addr (rm_bump_allocator m))
         \<and> unat (rm_cnode_satrt_idx m) + n \<le> Suc (unat (rm_cnode_idx_max m))
         \<and> slots_free c b (unat (rm_cnode_satrt_idx m)) n)"

lemma room_mono: "room c b n \<Longrightarrow> k \<le> n \<Longrightarrow> room c b k"
  by (auto simp: room_def Let_def slots_free_def)

lemma slot_at_None: "slot_at s a = None \<longleftrightarrow> ks_cap s a = None"
  by (simp add: slot_at_def split: option.splits)

lemma room_cong:
  assumes "room c b n" and "bt_mgr b' = bt_mgr b" and "ks_cap (bt_kernel b') = ks_cap (bt_kernel b)"
  shows "room c b' n"
  using assms by (simp add: room_def Let_def slots_free_def slot_at_None)

lemma alloc_page_room:
  assumes "room c b (Suc n)"
  obtains p ba where "alloc_page b = (Ok p, b\<lparr>bt_mgr := (bt_mgr b)\<lparr>rm_bump_allocator := ba\<rparr>\<rparr>)"
    "ba_end_addr ba = ba_end_addr (rm_bump_allocator (bt_mgr b))"
    "unat (ba_start_addr ba) = unat (ba_start_addr (rm_bump_allocator (bt_mgr b))) + 4096"
proof -
  let ?b = "rm_bump_allocator (bt_mgr b)"
  define ba where "ba = ?b\<lparr>ba_start_addr := ba_start_addr ?b + 4096\<rparr>"
  have le: "unat (ba_start_addr ?b) + 4096 \<le> unat (ba_end_addr ?b)" using assms by (simp add: room_def Let_def)
  moreover have "unat (ba_end_addr ?b) < 2 ^ 64" using unat_less_exp [of "ba_end_addr ?b"] by simp
  ultimately have u: "unat (ba_start_addr ba) = unat (ba_start_addr ?b) + 4096" by (simp add: ba_def unat_word_ariths)
  then have "allocate_page ?b = (Ok (ba_start_addr ?b, ba) :: (PhysAddr \<times> BumpAllocator) kres)"
    unfolding allocate_page_Ok using le by (simp add: ba_def)
  then show thesis using that u by (simp add: alloc_page_def) (simp add: ba_def)
qed

text \<open>A slot is taken and filled.\<close>

lemma fill_slot_room:
  assumes fr: "slots_free c b (unat (rm_cnode_satrt_idx (bt_mgr b))) (Suc n)"
    and mx: "unat (rm_cnode_satrt_idx (bt_mgr b)) + Suc n \<le> Suc (unat (rm_cnode_idx_max (bt_mgr b)))"
  obtains i j b1 s where "alloc_cnode_idx b = (Ok i, b1)" "b1 = b\<lparr>bt_mgr := (bt_mgr b)\<lparr>rm_cnode_satrt_idx := j\<rparr>\<rparr>"
    "unat j = Suc (unat (rm_cnode_satrt_idx (bt_mgr b)))"
    "write_slot c cap i (bt_kernel b) = (Ok (), s)" "slots_free c (b1\<lparr>bt_kernel := s\<rparr>) (unat j) n"
proof -
  let ?i = "rm_cnode_satrt_idx (bt_mgr b)"
  let ?b1 = "b\<lparr>bt_mgr := (bt_mgr b)\<lparr>rm_cnode_satrt_idx := ?i + 1\<rparr>\<rparr>"
  have "(2 :: nat) ^ unat (radix c) \<le> 2 ^ 32" using fr by (intro power_increasing) (auto simp: slots_free_def)
  then have u: "unat (?i + 1) = Suc (unat ?i)" using fr by (simp add: slots_free_def unat_word_ariths)
  have "alloc_cnode_idx b = (Ok ?i, ?b1)" using mx u by (simp add: alloc_cnode_idx_Ok word_le_nat_alt) (metis)
  moreover obtain b2 where "in_kernel (write_slot c cap ?i) b = (Ok (), b2)" "slots_free c b2 (Suc (unat ?i)) n"
    using write_free_slot [OF fr] by metis
  then obtain s where "write_slot c cap ?i (bt_kernel b) = (Ok (), s)" "slots_free c (b\<lparr>bt_kernel := s\<rparr>) (unat (?i + 1)) n"
    by (auto simp: in_kernel_eq u)
  then have "write_slot c cap ?i (bt_kernel b) = (Ok (), s)" "slots_free c (?b1\<lparr>bt_kernel := s\<rparr>) (unat (?i + 1)) n"
    by (simp_all add: slots_free_def)
  ultimately show thesis using that u by blast
qed

section \<open>Mapping succeeds\<close>

lemma new_caps_unmapped:
  "cap_init PageTable p 0 = (Ok (cap_new PageTable (kva_to_phys p) 0) :: CapabilityData kres)"
  "cap_init Page p 0 = (Ok (cap_new Page (kva_to_phys p) 0) :: CapabilityData kres)"
  "\<not> cap_is_mapped (cap_new k a 0)"
  by (simp_all add: cap_init_def cap_is_mapped_def cap_new_def set_address_def)

lemma new_page_table_room:
  assumes "room c b (Suc k)" and "fst (walk (bt_kernel b) (get_pagetable r) v) = Suc n"
  obtains b' where "new_page_table c r v b = (Ok n, b')" "room c b' k"
proof -
  obtain p ba where al: "alloc_page b = (Ok p, b\<lparr>bt_mgr := (bt_mgr b)\<lparr>rm_bump_allocator := ba\<rparr>\<rparr>)"
    and ba: "ba_end_addr ba = ba_end_addr (rm_bump_allocator (bt_mgr b))"
      "unat (ba_start_addr ba) = unat (ba_start_addr (rm_bump_allocator (bt_mgr b))) + 4096"
    by (rule alloc_page_room [OF assms(1)])
  let ?b1 = "b\<lparr>bt_mgr := (bt_mgr b)\<lparr>rm_bump_allocator := ba\<rparr>\<rparr>" and ?cap = "cap_new PageTable (kva_to_phys p) 0"
  have fr: "slots_free c ?b1 (unat (rm_cnode_satrt_idx (bt_mgr ?b1))) (Suc k)"
    "unat (rm_cnode_satrt_idx (bt_mgr ?b1)) + Suc k \<le> Suc (unat (rm_cnode_idx_max (bt_mgr ?b1)))"
    using assms(1) by (simp_all add: room_def Let_def slots_free_def)
  obtain i j b2 s where ix: "alloc_cnode_idx ?b1 = (Ok i, b2)" and b2: "b2 = ?b1\<lparr>bt_mgr := (bt_mgr ?b1)\<lparr>rm_cnode_satrt_idx := j\<rparr>\<rparr>"
    and j: "unat j = Suc (unat (rm_cnode_satrt_idx (bt_mgr ?b1)))" and ws: "write_slot c ?cap i (bt_kernel ?b1) = (Ok (), s)"
    and fr2: "slots_free c (b2\<lparr>bt_kernel := s\<rparr>) (unat j) k"
    by (rule fill_slot_room [OF fr])
  have "walk s (get_pagetable r) v = walk (bt_kernel b) (get_pagetable r) v"
    using walk_cong [OF write_slot_frame(1) [OF ws]] by simp
  then obtain e where w: "walk s (get_pagetable r) v = (Suc n, e)" using assms(2) by (metis prod.collapse)
  define t where "t = set_pte e (pte_write (kva_to_phys (get_pagetable ?cap)) PAGE_V) s"
  have pm: "page_table_cap_map ?cap r v s = (Ok (n, cap_set_mapped ?cap v), t)"
    by (simp add: page_table_cap_map_def new_caps_unmapped page_table_map_def w t_def)
  have run: "new_page_table c r v b = (Ok n, b2\<lparr>bt_kernel := t\<rparr>)"
    using ws by (simp add: new_page_table_def bind_st_def lift_st_def al new_caps_unmapped ix unwrap_st_def or_panic_def in_kernel_def b2 pm
        del: bind_st_simps)
  have "room c (b2\<lparr>bt_kernel := s\<rparr>) k"
    using assms(1) fr2 ba j by (simp add: room_def Let_def b2)
  then have "room c (b2\<lparr>bt_kernel := t\<rparr>) k" by (rule room_cong) (simp_all add: t_def set_pte_def)
  then show thesis using that run by blast
qed

lemma map_page_tables_room:
  assumes "boot_inv r b" and "user_addr v" and "room c b (Suc n + k)"
    and "fst (walk (bt_kernel b) (get_pagetable r) v) = Suc n"
  shows "\<exists>b'. map_page_tables c r v b = (Ok (), b') \<and> room c b' k"
  using assms
proof (induction n arbitrary: b)
  case 0
  obtain b' where "new_page_table c r v b = (Ok 0, b')" "room c b' k"
    by (rule new_page_table_room [of c b k r v 0]) (use 0 in simp_all)
  then show ?case by (simp add: map_page_tables.simps [of c r v b])
next
  case (Suc n)
  obtain b1 where b1: "new_page_table c r v b = (Ok (Suc n), b1)" "room c b1 (Suc n + k)"
    by (rule new_page_table_room [of c b "Suc n + k" r v "Suc n"]) (use Suc.prems in simp_all)
  note i = new_page_table_inv [OF Suc.prems(1,2) b1(1)]
  show ?case using Suc.IH [OF i(1) Suc.prems(2) b1(2) i(2)] b1(1) by (simp add: map_page_tables.simps [of c r v b])
qed

lemma page_map_vacant:
  assumes "translate s root v = None" and "fst (walk s root v) = 0"
  obtains t where "page_map p root v f s = (Ok (), t)" "ks_cap t = ks_cap s"
proof -
  obtain e where w: "walk s root v = (0, e)" using assms(2) by (metis prod.collapse)
  then have "\<not> pte_is_valid (ks_pte s e)" using assms(1) by (simp add: translate_def split: if_splits)
  then show thesis using that w by (simp add: page_map_def set_pte_def)
qed

lemma create_mapped_page_cap_room:
  assumes "boot_inv r b" and "user_addr v" and "room c b (3 + k)"
    and vac: "translate (bt_kernel b) (get_pagetable r) v = None"
  obtains pc b' where "create_mapped_page_cap c r p v f b = (Ok pc, b')" "room c b' k"
proof -
  let ?c = "cap_new Page (kva_to_phys p) 0" and ?root = "get_pagetable r"
  have page: "\<exists>pc b2. in_kernel (page_cap_map ?c r v f) b1 = (Ok pc, b2) \<and> room c b2 k"
    if rm: "room c b1 k" and nw: "translate (bt_kernel b1) ?root v = None" "fst (walk (bt_kernel b1) ?root v) = 0" for b1
  proof -
    obtain t where "page_map (get_pagetable ?c) ?root v f (bt_kernel b1) = (Ok (), t)" "ks_cap t = ks_cap (bt_kernel b1)"
      by (rule page_map_vacant [OF nw])
    then show ?thesis using room_cong [OF rm, of "b1\<lparr>bt_kernel := t\<rparr>"]
      by (simp add: in_kernel_def page_cap_map_def new_caps_unmapped)
  qed
  have "\<exists>pc b'. create_mapped_page_cap c r p v f b = (Ok pc, b') \<and> room c b' k"
  proof (cases "fst (walk (bt_kernel b) ?root v)")
    case 0
    obtain pc b2 where "in_kernel (page_cap_map ?c r v f) b = (Ok pc, b2)" "room c b2 k"
      using page [OF room_mono [OF assms(3)] vac 0] by auto
    then show ?thesis by (simp add: create_mapped_page_cap_def new_caps_unmapped bind_st_def lift_st_def del: bind_st_simps)
  next
    case (Suc n)
    then obtain e where w: "walk (bt_kernel b) ?root v = (Suc n, e)" by (metis prod.collapse)
    have "n \<le> 2" using walk_level [of "bt_kernel b" ?root v] Suc by simp
    then have "room c b (Suc n + k)" by (intro room_mono [OF assms(3)]) simp
    from map_page_tables_room [OF assms(1,2) this Suc] obtain b1 where
      b1: "map_page_tables c r v b = (Ok (), b1)" "room c b1 k" by blast
    have z: "fst (walk (bt_kernel b1) ?root v) = 0" and "translate (bt_kernel b1) ?root v = None"
      using map_page_tables_inv [OF assms(1,2) b1(1)] assms(2) vac by simp_all
    then obtain pc b2 where b2: "in_kernel (page_cap_map ?c r v f) b1 = (Ok pc, b2)" "room c b2 k"
      using page [OF b1(2)] by blast
    have "in_kernel (page_cap_map ?c r v f) b = (Err (kerr_val PageTableNotMappedYet (of_nat (Suc n))), b)"
      using w by (simp add: in_kernel_def page_cap_map_def new_caps_unmapped page_map_def bind_st_def lift_st_def del: bind_st_simps)
    then show ?thesis
      using b1(1) b2 by (simp add: create_mapped_page_cap_def new_caps_unmapped bind_st_def lift_st_def kerr_val_def unwrap_st_def del: bind_st_simps)
  qed
  then show thesis using that by blast
qed

section \<open>Loading succeeds\<close>

definition page_of :: "usize \<Rightarrow> nat" where
  "page_of u = unat u div 4096"

lemma page_of_iff: "page_of u = page_of v \<longleftrightarrow> drop_bit 12 u = drop_bit 12 v"
  by (simp add: page_of_def word_unat_eq_iff unat_drop_bit_eq drop_bit_nat_def)

lemma map_one_page_room:
  assumes inv: "boot_inv r b" and us: "unat v + 4096 * i < 2 ^ 47" and fl: "take_bit 10 f = f" and rm: "room c b (5 + k)"
    and vac: "translate (bt_kernel b) (get_pagetable r) (v + of_nat (4096 * i)) = None"
  obtains rem' b' where "map_one_page c r v p f i rem b = (Ok rem', b')" "room c b' k"
    "\<And>u. user_addr u \<Longrightarrow> page_of u \<noteq> page_of (v + of_nat (4096 * i)) \<Longrightarrow>
       translate (bt_kernel b') (get_pagetable r) u = translate (bt_kernel b) (get_pagetable r) u"
proof -
  define off where "off = (of_nat (4096 * i) :: usize)"
  let ?v = "v + off"
  have o: "unat (of_nat i :: usize) = i" "unat off = 4096 * i"
    unfolding off_def using us by (simp_all only: unat_of_nat) (simp_all add: take_bit_nat_eq_self)
  have ck: "mul_ck PAGE_SIZE (of_nat i) = (Ok off :: usize kres)" "addr_add v off = (Ok ?v :: usize kres)"
    using o us by (simp_all add: mul_ck_Ok PAGE_SIZE_def addr_add_def add_ck_Ok unat_word_ariths)
  have ua: "user_addr ?v" using o us by (simp add: user_addr_def unat_word_ariths)
  define b1 where "b1 = (if bt_max_vaddr b < ?v then b\<lparr>bt_max_vaddr := ?v\<rparr> else b)"
  have k1: "bt_kernel b1 = bt_kernel b" "bt_mgr b1 = bt_mgr b" by (simp_all add: b1_def)
  have i1: "boot_inv r b1" by (rule boot_inv_cong [OF inv]) (simp_all add: k1)
  have r1: "room c b1 (Suc (3 + Suc k))" using room_cong [OF rm, of b1] k1 by simp
  obtain p0 ba where al: "alloc_page b1 = (Ok p0, b1\<lparr>bt_mgr := (bt_mgr b1)\<lparr>rm_bump_allocator := ba\<rparr>\<rparr>)"
    and ba: "ba_end_addr ba = ba_end_addr (rm_bump_allocator (bt_mgr b1))"
      "unat (ba_start_addr ba) = unat (ba_start_addr (rm_bump_allocator (bt_mgr b1))) + 4096"
    by (rule alloc_page_room [OF r1])
  define b2 where "b2 = b1\<lparr>bt_mgr := (bt_mgr b1)\<lparr>rm_bump_allocator := ba\<rparr>\<rparr>"
  have k2: "bt_kernel b2 = bt_kernel b" by (simp add: b2_def k1)
  obtain a where a: "p0 = phys_to_kva a" "unat a < 2 ^ 47" "take_bit 12 a = 0" and i2: "boot_inv r b2"
    and f2: "\<And>x. x - phys_to_kva a < PAGE_SIZE \<Longrightarrow> \<not> in_free b2 x"
    using alloc_page_inv [OF i1 al [folded b2_def]] by metis
  have r2: "room c b2 (3 + Suc k)" using r1 ba by (simp add: room_def Let_def b2_def slots_free_def)
  obtain pc b3 where cm: "create_mapped_page_cap c r p0 ?v f b2 = (Ok pc, b3)" and r3: "room c b3 (Suc k)"
    by (rule create_mapped_page_cap_room [OF i2 ua r2]) (use vac in \<open>simp only: k2 off_def\<close>)
  note m = create_mapped_page_cap_inv [OF i2 ua a(2,3) fl f2 cm [unfolded a(1)]]
  have sl: "slots_free c b3 (unat (rm_cnode_satrt_idx (bt_mgr b3))) (Suc k)"
    "unat (rm_cnode_satrt_idx (bt_mgr b3)) + Suc k \<le> Suc (unat (rm_cnode_idx_max (bt_mgr b3)))"
    using r3 by (simp_all add: room_def Let_def)
  obtain idx j b4 s where ix: "alloc_cnode_idx b3 = (Ok idx, b4)" and b4: "b4 = b3\<lparr>bt_mgr := (bt_mgr b3)\<lparr>rm_cnode_satrt_idx := j\<rparr>\<rparr>"
    and j: "unat j = Suc (unat (rm_cnode_satrt_idx (bt_mgr b3)))" and ws: "write_slot c pc idx (bt_kernel b3) = (Ok (), s)"
    and fr: "slots_free c (b4\<lparr>bt_kernel := s\<rparr>) (unat j) k"
    by (rule fill_slot_room [OF sl])
  define t where "t = (if rem = 0 then s else copy_bytes (p + off) (phys_to_kva (get_address pc)) (min PAGE_SIZE rem) s)"
  have run: "map_one_page c r v p f i rem b = (Ok (if rem = 0 then rem else saturating_sub rem PAGE_SIZE), b4\<lparr>bt_kernel := t\<rparr>)"
    using ws by (simp add: map_one_page_def bind_st_def lift_st_def modify_st_def pure_st_def ck b1_def [symmetric] al b2_def [symmetric] cm ix
        unwrap_st_def in_kernel_def b4 t_def del: bind_st_simps)
  have rm4: "room c (b4\<lparr>bt_kernel := s\<rparr>) k" using r3 fr j by (simp add: room_def Let_def b4)
  have rt: "room c (b4\<lparr>bt_kernel := t\<rparr>) k"
    using rm4 by (rule room_cong) (simp_all add: t_def copy_bytes_def)
  have pte: "ks_pte t = ks_pte (bt_kernel b3)" using write_slot_frame(1) [OF ws] by (simp add: t_def copy_bytes_def)
  have "translate (bt_kernel (b4\<lparr>bt_kernel := t\<rparr>)) (get_pagetable r) u = translate (bt_kernel b) (get_pagetable r) u"
    if "user_addr u" "page_of u \<noteq> page_of ?v" for u
    using m(6) [of u] f2 that translate_cong [OF pte] by (simp add: page_of_iff k2)
  then show thesis using that [OF run rt] unfolding off_def by blast
qed

text \<open>The pages of a segment, and a range of them that is not mapped yet.\<close>

definition vacant :: "CapabilityData \<Rightarrow> boot \<Rightarrow> usize \<Rightarrow> nat \<Rightarrow> nat \<Rightarrow> bool" where
  "vacant r b v i n \<longleftrightarrow>
     (\<forall>j. i \<le> j \<and> j < n \<longrightarrow> translate (bt_kernel b) (get_pagetable r) (v + of_nat (4096 * j)) = None)"

lemma page_of_add:
  assumes "take_bit 12 v = 0" and "unat v + 4096 * j < 2 ^ 47"
  shows "page_of (v + of_nat (4096 * j)) = page_of v + j" and "user_addr (v + of_nat (4096 * j))"
proof -
  have u: "unat (v + of_nat (4096 * j)) = unat v + 4096 * j" by (rule unat_add_of_nat) (use assms(2) in simp)
  show "user_addr (v + of_nat (4096 * j))" unfolding user_addr_def u by (rule assms(2))
  show "page_of (v + of_nat (4096 * j)) = page_of v + j" unfolding page_of_def u by simp
qed

lemma map_pages_room:
  assumes "boot_inv r b" and al: "take_bit 12 v = 0" and us: "unat v + 4096 * n \<le> 2 ^ 47" and fl: "take_bit 10 f = f"
    and "room c b (5 * (n - i) + k)" and "vacant r b v i n"
  shows "\<exists>b'. map_pages c r v p f [i..<n] rem b = (Ok (), b') \<and> room c b' k
    \<and> (\<forall>u. user_addr u \<and> \<not> (page_of v + i \<le> page_of u \<and> page_of u < page_of v + n) \<longrightarrow>
         translate (bt_kernel b') (get_pagetable r) u = translate (bt_kernel b) (get_pagetable r) u)"
  using assms(1,5,6)
proof (induction "n - i" arbitrary: i rem b)
  case 0
  then show ?case by simp
next
  case (Suc d)
  let ?root = "get_pagetable r"
  have i: "i < n" using Suc.hyps(2) by simp
  have ui: "unat v + 4096 * j < 2 ^ 47" if "j < n" for j using us that by linarith
  have rm: "room c b (5 + (5 * (n - Suc i) + k))" using Suc.prems(2) i by (simp add: Suc_diff_Suc [symmetric] add.assoc)
  have vac: "translate (bt_kernel b) ?root (v + of_nat (4096 * i)) = None" using Suc.prems(3) i by (simp add: vacant_def)
  obtain rem1 b1 where one: "map_one_page c r v p f i rem b = (Ok rem1, b1)" and r1: "room c b1 (5 * (n - Suc i) + k)"
    and tr: "\<And>u. user_addr u \<Longrightarrow> page_of u \<noteq> page_of (v + of_nat (4096 * i)) \<Longrightarrow>
       translate (bt_kernel b1) ?root u = translate (bt_kernel b) ?root u"
    using map_one_page_room [OF Suc.prems(1) ui [OF i] fl rm vac] by metis
  have b1: "boot_inv r b1" using map_one_page_loads(1) [OF Suc.prems(1) al ui [OF i] fl one] by (simp add: loaded_def)
  have "translate (bt_kernel b1) ?root (v + of_nat (4096 * j)) = None" if "Suc i \<le> j" "j < n" for j
  proof -
    have "translate (bt_kernel b1) ?root (v + of_nat (4096 * j)) = translate (bt_kernel b) ?root (v + of_nat (4096 * j))"
      using page_of_add [OF al ui [OF i]] page_of_add [OF al ui [OF that(2)]] that by (intro tr) auto
    also have "\<dots> = None" using Suc.prems(3) that unfolding vacant_def by (metis Suc_leD)
    finally show ?thesis .
  qed
  then have v1: "vacant r b1 v (Suc i) n" by (simp add: vacant_def)
  have "d = n - Suc i" using Suc.hyps(2) by simp
  from Suc.hyps(1) [OF this b1 r1 v1, of rem1] obtain b' where
    rest: "map_pages c r v p f [Suc i..<n] rem1 b1 = (Ok (), b')" and rm': "room c b' k"
    and tr': "\<And>u. user_addr u \<Longrightarrow> \<not> (page_of v + Suc i \<le> page_of u \<and> page_of u < page_of v + n) \<Longrightarrow>
       translate (bt_kernel b') ?root u = translate (bt_kernel b1) ?root u" by blast
  have "map_pages c r v p f [i..<n] rem b = (Ok (), b')" using one rest i by (simp add: upt_conv_Cons)
  moreover have "translate (bt_kernel b') ?root u = translate (bt_kernel b) ?root u"
    if u: "user_addr u" "\<not> (page_of v + i \<le> page_of u \<and> page_of u < page_of v + n)" for u
  proof -
    have "page_of u \<noteq> page_of (v + of_nat (4096 * i))" using u(2) i page_of_add(1) [OF al ui [OF i]] by auto
    then show ?thesis using tr [OF u(1)] tr' [OF u(1)] u(2) by simp
  qed
  ultimately show ?case using rm' by blast
qed

text \<open>A segment with its number of pages; two segments share no page.\<close>

definition segment_pages :: "usize \<Rightarrow> nat" where
  "segment_pages ms = (unat ms + 4095) div 4096"

definition apart_segments :: "Elf64Phdr \<Rightarrow> Elf64Phdr \<Rightarrow> bool" where
  "apart_segments p q \<longleftrightarrow>
     page_of (p_vaddr p) + segment_pages (p_memsz p) \<le> page_of (p_vaddr q)
     \<or> page_of (p_vaddr q) + segment_pages (p_memsz q) \<le> page_of (p_vaddr p)"

lemma segment_pages_fit:
  assumes "take_bit 12 (v :: usize) = 0" and "unat v + unat ms \<le> 2 ^ 47"
  shows "unat v + 4096 * segment_pages ms \<le> 2 ^ 47"
proof -
  obtain j where j: "unat v = 4096 * j" using assms(1) by (auto simp: page_aligned_iff)
  have "4096 * segment_pages ms \<le> unat ms + 4095" by (simp add: segment_pages_def)
  then have "4096 * (j + segment_pages ms) < 4096 * (2 ^ 35 + 1)" using assms(2) j by simp
  then have "j + segment_pages ms < 2 ^ 35 + 1" by (simp only: mult_less_cancel1)
  then show ?thesis unfolding j by simp
qed

lemma boot_map_program_room:
  assumes "boot_inv r b" and al: "take_bit 12 v = 0" and us: "unat v + unat ms \<le> 2 ^ 47" and fl: "take_bit 10 f = f"
    and "room c b (5 * segment_pages ms + k)" and "vacant r b v 0 (segment_pages ms)"
  obtains b' where "boot_map_program c r v p ms fs f b = (Ok (), b')" "room c b' k"
    "\<And>u. user_addr u \<Longrightarrow> \<not> (page_of v \<le> page_of u \<and> page_of u < page_of v + segment_pages ms) \<Longrightarrow>
       translate (bt_kernel b') (get_pagetable r) u = translate (bt_kernel b) (get_pagetable r) u"
proof -
  have ps: "PAGE_SIZE = (2 :: usize) ^ 12" by (simp add: PAGE_SIZE_def)
  obtain n where n: "align_up ms (2 ^ 12) = (Ok n :: usize kres)"
    using us align_up_eq [of 12 ms, where 'a = KernelError] by (cases "unat ms + 2 ^ 12 < 2 ^ 64") auto
  note a = align_up_Ok [OF _ n, simplified]
  obtain q where q: "unat n = 4096 * q" using a(1) by (auto simp: dvd_def)
  have "segment_pages ms = q" using a(2,3) unfolding segment_pages_def q by linarith
  then have un: "unat (n div PAGE_SIZE) = segment_pages ms" by (simp add: unat_div PAGE_SIZE_def q)
  show thesis
    using map_pages_room [OF assms(1) al segment_pages_fit [OF al us] fl, of c 0 k p fs] assms(5,6) that
    by (auto simp: boot_map_program_def ps [symmetric] n [folded ps] un)
qed

lemma load_segments_room:
  assumes "boot_inv r b \<and> image_at m a n b" and "\<And>p. p \<in> set ps \<Longrightarrow> segment_ok a n (p_vaddr p) (a + p_offset p) (p_memsz p) (p_filesz p)"
    and "sorted_wrt apart_segments ps" and "room c b (5 * sum_list (map (\<lambda>p. segment_pages (p_memsz p)) ps) + k)"
    and "\<And>p. p \<in> set ps \<Longrightarrow> vacant r b (p_vaddr p) 0 (segment_pages (p_memsz p))"
  shows "\<exists>b'. run_all (map (\<lambda>p. boot_map_program c r (p_vaddr p) (a + p_offset p) (p_memsz p) (p_filesz p) (mapper_get_flags (p_flags p))) ps) b
    = (Ok (), b')"
  using assms
proof (induction ps arbitrary: b)
  case (Cons q qs)
  let ?pages = "\<lambda>p. segment_pages (p_memsz p)" and ?root = "get_pagetable r"
  let ?run = "boot_map_program c r (p_vaddr q) (a + p_offset q) (p_memsz q) (p_filesz q) (mapper_get_flags (p_flags q))"
  have fits: "segment_ok a n (p_vaddr p) (a + p_offset p) (p_memsz p) (p_filesz p)" if "p \<in> set (q # qs)" for p using Cons.prems(2) that .
  have s: "take_bit 12 (p_vaddr p) = 0" "unat (p_vaddr p) + unat (p_memsz p) \<le> 2 ^ 47" if "p \<in> set (q # qs)" for p
    using fits [OF that] by (simp_all add: segment_ok_def)
  have q: "q \<in> set (q # qs)" by simp
  have rm: "room c b (5 * ?pages q + (5 * sum_list (map ?pages qs) + k))" using Cons.prems(4) by (simp add: algebra_simps)
  obtain b1 where one: "?run b = (Ok (), b1)" and r1: "room c b1 (5 * sum_list (map ?pages qs) + k)"
    and tr: "\<And>u. user_addr u \<Longrightarrow> \<not> (page_of (p_vaddr q) \<le> page_of u \<and> page_of u < page_of (p_vaddr q) + ?pages q) \<Longrightarrow>
       translate (bt_kernel b1) ?root u = translate (bt_kernel b) ?root u"
    using boot_map_program_room [OF conjunct1 [OF Cons.prems(1)] s [OF q] mapper_flags_low rm Cons.prems(5) [OF q]] by metis
  have i1: "boot_inv r b1 \<and> image_at m a n b1" by (rule root_server_loader.segment_inv [OF Cons.prems(1) fits [OF q] one])
  have "vacant r b1 (p_vaddr p) 0 (?pages p)" if p: "p \<in> set qs" for p
    unfolding vacant_def
  proof (intro allI impI)
    fix j assume j: "0 \<le> j \<and> j < ?pages p"
    have ap: "apart_segments q p" using Cons.prems(3) p by simp
    have sp: "take_bit 12 (p_vaddr p) = 0" "unat (p_vaddr p) + unat (p_memsz p) \<le> 2 ^ 47" using s [of p] p by simp_all
    have "unat (p_vaddr p) + 4096 * j < 2 ^ 47" using segment_pages_fit [OF sp] j by linarith
    note pa = page_of_add [OF sp(1) this]
    have "\<not> (page_of (p_vaddr q) \<le> page_of (p_vaddr p + of_nat (4096 * j)) \<and> page_of (p_vaddr p + of_nat (4096 * j)) < page_of (p_vaddr q) + ?pages q)"
      using ap j unfolding pa(1) apart_segments_def by linarith
    from tr [OF pa(2) this] show "translate (bt_kernel b1) ?root (p_vaddr p + of_nat (4096 * j)) = None"
      using Cons.prems(5) [of p] p j by (simp only: vacant_def) simp
  qed
  then obtain b' where "run_all (map (\<lambda>p. boot_map_program c r (p_vaddr p) (a + p_offset p) (p_memsz p) (p_filesz p) (mapper_get_flags (p_flags p))) qs) b1
      = (Ok (), b')"
    using Cons.IH [OF i1 _ _ r1] Cons.prems(2,3) by auto
  then show ?case using one by simp
qed simp

section \<open>The address space is created\<close>

lemma write_slot_room:
  assumes "slots_free c b (unat i) 1" and "i < rm_cnode_satrt_idx (bt_mgr b)" and "room c b n" and "bt_mgr b' = bt_mgr b"
    and "ks_cap (bt_kernel b') = ks_cap (bt_kernel b)"
  obtains s where "write_slot c cap i (bt_kernel b') = (Ok (), s)" "room c (b'\<lparr>bt_kernel := s\<rparr>) n"
proof -
  have fr: "slots_free c b' (unat i) (Suc 0)" using assms(1,5) by (simp add: slots_free_def slot_at_None)
  obtain b2 where w: "in_kernel (write_slot c cap i) b' = (Ok (), b2)"
    and b2: "b2 = b'\<lparr>bt_kernel := write_entry (slot_addr (cnode_base c) (unat i)) (new_with_rawcap cap) (bt_kernel b')\<rparr>"
    using write_free_slot [OF fr] by metis
  let ?s = "write_entry (slot_addr (cnode_base c) (unat i)) (new_with_rawcap cap) (bt_kernel b')"
  let ?a = "\<lambda>j. slot_addr (cnode_base c) j" and ?k = "unat (rm_cnode_satrt_idx (bt_mgr b))"
  have sf: "slots_free c b ?k n" using assms(3) by (simp add: room_def Let_def)
  have p: "(2 :: nat) ^ unat (radix c) \<le> 2 ^ 32" using fr by (intro power_increasing) (auto simp: slots_free_def)
  have "slot_at ?s (?a j) = None" if "?k \<le> j" "j < ?k + n" for j
  proof -
    have "j < 2 ^ 32" "unat i < j" using sf that p assms(2) by (auto simp: slots_free_def word_less_nat_alt)
    then have "?a j \<noteq> ?a (unat i)" using slot_addr_inj [of "cnode_base c" j "unat i"] by auto
    then show ?thesis using sf that by (simp add: write_entry_def assms(5) slots_free_def slot_at_None)
  qed
  then have "slots_free c b2 ?k n" using sf unfolding slots_free_def b2 by simp
  then have "room c b2 n" using assms(3,4) by (simp add: room_def Let_def b2)
  moreover obtain s where "write_slot c cap i (bt_kernel b') = (Ok (), s)" "b2 = b'\<lparr>bt_kernel := s\<rparr>" using w by (auto simp: in_kernel_eq)
  ultimately show thesis using that by blast
qed

text \<open>
  C40: With five pages and slots for every page of an image whose segments are page aligned and
  disjoint, creating the address space of the first program succeeds, and the program finds
  every byte of its loadable segments at its address: the bytes of the image, and zero behind
  the contents of the file.
\<close>

theorem address_space_created:
  assumes fs: "fresh_space im mem t b" and el: "\<forall>k < n. \<not> in_free b (elf + of_nat k)"
    and fits: "\<forall>p \<in> set (program_headers (ks_byte (bt_kernel b)) elf). loadable p \<longrightarrow>
           segment_ok elf n (p_vaddr p) (elf + p_offset p) (p_memsz p) (p_filesz p)"
    and ap: "sorted_wrt apart_segments (filter loadable (program_headers (ks_byte (bt_kernel b)) elf))"
    and rm: "room c b (5 * sum_list (map (\<lambda>p. segment_pages (p_memsz p))
           (filter loadable (program_headers (ks_byte (bt_kernel b)) elf))))"
    and sl: "slots_free c b (unat ROOT_VSPACE_IDX) 1" and ix: "ROOT_VSPACE_IDX < rm_cnode_satrt_idx (bt_mgr b)"
  shows "\<exists>cap max_vaddr b'. create_address_space im mem c elf b = (Ok (cap, max_vaddr), b')
    \<and> (\<forall>p k. p \<in> set (program_headers (ks_byte (bt_kernel b)) elf) \<and> loadable p \<and> k < unat (p_memsz p) \<longrightarrow>
         user_byte (bt_kernel b') (get_pagetable cap) (p_vaddr p + of_nat k) =
           Some (if k < unat (p_filesz p) then ks_byte (bt_kernel b) (elf + p_offset p + of_nat k) else 0))"
proof -
  let ?m = "ks_byte (bt_kernel b)" and ?t = "phys_to_kva t"
  let ?ps = "filter loadable (program_headers ?m elf)"
  have t: "rsm_vspace mem = ?t" "unat t < 2 ^ 47" using fs by (auto simp: fresh_space_def)
  define cap0 where "cap0 = cap_new PageTable t 0"
  define cap where "cap = cap_set_root (cap_set_mapped cap0 ?t)"
  have g0: "get_pagetable cap0 = ?t" using t(2) by (simp add: cap0_def user_table_cap)
  have g: "get_pagetable cap = ?t" using g0 by (simp add: cap_def get_pagetable_def get_address_def cap_set_root_def cap_set_mapped_def)
  define s1 where "s1 = copy_global_mapping im ?t (zero_page_table ?t (bt_kernel b))"
  have mk: "make_as_root im cap0 (zero_page_table ?t (bt_kernel b)) = (Ok cap, s1)"
    by (simp add: make_as_root_def g0 cap0_def [symmetric] s1_def cap_def new_caps_unmapped(3) [of PageTable t, folded cap0_def])
  have k1: "ks_cap s1 = ks_cap (bt_kernel b)" "ks_byte s1 = ?m"
    by (simp_all add: s1_def copy_global_mapping_def zero_page_table_def)
  obtain s2 where ws: "write_slot c cap ROOT_VSPACE_IDX s1 = (Ok (), s2)"
    and r2: "room c (b\<lparr>bt_kernel := s2\<rparr>) (5 * sum_list (map (\<lambda>p. segment_pages (p_memsz p)) ?ps))"
    using write_slot_room [OF sl ix rm, of "b\<lparr>bt_kernel := s1\<rparr>" cap] k1(1) by auto
  let ?b = "b\<lparr>bt_kernel := s2, bt_max_vaddr := 0\<rparr>"
  have k2: "ks_pte s2 = ks_pte s1" "ks_byte s2 = ?m" using write_slot_frame [OF ws] k1(2) by simp_all
  note fi = fresh_space_inv [OF fs g, of ?b]
  have inv: "boot_inv cap ?b" using fi(1) k2 by (simp add: s1_def)
  have emp: "translate s2 (get_pagetable cap) u = None" if "user_addr u" for u using fi(2) [OF _ _ _ that] k2 by (simp add: s1_def)
  have im: "image_at ?m elf n ?b" using el k2(2) by (simp add: image_at_def in_free_def)
  have vac: "vacant cap ?b (p_vaddr p) 0 (segment_pages (p_memsz p))" if "p \<in> set ?ps" for p
  proof -
    have s: "take_bit 12 (p_vaddr p) = 0" "unat (p_vaddr p) + unat (p_memsz p) \<le> 2 ^ 47" using fits that by (auto simp: segment_ok_def)
    have "user_addr (p_vaddr p + of_nat (4096 * j))" if "j < segment_pages (p_memsz p)" for j
      using segment_pages_fit [OF s] that by (intro page_of_add(2) [OF s(1)]) linarith
    then show ?thesis using emp unfolding vacant_def by simp
  qed
  have r3: "room c ?b (5 * sum_list (map (\<lambda>p. segment_pages (p_memsz p)) ?ps) + 0)" using room_cong [OF r2, of ?b] by simp
  obtain b' where "run_all (map (\<lambda>p. boot_map_program c cap (p_vaddr p) (elf + p_offset p) (p_memsz p) (p_filesz p) (mapper_get_flags (p_flags p))) ?ps) ?b
      = (Ok (), b')"
    using load_segments_room [OF conjI [OF inv im] _ ap r3 vac] fits by auto
  then have ms: "map_self mapper_get_flags (boot_map_program c cap) ?m elf ?b = (Ok (), b')"
    using map_self_from_run [of 0 "unat (e_phnum (read_hdr ?m elf))" ?m elf mapper_get_flags "boot_map_program c cap"]
    by (simp add: map_self_def pheaders_new_def)
  have c0: "cap_init PageTable ?t 0 = (Ok cap0 :: CapabilityData kres)" using t by (simp add: cap_init_def cap0_def)
  have run: "create_address_space im mem c elf b = (Ok (cap, bt_max_vaddr b'), b')"
    using ws ms mk
    by (simp add: create_address_space_def bind_st_def lift_st_def modify_st_def gets_st_def pure_st_def in_kernel_def unwrap_st_def c0 t(1) k2(2)
        del: bind_st_simps)
  show ?thesis
    using run create_address_space_loads [OF fs el fits run] by blast
qed

end
