(* ===== verification/Boot_Thread.thy ===== *)
theory Boot_Thread
imports Boot_Load
begin

text \<open>
  The first thread: what \<open>create_initial_thread\<close>, \<open>init_root_server\<close> and the entry of
  the kernel leave in the scheduler and in the registers that the first return to user
  mode loads.
\<close>

section \<open>Programs that leave the threads alone\<close>

named_theorems calm_intros "rules that show that a program of the boot stage leaves the threads alone"

definition calm :: "'a bprog \<Rightarrow> bool" where
  "calm m \<longleftrightarrow> (\<forall>b r b'. m b = (r, b') \<longrightarrow> same_sched (bt_kernel b) (bt_kernel b'))"

definition calm_kernel :: "'a kprog \<Rightarrow> bool" where
  "calm_kernel m \<longleftrightarrow> (\<forall>s r t. m s = (r, t) \<longrightarrow> same_sched s t)"

lemma same_sched_refl [simp]: "same_sched s s"
  by (simp add: same_sched_def)

lemma calm_bind [calm_intros]: "calm m \<Longrightarrow> (\<And>x. calm (f x)) \<Longrightarrow> calm (bind_st m f)"
  unfolding calm_def bind_st_def by (auto split: prod.splits run.splits) (metis same_sched_trans)+

lemma calm_simple [calm_intros]:
  "calm (pure_st x)" "calm (lift_st r)" "calm (gets_st g)" "calm (set_info f)"
  "calm alloc_page" "calm alloc_cnode_idx"
  by (auto simp: calm_def set_info_def alloc_page_def alloc_cnode_idx_def bind_st_def modify_st_def lift_st_def pure_st_def gets_st_def
      split: run.splits prod.splits)

lemma calm_unwrap [calm_intros]: "calm m \<Longrightarrow> calm (unwrap_st m)" "calm m \<Longrightarrow> calm (or_panic m)"
  by (auto simp: calm_def unwrap_st_def or_panic_def split: prod.splits run.splits)

lemma calm_in_kernel [calm_intros]: "calm_kernel m \<Longrightarrow> calm (in_kernel m)"
  by (auto simp: calm_def calm_kernel_def in_kernel_eq)

lemma calm_modify [calm_intros]: "(\<And>b. bt_kernel (f b) = bt_kernel b) \<Longrightarrow> calm (modify_st f)"
  by (simp add: calm_def modify_st_def)

lemma calm_if [calm_intros]: "(P \<Longrightarrow> calm m) \<Longrightarrow> (\<not> P \<Longrightarrow> calm n) \<Longrightarrow> calm (if P then m else n)"
  by simp

lemma calm_kernel_bind [calm_intros]: "calm_kernel m \<Longrightarrow> (\<And>x. calm_kernel (f x)) \<Longrightarrow> calm_kernel (bind_st m f)"
  unfolding calm_kernel_def bind_st_def by (auto split: prod.splits run.splits) (metis same_sched_trans)+

lemma calm_kernel_simple [calm_intros]:
  "calm_kernel (pure_st x)" "calm_kernel (lift_st r)" "(\<And>s. same_sched s (g s)) \<Longrightarrow> calm_kernel (modify_st g)"
  by (auto simp: calm_kernel_def)

lemma calm_kernel_ops [calm_intros]:
  "calm_kernel (write_slot c new i)" "calm_kernel (page_table_cap_map c r v)" "calm_kernel (page_cap_map c r v f)"
  "calm_kernel (make_as_root im c)" "calm_kernel (modify_st (zero_page_table a))" "calm_kernel (modify_st (copy_bytes x y n))"
  unfolding calm_kernel_def
  by (auto simp: write_slot_frame page_table_cap_map_def page_cap_map_def page_table_map_def page_map_def make_as_root_def
      bind_st_def lift_st_def pure_st_def modify_st_def ensure_def zero_page_table_def copy_bytes_def copy_global_mapping_def
      same_sched_def set_pte_def Let_def dest: write_slot_frame(3) split: prod.splits run.splits if_splits)

lemma calm_new_page_table [calm_intros]: "calm (new_page_table c r v)"
  unfolding new_page_table_def by (intro calm_intros) (auto intro: calm_intros split: prod.splits)

lemma calm_map_page_tables [calm_intros]: "calm (map_page_tables c r v)"
proof -
  have "same_sched (bt_kernel b) (bt_kernel (snd (map_page_tables c r v b)))" for b
  proof (induction c r v b rule: map_page_tables.induct)
    case (1 c r v b)
    then show ?case
      using calm_new_page_table [of c r v] unfolding calm_def
      by (subst map_page_tables.simps) (auto split: prod.splits run.splits, (metis same_sched_trans)+)
  qed
  then show ?thesis by (metis calm_def snd_conv)
qed

lemma calm_create_mapped_page_cap [calm_intros]: "calm (create_mapped_page_cap c r p v f)"
proof -
  have m: "calm (in_kernel (page_cap_map pc r v f))" for pc by (intro calm_intros)
  have "calm (bind_st (map_page_tables c r v) (\<lambda>_. unwrap_st (in_kernel (page_cap_map pc r v f))))" for pc
    by (intro calm_intros)
  then have "calm (\<lambda>b. case in_kernel (page_cap_map pc r v f) b of
      (Err e, b') \<Rightarrow> if e_kind e = PageTableNotMappedYet
        then bind_st (map_page_tables c r v) (\<lambda>_. unwrap_st (in_kernel (page_cap_map pc r v f))) b'
        else (Panic ExplicitPanic, b')
    | x \<Rightarrow> x)" for pc
    using m [of pc] unfolding calm_def by (auto split: prod.splits run.splits if_splits) (metis same_sched_trans)
  then show ?thesis unfolding create_mapped_page_cap_def by (intro calm_intros)
qed

lemma calm_map_pages [calm_intros]: "calm (map_pages c r v p f is rem)"
  by (induction "is" arbitrary: rem) (auto simp: map_one_page_def intro!: calm_intros)

lemma calm_run_all: "(\<And>p. p \<in> set ps \<Longrightarrow> calm p) \<Longrightarrow> calm (run_all ps)"
  by (induction ps) (auto intro: calm_intros)

lemma calm_map_self [calm_intros]: "calm (map_self mapper_get_flags (boot_map_program c r) m a)"
  using map_self_from_run [of 0 "unat (e_phnum (read_hdr m a))" m a mapper_get_flags "boot_map_program c r"]
  by (auto simp: map_self_def pheaders_new_def boot_map_program_def intro!: calm_run_all calm_intros)

lemma calm_create_address_space [calm_intros]: "calm (create_address_space im mem c a)"
  unfolding create_address_space_def by (intro calm_intros) simp

lemma calm_frames [calm_intros]:
  "calm (create_ipc_buf_frame mem c r v)" "calm (create_boot_info_frame mem c r v)"
  unfolding create_ipc_buf_frame_def create_boot_info_frame_def by (intro calm_intros)+

lemma calm_store_untyped [calm_intros]: "calm (store_untyped c n g)"
proof (induction c n g rule: store_untyped.induct)
  case (1 c n g)
  then show ?case
    by (subst store_untyped.simps) (auto split: run.splits option.splits intro!: calm_intros)
qed

section \<open>The thread of the root server\<close>

text \<open>The registers and the address space of the first thread.\<close>

definition root_thread :: "usize \<Rightarrow> usize \<Rightarrow> CapabilityData \<Rightarrow> ThreadInfo \<Rightarrow> bool" where
  "root_thread entry a0 vs i \<longleftrightarrow>
     registers i = null_registers\<lparr>rg_sstatus := SSTATUS_SPIE, rg_sepc := entry, rg_a0 := a0\<rparr>
     \<and> (\<exists>e. vspace i = Some e \<and> ent_cap e = vs)"

lemma root_entry_frame:
  assumes "root_entry im c idx cap s = (Ok e, t)"
  shows "same_sched s t" and "\<exists>ent. e = Some ent \<and> ent_cap ent = cap" and "ks_byte t = ks_byte s"
proof -
  obtain slot where "linked_entry im (cap_replicate cap) slot s = (e, t)"
    using assms by (auto simp: root_entry_def bind_st_eq_Ok split: option.splits prod.splits)
  then show "same_sched s t" and "\<exists>ent. e = Some ent \<and> ent_cap ent = cap" and "ks_byte t = ks_byte s"
    by (auto simp: linked_entry_def mdb_insert_def set_next_def set_node_def set_node1_def write_entry_def new_with_rawcap_def slot_at_def Let_def
        same_sched_def split: option.splits)
qed

lemma create_root_tcb_Ok:
  assumes "create_root_tcb im mem c vs ipc entry s = (Ok cap, t)" and "rsm_tcb mem = phys_to_kva a" and "unat a < 2 ^ 47"
  shows "get_tcb cap = rsm_tcb mem"
    and "root_thread entry 0 vs (thread t (rsm_tcb mem))"
    and "loose (ks_tcb t) (rsm_tcb mem)" and "u \<noteq> rsm_tcb mem \<Longrightarrow> ks_tcb t u = ks_tcb s u"
    and "ks_runqueue t = ks_runqueue s" "ks_current t = ks_current s" and "ks_byte t = ks_byte s"
proof -
  let ?t = "rsm_tcb mem" and ?f = "\<lambda>r. r\<lparr>rg_sstatus := SSTATUS_SPIE, rg_sepc := entry\<rparr>"
  let ?s0 = "s\<lparr>ks_tcb := (ks_tcb s)(?t := ListItem_new default_thread)\<rparr>"
  obtain e1 e2 e3 u1 u2 u3 where r1: "root_entry im c ROOT_CNODE_IDX c (update_registers ?t ?f ?s0) = (Ok e1, u1)"
    and r2: "root_entry im c ROOT_VSPACE_IDX vs (update_thread ?t (\<lambda>i. i\<lparr>root_cnode := e1\<rparr>) u1) = (Ok e2, u2)"
    and r3: "root_entry im c ROOT_IPC_BUFFER ipc (update_thread ?t (\<lambda>i. i\<lparr>vspace := e2\<rparr>) u2) = (Ok e3, u3)"
    and ci: "cap_init Tcb ?t 0 = (Ok cap :: CapabilityData kres)"
    and ws: "write_slot c (cap_replicate cap) ROOT_TCB_IDX (update_thread ?t (\<lambda>i. i\<lparr>ipc_buffer := e3\<rparr>) u3) = (Ok (), t)"
    using assms(1) by (auto simp: create_root_tcb_def Let_def bind_st_eq_Ok lift_st_def modify_st_def pure_st_def unwrap_st_Ok)
  note f = root_entry_frame [OF r1] root_entry_frame [OF r2] root_entry_frame [OF r3] write_slot_frame [OF ws]
  have "cap = cap_new Tcb a 0" using ci assms(2,3) by (simp add: cap_init_def)
  then show "get_tcb cap = ?t" using assms(2,3) by (simp add: get_tcb_def get_address_new)
  have tcb: "ks_tcb t = (ks_tcb s)(?t := \<lparr>item_value = default_thread\<lparr>registers := ?f null_registers, root_cnode := e1, vspace := e2, ipc_buffer := e3\<rparr>,
      item_next = None\<rparr>)"
    using f(1,4,7,12) by (auto simp: same_sched_def update_registers_def update_thread_def thread_def ListItem_new_def default_thread_def)
  show "root_thread entry 0 vs (thread t ?t)" using f(5) by (auto simp: root_thread_def thread_def tcb null_registers_def)
  show "loose (ks_tcb t) ?t" "u \<noteq> ?t \<Longrightarrow> ks_tcb t u = ks_tcb s u" by (simp_all add: tcb loose_def next_is_none_def)
  show "ks_runqueue t = ks_runqueue s" "ks_current t = ks_current s" "ks_byte t = ks_byte s"
    using f by (simp_all add: same_sched_def update_registers_def update_thread_def)
qed


lemma store_untyped_byte: "store_untyped c n g b = (r, b') \<Longrightarrow> ks_byte (bt_kernel b') = ks_byte (bt_kernel b)"
proof (induction c n g arbitrary: b rule: store_untyped.induct)
  case (1 c n g)
  have ws: "ks_byte t = ks_byte u" if "write_slot c cap i u = (x, t)" for cap i x t and u by (rule write_slot_frame(2) [OF that])
  from "1.prems" show ?case
    by (subst (asm) store_untyped.simps)
      (auto simp: bind_st_def lift_st_def modify_st_def pure_st_def unwrap_st_def in_kernel_eq dest!: "1.IH" dest: ws
        split: run.splits option.splits prod.splits if_splits)
qed

lemma create_address_space_cap:
  assumes "create_address_space im mem c a b = (Ok (vs, m), b')" and "rsm_vspace mem = phys_to_kva v" and "unat v < 2 ^ 47"
  shows "get_pagetable vs = rsm_vspace mem" and "cap_is_root vs"
proof -
  obtain cap0 s1 where c0: "cap_init PageTable (rsm_vspace mem) 0 = (Ok cap0 :: CapabilityData kres)"
    and mk: "make_as_root im cap0 (zero_page_table (rsm_vspace mem) (bt_kernel b)) = (Ok vs, s1)"
    using assms(1)
    by (auto simp: create_address_space_def bind_st_eq_Ok lift_st_def modify_st_def pure_st_def gets_st_def unwrap_st_Ok in_kernel_eq split: prod.splits)
  have "cap0 = cap_new PageTable v 0" using c0 assms(2,3) by (simp add: cap_init_def)
  then have "get_pagetable cap0 = rsm_vspace mem" using assms(2,3) by (simp add: user_table_cap)
  then show "get_pagetable vs = rsm_vspace mem" and "cap_is_root vs"
    using mk by (auto simp: make_as_root_def bind_st_eq_Ok get_pagetable_def get_address_def cap_set_root_def cap_set_mapped_def
        cap_is_root_def and_one_eq odd_iff_mod_2_eq_one [symmetric] even_drop_bit_iff_not_bit bit_simps)
qed

lemma create_initial_thread_runs:
  assumes "create_initial_thread im mem elf b = (Ok (), b')"
    and "run_queue (bt_kernel b) []" and "\<not> is_runnable (thread (bt_kernel b) (img_idle_thread im))"
    and "rsm_tcb mem = phys_to_kva a" "unat a < 2 ^ 47" and "rsm_vspace mem = phys_to_kva v" "unat v < 2 ^ 47"
    and "rsm_tcb mem \<noteq> img_idle_thread im"
  shows "\<exists>vs. get_pagetable vs = rsm_vspace mem \<and> cap_is_root vs
    \<and> run_queue (bt_kernel b') [rsm_tcb mem] \<and> ks_current (bt_kernel b') = img_idle_thread im
    \<and> \<not> is_runnable (thread (bt_kernel b') (img_idle_thread im)) \<and> is_runnable (thread (bt_kernel b') (rsm_tcb mem))
    \<and> root_thread (e_entry (read_hdr (ks_byte (bt_kernel b')) elf)) (bi_ipc_buffer_addr (bt_info b') + PAGE_SIZE) vs
        (thread (bt_kernel b') (rsm_tcb mem))"
proof -
  have two: "mul_ck PAGE_SIZE 2 = (Ok (PAGE_SIZE * 2) :: usize kres)" by (simp add: mul_ck_def PAGE_SIZE_def)
  obtain c0 b1 vs mx b2 ipc b3 v1 bf b4 tcap s6 num b7 v2 where
    cn: "in_kernel (create_root_cnode mem) b = (Ok c0, b1)"
    and as: "create_address_space im mem c0 elf b1 = (Ok (vs, mx), b2)"
    and ip: "create_ipc_buf_frame mem c0 vs mx b2 = (Ok ipc, b3)"
    and v1: "addr_add mx PAGE_SIZE = (Ok v1 :: usize kres)"
    and bi: "create_boot_info_frame mem c0 vs v1 b3 = (Ok bf, b4)"
    and tc: "create_root_tcb im mem c0 vs ipc (e_entry (read_hdr (ks_byte (create_idle_thread im (img_stack_top im) (bt_kernel b4))) elf))
          (create_idle_thread im (img_stack_top im) (bt_kernel b4)) = (Ok tcap, s6)"
    and su: "store_untyped c0 0 (rm_finalize (bt_mgr b4)) (b4\<lparr>bt_info := default_boot_info, bt_kernel := s6\<rparr>) = (Ok num, b7)"
    and v2: "addr_add mx (PAGE_SIZE * 2) = (Ok v2 :: usize kres)"
    and b': "bt_kernel b' = make_runnable tcap (set_register tcap [(A0, v2)] (bt_kernel b7))" "bi_ipc_buffer_addr (bt_info b') = v1"
    using assms(1) unfolding create_initial_thread_def
    by (auto simp: bind_st_eq_Ok lift_st_def modify_st_def gets_st_def set_info_def in_kernel_eq [of "modify_st f" for f]
        in_kernel_eq [of "create_root_tcb im m c vs ipc e" for m c vs ipc e] two split: prod.splits)
  let ?t = "rsm_tcb mem" and ?i = "img_idle_thread im" and ?s = "bt_kernel b" and ?s4 = "bt_kernel b4" and ?s7 = "bt_kernel b7"
  have "calm_kernel (unwrap_st (write_slot c new i))" for c new i
    by (auto simp: calm_kernel_def unwrap_st_def dest: write_slot_frame(3) split: prod.splits)
  then have "calm_kernel (create_root_cnode mem)" unfolding create_root_cnode_def Let_def by (intro calm_intros)
  then have "calm (in_kernel (create_root_cnode mem))" by (intro calm_intros)
  then have k4: "same_sched ?s ?s4"
    using cn as ip bi calm_create_address_space calm_frames same_sched_trans unfolding calm_def by metis
  note r = create_root_tcb_Ok [OF tc assms(4,5)] and p = create_address_space_cap [OF as assms(6,7)]
  have k7: "same_sched s6 ?s7" using su calm_store_untyped unfolding calm_def by fastforce
  have y7: "ks_byte ?s7 = ks_byte ?s4" using store_untyped_byte [OF su] r(7) by (simp add: create_idle_thread_def update_registers_def update_thread_def)
  have tcb7: "ks_tcb ?s7 = ks_tcb s6" and q7: "ks_runqueue ?s7 = ks_runqueue ?s" and c7: "ks_current ?s7 = ?i"
    using k7 k4 r(5,6) by (simp_all add: same_sched_def create_idle_thread_def update_registers_def update_thread_def)
  have i7: "status (thread ?s7 ?i) = status (thread ?s ?i)"
    using r(4) [of ?i] k4 assms(8) by (simp add: thread_def tcb7 same_sched_def create_idle_thread_def update_registers_def update_thread_def)
  have "v2 = v1 + PAGE_SIZE" using v1 v2 unat_less_exp [of v2]
    by (simp add: addr_add_def add_ck_Ok word_unat_eq_iff PAGE_SIZE_def unat_word_ariths)
  have rq: "run_queue ?s7 []" using assms(2) by (simp add: run_queue_def q7 list_rep_def)
  let ?u = "update_thread ?t thread_resume (update_registers ?t (\<lambda>r. r\<lparr>rg_a0 := v2\<rparr>) ?s7)"
  have s': "bt_kernel b' = sched_push ?t ?u" by (simp add: b' make_runnable_def resume_def set_register_def r(1))
  have "run_queue (bt_kernel b') ([] @ [?t])"
    unfolding s' by (rule run_queue_sched_push) (use rq r(3) tcb7 in \<open>simp_all add: update_registers_def\<close>)
  moreover have "ks_current (bt_kernel b') = ?i" by (simp add: s' c7 update_registers_def update_thread_def)
  moreover have "\<not> is_runnable (thread (bt_kernel b') ?i)"
    using assms(3,8) i7 by (simp add: s' is_runnable_def update_registers_def)
  moreover have "is_runnable (thread (bt_kernel b') ?t)" by (simp add: s' is_runnable_def thread_resume_def)
  moreover have "root_thread (e_entry (read_hdr (ks_byte ?s4) elf)) v2 vs (thread (bt_kernel b') ?t)"
    using r(2) by (simp add: s' root_thread_def thread_resume_def update_registers_def thread_def [of ?s7] thread_def [of s6] tcb7
        create_idle_thread_def update_thread_def [of ?i])
  moreover have "ks_byte (bt_kernel b') = ks_byte ?s4"
    using y7 by (simp add: s' sched_push_def update_registers_def update_thread_def case_prod_beta)
  ultimately show ?thesis using p b'(2) \<open>v2 = v1 + PAGE_SIZE\<close> by (intro exI [of _ vs]) simp
qed


section \<open>The first return to user mode\<close>

lemma fold_set_pte_sched: "same_sched s (fold (\<lambda>x. set_pte (f x) (g x)) xs s)"
proof (induction xs arbitrary: s)
  case (Cons x xs)
  have "same_sched s (set_pte (f x) (g x) s)" by (simp add: same_sched_def set_pte_def)
  from same_sched_trans [OF this Cons] show ?case by simp
qed simp

lemma calm_bump_new: "calm_kernel (bump_new p e)"
  unfolding bump_new_def by (intro calm_intros) (simp add: zero_memory_def Let_def same_sched_def)

lemma calm_kernel_vm_init: "calm_kernel (kernel_vm_init im e)"
  unfolding kernel_vm_init_def Let_def map_physical_def map_image_def
  by (intro calm_intros fold_set_pte_sched)
    (simp_all add: same_sched_def set_pte_def activate_kernel_table_def page_table_activate_def)

lemma alloc_obj_Ok:
  assumes "alloc_obj im k n b = Ok (x, b')"
  shows "x = phys_to_kva (ba_start_addr b) \<and> unat (ba_start_addr b) \<le> unat (ba_start_addr b')
    \<and> unat (ba_start_addr b') \<le> unat (ba_end_addr b) \<and> ba_end_addr b' = ba_end_addr b"
  using assms by (auto simp: alloc_obj_def allocate_pages_Ok)

lemma init_with_uninit_Ok:
  assumes "init_with_uninit im b = Ok (mem, b')" and "unat (ba_end_addr b) < 2 ^ 47"
  obtains v t where "rsm_vspace mem = phys_to_kva v" "unat v < 2 ^ 47" "rsm_tcb mem = phys_to_kva t" "unat t < 2 ^ 47"
    "unat (ba_start_addr b) \<le> unat t" "unat t < unat (ba_end_addr b)"
proof -
  obtain x b1 b2 b3 b4 y where o: "alloc_obj im CNode ROOT_CNODE_ENTRY_NUM_BITS b = Ok (x, b1)" "alloc_obj im PageTable 0 b1 = Ok (rsm_vspace mem, b2)"
    "alloc_obj im Tcb 0 b2 = Ok (rsm_tcb mem, b3)" "alloc_obj im Page 0 b3 = Ok (y, b4)"
    using assms(1) by (auto simp: init_with_uninit_def)
  note a = o [THEN alloc_obj_Ok]
  have "unat (ba_start_addr b3) < unat (ba_start_addr b4)" using o(4)
    by (auto simp: alloc_obj_def allocate_pages_Ok align_up_aligned [of 12, simplified] PAGE_SIZE_def)
  then show thesis using that [of "ba_start_addr b1" "ba_start_addr b2"] a assms(2) by auto
qed

lemma schedule_first:
  assumes "run_queue s [t]" and "ks_current s = i" and "\<not> is_runnable (thread s i)" and "i \<noteq> t"
    and "vspace (thread s t) = Some e" and "cap_is_root (ent_cap e)"
    and s'_def: "s' = schedule im (require_schedule s)"
  shows "ks_current s' = t" and "ks_cur_reg_base s' = t" and "run_queue s' []" and "thread s' t = set_timeout TASK_QUANTUM (thread s t)"
    and "ks_satp s' = SATP_SV48 OR drop_bit 12 (kva_to_phys (get_pagetable (ent_cap e)))" and "ks_byte s' = ks_byte s"
proof -
  obtain u where u: "sched_pop (require_schedule s) = (Some t, u)" "run_queue u []" "u = (require_schedule s)\<lparr>ks_runqueue := ks_runqueue u\<rparr>"
    using sched_pop_Cons [of "require_schedule s" t "[]"] assms(1) by (auto simp: run_queue_def)
  have k: "ks_tcb u = ks_tcb s" "ks_current u = i" "ks_byte u = ks_byte s"
    by (subst u(3), simp add: assms(2) require_schedule_def)+
  have tu: "thread u x = thread s x" for x by (simp add: thread_def k)
  let ?u = "update_thread t (set_timeout TASK_QUANTUM) u"
  have "ks_requested (require_schedule s)" "ks_current ?u = i" by (simp_all add: require_schedule_def update_thread_def k)
  then have s': "s' = switch_to im t ?u"
    using assms(2-4) u(1) tu by (simp add: s'_def schedule_def Let_def)
  show "ks_current s' = t" "ks_cur_reg_base s' = t" "thread s' t = set_timeout TASK_QUANTUM (thread s t)" by (simp_all add: s' tu)
  show "run_queue s' []" using u(2) by (simp add: s' run_queue_def)
  show "ks_satp s' = SATP_SV48 OR drop_bit 12 (kva_to_phys (get_pagetable (ent_cap e)))" "ks_byte s' = ks_byte s"
    using assms(5,6) k(3)
    by (simp_all add: s' switch_to_def activate_vspace_def activate_vspace_inner_def tu set_timeout_def page_table_cap_activate_def
        bind_st_def lift_st_def ensure_def modify_st_def page_table_activate_def)
qed

text \<open>
  After a successful initialisation the kernel returns to user mode in the first
  program: its thread runs with a full
  time slice in its own address space, at the entry of the image, with the address of
  the boot information in \<open>a0\<close>.
\<close>

theorem kernel_main_starts_root:
  assumes "init_kernel im elf p e sie time s = (Ok (info, csrs), s')"
    and "run_queue s []" and "\<not> is_runnable (thread s (img_idle_thread im))"
    and "unat e < 2 ^ 47" and "\<And>a. unat p \<le> unat a \<Longrightarrow> unat a < unat e \<Longrightarrow> img_idle_thread im \<noteq> phys_to_kva a"
  shows "kernel_main im elf p e sie time s =
      (Ok (null_registers\<lparr>rg_sstatus := SSTATUS_SPIE, rg_sepc := e_entry (read_hdr (ks_byte s') elf),
                          rg_a0 := bi_ipc_buffer_addr info + PAGE_SIZE\<rparr>), s')
    \<and> ks_current s' \<noteq> img_idle_thread im \<and> is_runnable (thread s' (ks_current s'))
    \<and> ks_cur_reg_base s' = ks_current s' \<and> time_slice (thread s' (ks_current s')) = 20 \<and> run_queue s' []
    \<and> (\<exists>ent. vspace (thread s' (ks_current s')) = Some ent \<and> cap_is_root (ent_cap ent)
         \<and> ks_satp s' = SATP_SV48 OR drop_bit 12 (kva_to_phys (get_pagetable (ent_cap ent))))"
proof -
  obtain ba s1 s2 s3 where bn: "bump_new p e s = (Ok ba, s1)" and vm: "kernel_vm_init im e s1 = (Ok (), s2)"
    and rs: "init_root_server im ba elf s2 = (Ok info, s3)" and ti: "set_timer MTIME_PER_1MS time s3 = (Ok (), s')"
    using assms(1) by (auto simp: init_kernel_def bind_st_eq_Ok)
  obtain mem ba2 mgr b where un: "init_with_uninit im ba = Ok (mem, ba2)"
    and ci: "create_initial_thread im mem elf \<lparr>bt_kernel = s2, bt_mgr = mgr, bt_max_vaddr = 0, bt_info = default_boot_info\<rparr> = (Ok (), b)"
    and info: "info = bt_info b" and s3: "s3 = schedule im (require_schedule (bt_kernel b))"
    using rs by (auto simp: init_root_server_def bind_st_eq_Ok lift_st_def modify_st_def case_prod_beta) (metis prod.collapse)
  have ba: "ba_start_addr ba = p" "ba_end_addr ba = e" using bn by (auto simp: bump_new_def bind_st_eq_Ok)
  have ss: "same_sched s s2" using bn vm calm_bump_new calm_kernel_vm_init same_sched_trans unfolding calm_kernel_def by metis
  then have q2: "run_queue s2 []" "\<not> is_runnable (thread s2 (img_idle_thread im))"
    using assms(2,3) by (simp_all add: run_queue_def same_sched_def thread_def)
  obtain v t where v: "rsm_vspace mem = phys_to_kva v" "unat v < 2 ^ 47" and t: "rsm_tcb mem = phys_to_kva t" "unat t < 2 ^ 47"
    and rng: "unat p \<le> unat t" "unat t < unat e"
    using init_with_uninit_Ok [OF un] assms(4) by (auto simp: ba)
  have ne: "rsm_tcb mem \<noteq> img_idle_thread im" using assms(5) [OF rng] t(1) by metis
  obtain vs where vs: "cap_is_root vs" and q: "run_queue (bt_kernel b) [rsm_tcb mem]"
    and cur: "ks_current (bt_kernel b) = img_idle_thread im" "\<not> is_runnable (thread (bt_kernel b) (img_idle_thread im))"
    and run: "is_runnable (thread (bt_kernel b) (rsm_tcb mem))"
    and rt: "root_thread (e_entry (read_hdr (ks_byte (bt_kernel b)) elf)) (bi_ipc_buffer_addr info + PAGE_SIZE) vs (thread (bt_kernel b) (rsm_tcb mem))"
    using create_initial_thread_runs [OF ci _ _ t v ne] q2 by (auto simp: info)
  obtain ent where ent: "vspace (thread (bt_kernel b) (rsm_tcb mem)) = Some ent" "ent_cap ent = vs" using rt by (auto simp: root_thread_def)
  note sf = schedule_first [OF q cur ne [symmetric] ent(1) _ s3]
  have s': "s' = s3\<lparr>ks_mtimecmp := ks_mtimecmp s'\<rparr>" using ti by (auto simp: set_timer_def bind_st_eq_Ok)
  have fr: "ks_current s' = ks_current s3" "ks_cur_reg_base s' = ks_cur_reg_base s3" "thread s' u = thread s3 u" "run_queue s' xs = run_queue s3 xs"
    "ks_satp s' = ks_satp s3" "ks_byte s' = ks_byte s3" for u xs
    by (subst s', simp add: thread_def run_queue_def)+
  have "registers (thread s' (ks_current s')) = null_registers\<lparr>rg_sstatus := SSTATUS_SPIE, rg_sepc := e_entry (read_hdr (ks_byte s') elf),
      rg_a0 := bi_ipc_buffer_addr info + PAGE_SIZE\<rparr>"
    using rt sf vs ent(2) by (simp add: fr root_thread_def set_timeout_def)
  then have "kernel_main im elf p e sie time s = (Ok (null_registers\<lparr>rg_sstatus := SSTATUS_SPIE, rg_sepc := e_entry (read_hdr (ks_byte s') elf),
      rg_a0 := bi_ipc_buffer_addr info + PAGE_SIZE\<rparr>), s')"
    by (simp add: kernel_main_def bind_st_def assms(1) gets_st_def)
  then show ?thesis
    using sf vs ent run ne by (simp add: fr set_timeout_def is_runnable_def TASK_QUANTUM_def TICK_HZ_def)
qed

end
