(* ===== verification/Examples_Boot.thy ===== *)
theory Examples_Boot
  imports Examples Boot_Total Boot_Thread
begin

text \<open>
  Witnesses for the properties of the initialisation of the kernel.
\<close>

section \<open>Memory\<close>

lemma demo_layout: "boot_layout demo_image 0x88000000"
  by (simp add: boot_layout_def demo_image_def drop_bit_eq_div mask_eq_exp_minus_1 take_bit_eq_mod)

theorem kernel_vm_init_maps_witness:
  "\<exists>s'. kernel_vm_init demo_image 0x88000000 (boot_state demo_image) = (Ok (), s')
    \<and> hw_translate s' (kernel_tables demo_image) (img_vm_root demo_image) (phys_to_kva 0x80012345) = Some 0x80012345
    \<and> hw_translate s' (kernel_tables demo_image) (img_vm_root demo_image) 0xffffffff80000123 = Some 0x80000123"
proof -
  obtain s' where k: "kernel_vm_init demo_image 0x88000000 (boot_state demo_image) = (Ok (), s')"
    and p: "\<And>p. unat p < unat (0x88000000 :: usize) \<Longrightarrow>
      hw_translate s' (kernel_tables demo_image) (img_vm_root demo_image) (phys_to_kva p) = Some p"
    and v: "\<And>v. img_text demo_image \<le> v \<and> v < img_data_end demo_image \<Longrightarrow>
      hw_translate s' (kernel_tables demo_image) (img_vm_root demo_image) v = Some (v AND NOT KERNEL_CODE_PFX)"
    using kernel_vm_init_maps [OF demo_layout, where s = "boot_state demo_image"] by blast
  have "hw_translate s' (kernel_tables demo_image) (img_vm_root demo_image) 0xffffffff80000123 = Some 0x80000123"
    using v [of "0xffffffff80000123"] by (simp add: demo_image_def KERNEL_CODE_PFX_def)
  then show ?thesis using k p [of "0x80012345"] by auto
qed

section \<open>Untyped memory\<close>

definition demo_generator :: UntypedCapGenerator where
  "demo_generator = \<lparr>ug_start_address = phys_to_kva 0x80810000, ug_end_address = phys_to_kva 0x81000000,
     ug_idx_start = 10, ug_idx_max = 0x3ffff\<rparr>"

definition demo_node :: CapabilityData where
  "demo_node = cap_new CNode 0x80000000 18"

definition demo_boot :: boot where
  "demo_boot = \<lparr>bt_kernel = boot_state demo_image,
     bt_mgr = \<lparr>rm_bump_allocator = \<lparr>ba_start_addr = 0x80810000, ba_end_addr = 0x81000000\<rparr>, rm_cnode_satrt_idx = 10,
       rm_cnode_idx_max = 0x3ffff\<rparr>, bt_max_vaddr = 0, bt_info = default_boot_info\<rparr>"

lemma demo_generator_facts:
  "ug_low demo_generator = 0x80810000" "ug_high demo_generator = 0x81000000" "ug_ok demo_generator"
  by (simp_all add: ug_ok_def ug_low_def ug_high_def demo_generator_def)

theorem untyped_handed_over_witness:
  "\<exists>num b' addr. store_untyped demo_node 0 demo_generator demo_boot = (Ok num, b') \<and> num \<le> 32
    \<and> addr 0 = 0x80810000 \<and> addr num \<le> 0x81000000 \<and> 0x81000000 \<le> addr num + 4096
    \<and> tiles demo_node b' 0 num addr 10"
proof -
  have f: "slots_free demo_node demo_boot (unat (ug_idx_start demo_generator)) 32"
    by (simp add: slots_free_def demo_node_def radix_def cap_new_def set_address_def demo_boot_def boot_state_def slot_at_def demo_generator_def)
  have l: "length (bi_untyped_infos (bt_info demo_boot)) = 32" by (simp add: demo_boot_def default_boot_info_def)
  have i: "unat (ug_idx_start demo_generator) + 31 \<le> unat (ug_idx_max demo_generator)" by (simp add: demo_generator_def)
  have "ug_high demo_generator - ug_low demo_generator < 2 ^ 44" by (simp add: demo_generator_facts)
  from untyped_handed_over [OF demo_generator_facts(3) this l f i] show ?thesis
    by (simp add: demo_generator_facts) (simp add: demo_generator_def)
qed

section \<open>Loading the first program\<close>

text \<open>An image with one segment of four bytes at \<open>0x10000\<close>, two of them in the file.\<close>

definition demo_elf :: usize where
  "demo_elf = 0xffffffff80020000"

definition demo_bytes :: "usize \<Rightarrow> u8" where
  "demo_bytes = (\<lambda>_. 0)(0xffffffff80020020 := 64, 0xffffffff80020038 := 1, 0xffffffff80020040 := 1, 0xffffffff80020044 := 5,
     0xffffffff80020048 := 120, 0xffffffff80020052 := 1, 0xffffffff80020060 := 2, 0xffffffff80020068 := 4,
     0xffffffff80020078 := 0x13, 0xffffffff80020079 := 5)"

definition demo_space :: boot where
  "demo_space = demo_boot\<lparr>bt_kernel := (boot_state demo_image)\<lparr>ks_byte := demo_bytes\<rparr>\<rparr>"

definition demo_memory :: RootServerMemory where
  "demo_memory = \<lparr>rsm_cnode = phys_to_kva 0x80000000, rsm_vspace = phys_to_kva 0x80800000, rsm_tcb = 0, rsm_ipc_buf = 0,
     rsm_boot_frame = 0\<rparr>"

definition demo_segment :: Elf64Phdr where
  "demo_segment = \<lparr>p_type = 1, p_flags = 5, p_offset = 120, p_vaddr = 0x10000, p_paddr = 0, p_filesz = 2, p_memsz = 4, p_align = 0\<rparr>"

lemma read_le_numeral: "read_le m a (numeral k) = ucast (m a) OR push_bit 8 (read_le m (a + 1) (pred_numeral k))"
  by (simp add: numeral_eq_Suc)

lemma demo_headers: "program_headers demo_bytes demo_elf = [demo_segment]"
proof -
  have "e_phnum (read_hdr demo_bytes demo_elf) = read_le demo_bytes 0xffffffff80020038 2"
    "e_phoff (read_hdr demo_bytes demo_elf) = read_le demo_bytes 0xffffffff80020020 8"
    by (simp_all add: read_hdr_def demo_elf_def del: read_le.simps)
  moreover have "read_le demo_bytes 0xffffffff80020038 2 = (1 :: u16)" "read_le demo_bytes 0xffffffff80020020 8 = (64 :: usize)"
    by (simp_all add: read_le_numeral demo_bytes_def)
  moreover have "read_phdr demo_bytes 0xffffffff80020040 = demo_segment"
    by (simp add: read_phdr_def read_le_numeral demo_bytes_def demo_segment_def)
  ultimately show ?thesis by (simp add: program_headers_def Let_def demo_elf_def)
qed

lemma demo_space_simps:
  "bt_mgr demo_space = bt_mgr demo_boot" "ks_byte (bt_kernel demo_space) = demo_bytes" "ks_pte (bt_kernel demo_space) = (\<lambda>_. 0)"
  "ks_cap (bt_kernel demo_space) = (\<lambda>_. None)"
  by (simp_all add: demo_space_def demo_boot_def boot_state_def)

lemma demo_in_free: "in_free demo_space x \<longleftrightarrow> x - 0xffff800080810000 < 0x7f0000"
  by (simp add: in_free_def demo_space_simps demo_boot_def phys_to_kva_def KERNEL_V_ADDR_PFX_def)

lemma demo_slots: "i + n \<le> 0x40000 \<Longrightarrow> slots_free demo_node demo_space i n"
  by (simp add: slots_free_def demo_node_def radix_def cap_new_def set_address_def slot_at_None demo_space_simps)

lemma demo_room: "room demo_node demo_space 5"
  by (simp add: room_def Let_def demo_space_simps demo_slots) (simp add: demo_boot_def demo_slots)

text \<open>Two addresses whose distance is known are not both close to a third.\<close>

lemma apart_regions:
  fixes x a c n m :: usize
  assumes "x - a < n" and "unat (a - c) + unat n \<le> 2 ^ 64" and "unat m \<le> unat (a - c)"
  shows "\<not> x - c < m"
proof -
  have "unat (x - a) + unat (a - c) < 2 ^ 64" using assms(1,2) by (simp add: word_less_nat_alt)
  then have "unat ((x - a) + (a - c)) = unat (x - a) + unat (a - c)" by (simp only: unat_word_ariths) simp
  then have "unat (x - c) = unat (x - a) + unat (a - c)" by simp
  then show ?thesis using assms(3) by (simp add: word_less_nat_alt)
qed

lemma demo_fresh: "fresh_space demo_image demo_memory 0x80800000 demo_space"
proof -
  have k: "phys_to_kva 0x80800000 = 0xffff800080800000" by (simp add: phys_to_kva_def KERNEL_V_ADDR_PFX_def)
  have z: "demo_bytes x = 0" if "in_free demo_space x" for x using that unfolding demo_in_free by (auto simp: demo_bytes_def)
  have "free_ok demo_space"
    unfolding free_ok_def Let_def using z
    by (simp add: demo_space_simps) (simp add: demo_boot_def bump_ok_def take_bit_eq_mod)
  moreover have "\<not> in_free demo_space x \<and> \<not> x - img_vm_root demo_image < PAGE_SIZE" if "x - 0xffff800080800000 < PAGE_SIZE" for x
    using apart_regions [OF that, of "0xffff800080810000" "0x7f0000"] apart_regions [OF that, of "0xffffffff80002000" PAGE_SIZE]
    by (simp add: demo_in_free demo_image_def PAGE_SIZE_def)
  ultimately show ?thesis by (simp add: fresh_space_def demo_memory_def k demo_space_simps)
qed

theorem address_space_created_witness:
  "\<exists>cap max_vaddr b'. create_address_space demo_image demo_memory demo_node demo_elf demo_space = (Ok (cap, max_vaddr), b')
    \<and> user_byte (bt_kernel b') (get_pagetable cap) 0x10001 = Some 5
    \<and> user_byte (bt_kernel b') (get_pagetable cap) 0x10003 = Some 0"
proof -
  have el: "\<forall>k < 122. \<not> in_free demo_space (demo_elf + of_nat k)"
  proof (intro allI impI)
    fix k :: nat assume "k < 122"
    then have "demo_elf + of_nat k - demo_elf < 122" by (simp add: word_less_nat_alt unat_of_nat take_bit_nat_eq_self)
    then show "\<not> in_free demo_space (demo_elf + of_nat k)"
      unfolding demo_in_free by (rule apart_regions) (simp_all add: demo_elf_def)
  qed
  have hd: "program_headers (ks_byte (bt_kernel demo_space)) demo_elf = [demo_segment]" by (simp add: demo_space_simps demo_headers)
  have ld: "loadable demo_segment" by (simp add: loadable_def demo_segment_def)
  have ok: "segment_ok demo_elf 122 (p_vaddr demo_segment) (demo_elf + p_offset demo_segment) (p_memsz demo_segment) (p_filesz demo_segment)"
    by (simp add: segment_ok_def demo_segment_def take_bit_eq_mod)
  have pg: "segment_pages (p_memsz demo_segment) = 1" by (simp add: segment_pages_def demo_segment_def)
  have ix: "ROOT_VSPACE_IDX < rm_cnode_satrt_idx (bt_mgr demo_space)" by (simp add: demo_space_simps demo_boot_def ROOT_VSPACE_IDX_def)
  obtain cap max_vaddr b' where run: "create_address_space demo_image demo_memory demo_node demo_elf demo_space = (Ok (cap, max_vaddr), b')"
    and ub: "\<And>k. k < unat (p_memsz demo_segment) \<Longrightarrow>
      user_byte (bt_kernel b') (get_pagetable cap) (p_vaddr demo_segment + of_nat k) =
        Some (if k < unat (p_filesz demo_segment) then demo_bytes (demo_elf + p_offset demo_segment + of_nat k) else 0)"
    using address_space_created [OF demo_fresh el, of demo_node] hd ld ok pg demo_room demo_slots [of 3 1] ix
    by (auto simp: demo_space_simps(2) ROOT_VSPACE_IDX_def)
  have "user_byte (bt_kernel b') (get_pagetable cap) 0x10001 = Some 5" using ub [of 1] by (simp add: demo_segment_def demo_elf_def demo_bytes_def)
  moreover have "user_byte (bt_kernel b') (get_pagetable cap) 0x10003 = Some 0" using ub [of 3] by (simp add: demo_segment_def)
  ultimately show ?thesis using run by blast
qed

end
