(* ===== verification/Examples_Zoea.thy ===== *)
theory Examples_Zoea
  imports Examples Zoea_Caps
begin

text \<open>
  The theorems on the user library at the capability space of \<^theory_text>\<open>Examples\<close>: the
  running thread knows its root CNode, whose next free slot is number three, and
  copies the endpoint capability of slot two.
\<close>

definition demo_node :: "CNode_obj Capability" where
  "demo_node = \<lparr>cap_ptr = 1, cap_depth = 4, cap_data = \<lparr>co_radix = 4, co_cursor = 3\<rparr>\<rparr>"

definition demo_endpoint :: "unit Capability" where
  "demo_endpoint = \<lparr>cap_ptr = 2, cap_depth = 4, cap_data = ()\<rparr>"

lemma cspace_user:
  "ks_cur_reg_base cspace_state = 0xc000" "\<not> ks_requested cspace_state" "rg_sepc (user_regs cspace_state) = 0"
  by (simp_all add: cspace_state_def ready_state_def boot_state_def user_regs_def thread_def ListItem_new_def demo_regs_def null_registers_def)

lemma cspace_runs: "user_runs cspace_state demo_root"
  by (simp add: user_runs_def cspace_user new_with_rawcap_def)

lemma demo_resolves: "resolves cspace_state demo_root p 4 (demo_slot (p mod 16))"
proof -
  have "resolves cspace_state demo_root p 4 (cspace_slot demo_root p 4)"
    by (rule resolves.here) (simp_all add: walk_ends_def split: option.split)
  then show ?thesis by (simp add: cspace_slot_def)
qed

lemma demo_node_known: "node_known cspace_state demo_root demo_node demo_root"
  using demo_resolves [of 1] by (auto simp: node_known_def demo_node_def slot_at_def)

lemma demo_endpoint_known: "cap_known cspace_state demo_root demo_endpoint 0xffff800000006040 demo_ep_cap"
  using demo_resolves [of 2] by (simp add: cap_known_def demo_endpoint_def)

lemma demo_derive: "derive demo_ep_cap = Ok (demo_ep_cap\<lparr>cap_dep_val := 0\<rparr>)"
  by (simp add: derive_def)

lemma cspace_new_slot: "ks_cap cspace_state (img_new_slot demo_image) = None"
  by (simp add: cspace_state_def demo_image_def)

theorem get_cap_ptr_resolves_witness:
  "\<exists>sl cn' p d. get_slot demo_node = Ok (sl, cn') \<and> get_cap_ptr sl = Ok (p, d)
    \<and> lookup_entry_mut cspace_state demo_root p d = Ok 0xffff800000006060 \<and> co_cursor (cap_data cn') = 4"
  using get_cap_ptr_resolves [OF demo_node_known] by (simp add: demo_node_def)

theorem copy_delivers_witness:
  "\<exists>new cn' s'. copy demo_image copy_data demo_node demo_endpoint cspace_state = (Ok (new, cn'), s')
    \<and> lookup_entry s' demo_root (cap_ptr new) (cap_depth new) = Ok (0xffff800000006060, demo_ep_cap\<lparr>cap_dep_val := 0\<rparr>)
    \<and> ks_cap s' 0xffff800000006040 = Some demo_ep_cap"
proof -
  have e: "ks_cap cspace_state (slot_addr (cnode_base demo_root) (unat (co_cursor (cap_data demo_node)))) = None"
    by (simp add: demo_node_def)
  obtain new cn' s' where s': "copy demo_image copy_data demo_node demo_endpoint cspace_state = (Ok (new, cn'), s')"
    and l: "lookup_entry s' demo_root (cap_ptr new) (cap_depth new)
      = Ok (slot_addr (cnode_base demo_root) (unat (co_cursor (cap_data demo_node))), demo_ep_cap\<lparr>cap_dep_val := 0\<rparr>)"
    and k: "\<forall>b y. ks_cap cspace_state b = Some y \<longrightarrow> ks_cap s' b = Some y"
    using copy_delivers [OF cspace_runs demo_node_known demo_endpoint_known demo_derive cspace_new_slot e] by blast
  have "ks_cap s' 0xffff800000006040 = Some demo_ep_cap" using k by simp
  then show ?thesis using s' l by (auto simp: demo_node_def)
qed

text \<open>A thread without a capability space is told so.\<close>

lemma ready_user: "rg_sepc (user_regs ready_state) = 0" "ks_console ready_state = []"
  by (simp_all add: user_regs_def ready_state_def thread_def ListItem_new_def demo_thread_def default_thread_def null_registers_def boot_state_def)

theorem syscall_error_witness:
  "\<exists>ctx. syscall demo_image 3 4 EpSend 0 0 0 0 Send ready_state =
    (Err (CapNotFound, 0), update_registers 0xc000 (\<lambda>_. ctx) ready_state)"
proof -
  let ?t = "trapped (call_regs 3 4 EpSend 0 0 0 0 Send (user_regs ready_state)) ready_state"
  have "root_cnode (thread ?t 0xc000) = None"
    by (simp add: trapped_def update_registers_def update_thread_def thread_def ready_state_def ListItem_new_def)
  moreover have "ks_current ?t = 0xc000" "rg_a2 (registers (thread ?t 0xc000)) = inv_label_usize EpSend"
    using trapped_thread(1) [of _ ready_state] by (simp_all add: call_regs_def)
  ultimately have "dispatch demo_image (syscall_no_usize Send) 0xc000 ?t = (Err (kerr CapNotFound), ?t)"
    by (simp add: dispatch_def handle_invocation_def Let_def inv_label_try_from_def ok_or_def)
  then show ?thesis
    using syscall_error [of ready_state demo_image Send 3 4 EpSend 0 0 0 0 "kerr CapNotFound" ?t]
    by (simp add: ready_user seen_kind_def kerr_def)
qed

theorem write_str_prints_witness:
  "\<exists>s'. write_str demo_image [72, 105] ready_state = (Ok (), s') \<and> ks_console s' = [72, 105]"
  using write_str_prints [of ready_state "[72, 105]" demo_image] ready_user by simp

end
