(* ===== verification/Examples_Calls.thy ===== *)
theory Examples_Calls
  imports Examples
begin

text \<open>
  Witnesses for the properties of system calls, thread control and communication, on the machine states
  built in \<^theory_text>\<open>Examples\<close>.
\<close>

section \<open>System calls\<close>

lemma demo_mint_runs: "\<exists>s'. dispatch demo_image 1 0xc000 cspace_state = (Ok None, s')"
proof -
  have l: "inv_label_try_from 10 = Ok CNodeMint"
    by (simp add: inv_label_try_from_def)
  have src: "lookup_entry cspace_state demo_root 2 4 = Ok (0xffff800000006040, demo_ep_cap)"
    "lookup_entry cspace_state demo_root 1 4 = Ok (0xffff800000006020, demo_root)"
    by (simp_all add: lookup_entry_def demo_lookup slot_at_def ok_or_def)
  have d: "derive demo_ep_cap = Ok (demo_ep_cap\<lparr>cap_dep_val := 0\<rparr>)" by (simp add: derive_def)
  have "slot_at cspace_state 0xffff800000006060 = None" by (simp add: slot_at_def)
  moreover have "try_ref_as CNode demo_root = Ok demo_root" by (simp add: try_ref_as_def)
  ultimately show ?thesis
    using l src d demo_lookup [of 3]
    by (simp add: dispatch_def handle_invocation_def invoke_cnode_def Let_def ok_or_def new_with_rawcap_def)
qed



theorem failed_call_reported_witness:
  "handle_syscall demo_image 1 0xc000 ready_state =
     (Ok (), update_registers 0xc000 (\<lambda>r. r\<lparr>rg_a0 := err_kind_usize CapNotFound, rg_a1 := 0, rg_sepc := rg_sepc r + 4\<rparr>) ready_state)"
proof -
  have r: "registers (demo_thread 0xc000) = null_registers" by (simp add: demo_thread_def default_thread_def)
  have l: "inv_label_try_from 0 = Ok PutChar" by (simp add: inv_label_try_from_def)
  have d: "dispatch demo_image 1 0xc000 ready_state = (Err (kerr CapNotFound), ready_state)"
    by (simp add: dispatch_def handle_invocation_def Let_def r l ok_or_def null_registers_def)
  show ?thesis
    using failed_call_reported [OF d] by (simp add: r kerr_def null_registers_def)
qed

section \<open>Threads\<close>

definition demo_tcb_cap :: CapabilityData where
  "demo_tcb_cap = cap_new Tcb 0xd000 0"

lemma demo_tcb [simp]: "get_tcb demo_tcb_cap = 0xffff80000000d000"
  by (simp add: get_tcb_def demo_tcb_cap_def get_address_new phys_to_kva_def KERNEL_V_ADDR_PFX_def)

theorem tcb_configure_witness:
  "\<exists>s' e f. bind_st (set_cspace demo_image demo_tcb_cap 0x100 demo_root) (\<lambda>_. set_vspace demo_image demo_tcb_cap 0x200 demo_ep_cap) ready_state
      = (Ok (), s')
    \<and> root_cnode (thread s' 0xffff80000000d000) = Some e \<and> ent_cap e = demo_root
    \<and> vspace (thread s' 0xffff80000000d000) = Some f \<and> ent_cap f = demo_ep_cap"
  using tcb_configure [of ready_state demo_tcb_cap demo_image "0x100" demo_root "0x200" demo_ep_cap]
  unfolding demo_tcb by auto

theorem tcb_start_witness:
  "run_queue (make_runnable demo_tcb_cap (set_registers demo_tcb_cap demo_regs ready_state)) [0xa000, 0xffff80000000d000]"
  using tcb_start [OF ready_queue, of demo_tcb_cap _ demo_regs] by simp

section \<open>Communication\<close>

lemma demo_ep_wf: "ep_wf cspace_state p []"
  by (simp add: ep_wf_def ep_new_def)

lemma demo_get_ep [simp]: "get_ep demo_ep_cap = 0xffff800000005000"
  by (simp add: get_ep_def demo_ep_cap_def get_address_new phys_to_kva_def KERNEL_V_ADDR_PFX_def)

lemma cspace_buffer: "unat t < 2 ^ 48 \<Longrightarrow> ipc_buffer_ref (thread cspace_state t) = Some (phys_to_kva t)"
  using demo_thread_simps(3) [of t] by (simp add: ipc_buffer_ref_def)



theorem rendezvous_recv_first_witness:
  "\<exists>s1 s2. ep_cap_recv demo_ep_cap 0xc000 cspace_state = (Ok True, s1)
    \<and> ep_cap_send demo_ep_cap 0xb000 s1 = (Ok False, s2)
    \<and> rg_a1 (registers (thread s2 0xc000)) = 42 \<and> run_queue s2 [0xa000, 0xc000]"
proof -
  have b: "get_badge demo_ep_cap = 42" by (simp add: get_badge_def demo_ep_cap_def)
  have "ipc_buffer_ref (thread cspace_state 0xb000) = Some (phys_to_kva 0xb000)"
    "ipc_buffer_ref (thread cspace_state 0xc000) = Some (phys_to_kva 0xc000)"
    by (rule cspace_buffer; simp)+
  from rendezvous_recv_first [OF demo_ep_wf _ _ cspace_queue _ this refl, of demo_ep_cap] show ?thesis by (auto simp: b)
qed

theorem rendezvous_send_first_witness:
  "\<exists>s1 s2. ep_cap_send demo_ep_cap 0xc000 cspace_state = (Ok True, s1)
    \<and> ep_cap_recv demo_ep_cap 0xb000 s1 = (Ok False, s2)
    \<and> rg_a1 (registers (thread s2 0xb000)) = 42 \<and> run_queue s2 [0xa000, 0xc000]"
proof -
  have b: "get_badge demo_ep_cap = 42" by (simp add: get_badge_def demo_ep_cap_def)
  have "ipc_buffer_ref (thread cspace_state 0xc000) = Some (phys_to_kva 0xc000)"
    "ipc_buffer_ref (thread cspace_state 0xb000) = Some (phys_to_kva 0xb000)"
    by (rule cspace_buffer; simp)+
  from rendezvous_send_first [OF demo_ep_wf _ _ cspace_queue _ this refl, of demo_ep_cap] show ?thesis by (auto simp: b)
qed

lemma demo_ntfn_wf: "ntfn_wf cspace_state p []"
  by (simp add: ntfn_wf_def ntfn_new_def)



theorem signals_accumulate_witness:
  "\<exists>s1 s2. signal_all 0x7000 [1, 4] cspace_state = (Ok (), s1) \<and> wait_signal 0x7000 0xc000 s1 = (Ok False, s2)
    \<and> rg_a1 (registers (thread s2 0xc000)) = 5"
  using signals_accumulate [OF demo_ntfn_wf, of "[1, 4]" "0x7000" "0xc000"] by (auto simp: ntfn_new_def)

theorem wait_then_signal_witness:
  "\<exists>s1 s2. wait_signal 0x7000 0xc000 cspace_state = (Ok True, s1) \<and> send_signal 0x7000 5 s1 = (Ok (), s2)
    \<and> rg_a1 (registers (thread s2 0xc000)) = 5 \<and> run_queue s2 [0xa000, 0xc000]"
  using wait_then_signal [OF demo_ntfn_wf, of "0x7000" "0xc000" "[0xa000]" 5] cspace_queue by (auto simp: ntfn_new_def)

end
