(* ===== verification/Examples_Memory.thy ===== *)
theory Examples_Memory
  imports Examples
begin

text \<open>
  Witnesses for the properties of retyping and of page tables.
\<close>

section \<open>Retyping\<close>

text \<open>
  The megabyte at \<open>0x80000000\<close> is unused; one or two page tables are made of it.
\<close>

lemma demo_untyped_simps [simp]:
  "get_free_index demo_untyped = 0xffff800080000000" "\<not> is_device demo_untyped"
  "block_size demo_untyped = 0x100000" "get_free_bytes demo_untyped = (Ok 0x100000 :: usize kres)"
  by (simp_all add: demo_untyped_def get_free_index_def is_device_def block_size_def get_free_bytes_def get_address_new
   addr_add_def addr_sub_def add_ck_def sub_ck_def phys_to_kva_def KERNEL_V_ADDR_PFX_def)

lemma demo_align: "align_up 0xffff800080000000 4096 = (Ok 0xffff800080000000 :: usize kres)"
  by (simp add: align_up_def add_ck_def sub_ck_def)

lemma demo_ilog2: "ilog2 0x100000 = (Ok 20 :: (nat, KernelError) run)"
  using ilog2_nat_exp [of 20] by (simp add: ilog2_def)

definition demo_gen :: "usize \<Rightarrow> CapGenerator" where
  "demo_gen n = \<lparr>gen_num = n, gen_address = 0xffff800080000000, gen_user_size = 0, gen_obj_size = 0x1000 * n,
     gen_end_address = 0xffff800080000000 + 0x1000 * n * n\<rparr>"

lemma demo_kind: "PageTable \<noteq> Untyped"
  by simp

lemma demo_retype:
  "retype demo_image PageTable demo_untyped 0 2 = Ok (demo_untyped\<lparr>cap_dep_val := 0x800040000014\<rparr>, demo_gen 2)"
  "retype demo_image PageTable demo_untyped 0 1 = Ok (demo_untyped\<lparr>cap_dep_val := 0x800010000014\<rparr>, demo_gen 1)"
  by (simp_all add: retype_def Let_def mul_ck_def checked_sub_def ok_or_def demo_align demo_ilog2 gen_new_def add_ck_def
      PAGE_SIZE_def kva_to_phys_def KERNEL_V_ADDR_PFX_def demo_gen_def)

theorem retype_disjoint_witness:
  "\<exists>c c'. gen_caps PageTable (demo_gen 2) = Ok [c, c'] \<and> obj_addr c + 4096 \<le> obj_addr c'
    \<and> cap_type c = cap_type_u8 PageTable \<and> cap_type c' = cap_type_u8 PageTable"
proof -
  have sz: "get_object_size demo_image PageTable 0 = Ok PAGE_SIZE" and n: "unat PAGE_SIZE = 4096" "unat (2 :: usize) = 2"
    by (simp_all add: PAGE_SIZE_def)
  obtain cs where cs: "gen_caps PageTable (demo_gen 2) = Ok cs" "length cs = 2"
    "sorted_wrt (\<lambda>c c'. obj_addr c + 4096 \<le> obj_addr c') cs" and ty: "\<forall>c \<in> set cs. cap_type c = cap_type_u8 PageTable"
    using retype_disjoint [OF demo_retype(1) demo_kind sz] unfolding n by blast
  obtain c c' where e: "cs = [c, c']" using cs(2) by (auto simp: length_Suc_conv numeral_2_eq_2)
  then have "obj_addr c + 4096 \<le> obj_addr c'" using cs(3) by simp
  moreover have "cap_type c = cap_type_u8 PageTable" "cap_type c' = cap_type_u8 PageTable" using ty e by simp_all
  ultimately show ?thesis using cs(1) e by blast
qed


theorem retype_escapes_block_witness:
  "\<exists>self' g cs. retype demo_image PageTable demo_untyped 0 256 = Ok (self', g) \<and> gen_caps PageTable g = Ok cs
    \<and> length cs = 256 \<and> obj_addr (cs ! 1) = block_end demo_untyped
    \<and> get_free_bytes self' = (Panic ArithOverflow :: usize kres)"
  using retype_escapes_block [of demo_untyped PageTable demo_image 0 "0x1000" 256 "0x100000"]
  by (simp add: PAGE_SIZE_def demo_align)

lemma demo_slots_apart:
  assumes "j < unat (2 :: usize)"
  shows "slot_addr 0xffff8000000060a0 j \<noteq> img_entry demo_image \<and> slot_addr 0xffff8000000060a0 j \<noteq> 0xffff800000006080"
proof -
  have "j = 0 \<or> j = 1" using assms by auto
  then show ?thesis by (rule disjE) (simp_all add: slot_addr_def demo_image_def)
qed

theorem retype_fills_slots_witness:
  "\<exists>s' cs. retype_and_insert demo_image PageTable 0xffff800000006080 demo_untyped 0xffff8000000060a0 0 2 cspace_state = (Ok (), s')
    \<and> gen_caps PageTable (demo_gen 2) = Ok cs \<and> ks_cap s' 0xffff8000000060a0 = Some (cs ! 0)
    \<and> ks_cap s' 0xffff8000000060c0 = Some (cs ! 1)"
proof -
  have i: "ks_tcbidx cspace_state = 0" by (simp add: cspace_state_def ready_state_def boot_state_def)
  have e: "(0xffff800000006080 :: usize) \<noteq> img_entry demo_image" by (simp add: demo_image_def)
  have n: "unat (2 :: usize) < 2 ^ 32" "unat (ks_tcbidx cspace_state) + unat (2 :: usize) < 2 ^ 64" by (simp_all add: i)
  obtain s' cs where r: "retype_and_insert demo_image PageTable 0xffff800000006080 demo_untyped 0xffff8000000060a0 0 2 cspace_state = (Ok (), s')"
    "gen_caps PageTable (demo_gen 2) = Ok cs"
    and c: "\<forall>j < unat (2 :: usize). ks_cap s' (slot_addr 0xffff8000000060a0 j) = Some (cs ! j)"
    using retype_fills_slots [OF demo_retype(1) demo_kind n demo_slots_apart e] by blast
  have "slot_addr 0xffff8000000060a0 0 = 0xffff8000000060a0" "slot_addr 0xffff8000000060a0 1 = 0xffff8000000060c0"
    by (simp_all add: slot_addr_def)
  then have "ks_cap s' 0xffff8000000060a0 = Some (cs ! 0)" "ks_cap s' 0xffff8000000060c0 = Some (cs ! 1)"
    using c [rule_format, of 0] c [rule_format, of 1] by simp_all
  then show ?thesis using r by blast
qed

section \<open>Page tables\<close>

text \<open>
  Three tables lead from the root at \<open>0x10000\<close> to the last level at \<open>0x13000\<close>,
  all through entry 0. Its first entry is free and its second maps a page.
\<close>

definition demo_table :: CapabilityData where
  "demo_table = cap_new PageTable 0x10000 0"

definition demo_page :: CapabilityData where
  "demo_page = cap_new Page 0x20000 0"

definition paged_state :: kstate where
  "paged_state = ready_state\<lparr>ks_pte := (\<lambda>_. 0)
     (0xffff800000010000 := pte_write 0x11000 PAGE_V, 0xffff800000011000 := pte_write 0x12000 PAGE_V,
      0xffff800000012000 := pte_write 0x13000 PAGE_V, 0xffff800000013008 := pte_write 0x21000 (PAGE_R OR PAGE_V))\<rparr>"

lemma demo_tables [simp]: "get_pagetable demo_table = 0xffff800000010000" "get_address demo_page = 0x20000"
  "get_pagetable demo_page = 0xffff800000020000" "cap_dep_val demo_page = 0" "\<not> cap_is_mapped demo_page"
  by (simp_all add: get_pagetable_def demo_table_def demo_page_def get_address_new phys_to_kva_def KERNEL_V_ADDR_PFX_def
    cap_is_mapped_def)

lemma paged_walk:
  "walk paged_state 0xffff800000010000 0 = (0, 0xffff800000013000)"
  "walk paged_state 0xffff800000010000 0x1000 = (0, 0xffff800000013008)"
  by (simp_all add: walk_def paged_state_def numeral_3_eq_3 Let_def pte_slot_def get_vpn_def pte_as_page_table_def
    pte_write_def pte_get_address_def PAGE_V_def pte_is_valid_def phys_to_kva_def KERNEL_V_ADDR_PFX_def)

lemma paged_free: "ks_pte paged_state 0xffff800000013000 = 0"
  by (simp add: paged_state_def)

lemma demo_map:
  "page_cap_map demo_page demo_table 0 PAGE_R paged_state
     = (Ok (cap_set_mapped demo_page 0), set_pte 0xffff800000013000 (pte_write 0x20000 (PAGE_R OR PAGE_V)) paged_state)"
  by (simp add: page_cap_map_def ensure_def bind_st_def page_map_def paged_walk paged_free kva_to_phys_def
      KERNEL_V_ADDR_PFX_def del: bind_st_simps)


theorem page_map_preserves_mappings_witness:
  "translate (snd (page_cap_map demo_page demo_table 0 PAGE_R paged_state)) 0xffff800000010000 0x1000
     = Some (pte_write 0x21000 (PAGE_R OR PAGE_V))"
proof -
  have "translate paged_state 0xffff800000010000 0x1000 = Some (pte_write 0x21000 (PAGE_R OR PAGE_V))"
    by (simp add: translate_def paged_walk) (simp add: paged_state_def)
  from page_map_preserves_mappings [OF demo_map this] show ?thesis by (simp add: demo_map)
qed

theorem page_unmap_map_witness:
  "page_cap_unmap (cap_set_mapped demo_page 0) demo_table
     (set_pte 0xffff800000013000 (pte_write 0x20000 (PAGE_R OR PAGE_V)) paged_state) = (Ok demo_page, paged_state)"
  by (rule page_unmap_map [OF demo_map]) (simp_all add: paged_walk paged_free PAGE_R_def)

end
