(* ===== verification/Spec2Isabelle.thy ===== *)
theory Spec2Isabelle
  imports Root_Server Examples_Boot Examples_Zoea Examples_Calls Examples_Memory
begin

text \<open>
  \<^bold>\<open>Zoeax: a verification development of the microkernel.\<close>

  Zoeax is a capability based microkernel for 64-bit RISC-V, written in Rust. User
  programs hold capabilities in CNodes, trees of slots rooted in their thread, and
  invoke them by system calls; the kernel makes new objects out of untyped memory,
  passes messages through endpoints and notifications, maps pages, and schedules the
  threads round robin on timer interrupts.

  \<^bold>\<open>Theories and sources.\<close>

  \<^item> \<^theory_text>\<open>Zoeax_Prelude\<close>: machine words, the outcomes of a Rust call (a value, an error, a panic,
    no return), the state monad over them, arithmetic that panics on overflow.
  \<^item> \<^theory_text>\<open>Interfaces\<close>: the contracts the components share, as locales: codecs, queues, and
    allocators of regions.
  \<^item> \<^theory_text>\<open>Shared_Types\<close>, \<^theory_text>\<open>Shared_Registers\<close>: \<^verbatim>\<open>shared/src\<close>, the numbers and records of the
    binary interface.
  \<^item> \<^theory_text>\<open>Address\<close>: \<^verbatim>\<open>kernel/src/address.rs\<close>.
  \<^item> \<^theory_text>\<open>Linked_List\<close>: \<^verbatim>\<open>kernel/src/list.rs\<close>, on a store of items.
  \<^item> \<^theory_text>\<open>Cap_Data\<close>: \<^verbatim>\<open>kernel/src/capability.rs\<close> and the fields of the capability types.
  \<^item> \<^theory_text>\<open>Kernel_State\<close>: the memory and the static variables of the kernel as one record.
  \<^item> \<^theory_text>\<open>Mdb\<close>: the derivation links of \<^verbatim>\<open>kernel/src/object/cnode.rs\<close>.
  \<^item> \<^theory_text>\<open>CSpace\<close>: \<^verbatim>\<open>kernel/src/capability/cnode.rs\<close>, slots and the resolution of pointers.
  \<^item> \<^theory_text>\<open>Page_Table\<close>: \<^verbatim>\<open>page_table.rs\<close> of \<^verbatim>\<open>object\<close> and \<^verbatim>\<open>capability\<close>.
  \<^item> \<^theory_text>\<open>Scheduler\<close>: \<^verbatim>\<open>kernel/src/scheduler.rs\<close> and \<^verbatim>\<open>object/tcb.rs\<close>.
  \<^item> \<^theory_text>\<open>Ipc\<close>: endpoints and notifications.
  \<^item> \<^theory_text>\<open>Untyped_Cap\<close>, \<^theory_text>\<open>Tcb_Cap\<close>: retyping and the operations of thread capabilities.
  \<^item> \<^theory_text>\<open>Syscall\<close>: \<^verbatim>\<open>kernel/src/syscall.rs\<close>, one definition per arm of the dispatch.
  \<^item> \<^theory_text>\<open>Trap_Entry\<close>, \<^theory_text>\<open>Handler\<close>: \<^verbatim>\<open>kernel/src/handler.rs\<close>, the assembly and the Rust part.
  \<^item> \<^theory_text>\<open>Elf\<close>: \<^verbatim>\<open>shared/src/elf.rs\<close> and the parts of \<^verbatim>\<open>elf/def.rs\<close> that the loaders use, with the
    contract between the loader and a mapper of segments as a locale.
  \<^item> \<^theory_text>\<open>Boot_Memory\<close>: \<^verbatim>\<open>kernel/src/init/pm.rs\<close> and \<^verbatim>\<open>init/vm.rs\<close>, the page allocator and the page
    table of the kernel.
  \<^item> \<^theory_text>\<open>Boot\<close>: \<^verbatim>\<open>kernel/src/init.rs\<close>, \<^verbatim>\<open>init/root_server.rs\<close> and \<^verbatim>\<open>main.rs\<close>, the definitions. Their
    lemmas are in \<^theory_text>\<open>Boot_Map\<close> (the invariant of the address space under construction),
    \<^theory_text>\<open>Boot_Load\<close> (the loaded image), \<^theory_text>\<open>Boot_Untyped\<close> (the untyped capabilities), \<^theory_text>\<open>Boot_Total\<close>
    (the address space is created when memory suffices) and \<^theory_text>\<open>Boot_Thread\<close> (the first thread
    and the first return to user mode).
  \<^item> \<^theory_text>\<open>Zoea_Syscall\<close>, \<^theory_text>\<open>Zoea_Caps\<close>: \<^verbatim>\<open>libzoea/src\<close>, the user library, as programs that trap into
    the model of the kernel.
  \<^item> \<^theory_text>\<open>Root_Server\<close>: \<^verbatim>\<open>rootserver/src\<close>, the first user program and its loader.
  \<^item> \<^theory_text>\<open>Examples\<close>, \<^theory_text>\<open>Examples_Calls\<close>, \<^theory_text>\<open>Examples_Memory\<close>, \<^theory_text>\<open>Examples_Boot\<close>, \<^theory_text>\<open>Examples_Zoea\<close>:
    concrete states on which every property with a hypothesis is used.

  \<^bold>\<open>How the state corresponds.\<close> An object of the kernel is named by its kernel virtual
  address, and the record \<^typ>\<open>kstate\<close> has one field per kind of object: thread control
  blocks with their links, capability slots and their derivation words, page table
  entries, endpoints, notifications, message buffers, and the bytes of all other
  memory. Two objects of different kinds
  at one address do not alias in the model. The addresses that the linker fixes and
  the sizes that the compiler chooses are fields of an argument, \<^typ>\<open>Image\<close>; local
  variables whose address escapes into derivation links are fields of it as well.
  During initialisation the record \<^typ>\<open>boot\<close> adds the resource manager and the boot
  information. A user program is a program on the state of the kernel whose system
  calls run the trap handler; when another thread is scheduled, the call has not come
  back. Its memory is reached through its own page table.

  \<^bold>\<open>Outcomes.\<close> An operation returns \<^term>\<open>Ok\<close>, \<^term>\<open>Err\<close> with the error of the kernel, \<^term>\<open>Panic\<close>
  with its cause, or \<^term>\<open>Hang\<close>. Arithmetic is that of a build with overflow checks. The
  only loops that may not end, the resolution of a pointer and the printing of a
  capability space, are partial functions whose missing result is \<^term>\<open>Hang\<close>; no fuel
  is used anywhere. The loops that make page tables end because every round takes a
  page or a slot, and the others because they run over a range.

  \<^bold>\<open>What is shown.\<close>

  \<^item> Capabilities: a system call creates no authority except over memory that an
    untyped capability had not handed out; objects made by one capability never
    overlap; copying, minting and moving change exactly the slots they name; every
    capability keeps a valid type.
  \<^item> Errors: a failed call leaves the state of the kernel as it was.
  \<^item> Resolution of pointers: the loop computes a reference definition, does not panic
    below the width of a pointer, and ends when every node consumes bits.
  \<^item> Communication: endpoints and notifications refine small step relations, and
    messages and signals arrive.
  \<^item> Scheduling: the scheduler refines a list; the slices never underflow; the head of
    the queue runs.
  \<^item> Address spaces: a mapping translates as requested, keeps every other translation
    and is undone by its inverse.
  \<^item> Traps: the assembly saves and restores the complete context.
  \<^item> Initialisation: the page table of the kernel maps memory and image; with enough
    memory and slots the address space of the first program is created and holds its
    image; the rest of memory is handed over. That the first program starts is shown
    for a run of the initialisation that succeeds.
  \<^item> User library: the arguments of a call arrive, its errors come back, strings are
    printed, and a copied capability is found at the path the library computes.
  \<^item> Defects, as theorems: retyping beyond the block, links that survive a pop, lookups
    that diverge or overflow, minting into another slot than the one returned, and
    others.

  \<^bold>\<open>What is not modelled.\<close> The boot code in assembly, the firmware interface, the access
  to control registers other than those of the trap path, and the linker and build
  scripts have no state that the properties speak about. The types of \<^verbatim>\<open>elf/def.rs\<close> for
  sections, symbols, relocations and notes are used by no code. Interrupts during a
  user program and its continuation after it was suspended are not part of the
  definitions of \<^theory_text>\<open>Root_Server\<close>; the contexts of threads are kept by the properties on
  traps. Of \<^theory_text>\<open>Root_Server\<close> the definitions and the end of its loops are checked; no theorem
  says what its main function does. Fence instructions have no counterpart, since the model has no translation cache. Diagnostic messages of the
  kernel are left out; the console holds the characters that users write.
\<close>

end
